theory Spec2Isabelle
  imports Main "HOL-Library.Multiset"
begin

section \<open>Values, rows and the JavaScript string helpers\<close>

text \<open>
  A column value of the embedded store, a field of a JSON payload, a field of a row
  fetched from the remote backend, or a property of a JavaScript object. \<open>VNull\<close> is
  SQL NULL and JavaScript \<open>null\<close>. \<open>VReal\<close> is a number that is not an integer, kept
  by its decimal text: the code does no arithmetic on it. \<open>VNaN\<close> and \<open>VUndefined\<close>
  are the JavaScript values \<open>NaN\<close> and \<open>undefined\<close>; they occur in JavaScript objects
  only, never in a stored row.
\<close>

datatype val = VNull | VInt int | VText string | VBool bool | VReal string | VNaN | VUndefined

text \<open>
  A row or a JavaScript object literal: its keys in order, each with its value. The code
  builds column lists from \<open>Object.keys(record)\<close>, so rows are not typed by table.
\<close>

type_synonym row = "(string \<times> val) list"

definition col :: "row \<Rightarrow> string \<Rightarrow> val" where
  "col r c = (case map_of r c of None \<Rightarrow> VNull | Some v \<Rightarrow> v)"

text \<open>\<open>{...data, k: v}\<close>: an existing key keeps its position, a new key goes last.\<close>

fun set_key :: "string \<Rightarrow> val \<Rightarrow> row \<Rightarrow> row" where
  "set_key k v [] = [(k, v)]"
| "set_key k v ((k', v') # r) =
     (if k' = k then (k, v) # r else (k', v') # set_key k v r)"

text \<open>Decimal rendering of an integer, as template literals and SQLite's \<open>||\<close> produce it.\<close>

definition digit_char :: "nat \<Rightarrow> char" where
  "digit_char d = ''0123456789'' ! d"

fun show_nat :: "nat \<Rightarrow> string" where
  "show_nat n =
     (if n < 10 then [digit_char n] else show_nat (n div 10) @ [digit_char (n mod 10)])"

declare show_nat.simps [simp del]

definition show_int :: "int \<Rightarrow> string" where
  "show_int i = (if i < 0 then CHR ''-'' # show_nat (nat (- i)) else show_nat (nat i))"

definition is_digit :: "char \<Rightarrow> bool" where
  "is_digit c = (c \<in> set ''0123456789'')"

definition digit_val :: "char \<Rightarrow> nat" where
  "digit_val c = of_char c - 48"

definition parse_nat :: "string \<Rightarrow> nat" where
  "parse_nat ds = foldl (\<lambda>a c. 10 * a + digit_val c) 0 ds"

definition js_space :: "char \<Rightarrow> bool" where
  "js_space c = (c \<in> set [CHR '' '', CHR 0x09, CHR 0x0A, CHR 0x0B, CHR 0x0C, CHR 0x0D])"

text \<open>
  \<open>s.split(c)\<close> for a one-character separator: \<open>''''.split('','')\<close> is \<open>['''']\<close>, and
  a trailing separator gives a trailing empty string.
\<close>

fun split_on :: "char \<Rightarrow> string \<Rightarrow> string list" where
  "split_on c [] = [[]]"
| "split_on c (x # xs) =
     (if x = c then [] # split_on c xs
      else (case split_on c xs of
              [] \<Rightarrow> [[x]]
            | w # ws \<Rightarrow> (x # w) # ws))"

text \<open>A sign prefix: \<open>(negative, rest)\<close>.\<close>

definition strip_sign :: "string \<Rightarrow> bool \<times> string" where
  "strip_sign s =
     (case s of
        [] \<Rightarrow> (False, [])
      | c # r \<Rightarrow> if c = CHR ''-'' then (True, r)
                 else if c = CHR ''+'' then (False, r)
                 else (False, s))"

definition signed :: "bool \<Rightarrow> nat \<Rightarrow> int" where
  "signed neg n = (if neg then - int n else int n)"

text \<open>
  \<open>parseInt(s, 10)\<close>: leading white space is skipped, a sign is read, then the longest
  run of decimal digits; \<open>None\<close> is NaN (no digit).
\<close>

definition parseInt :: "string \<Rightarrow> int option" where
  "parseInt s =
     (let (neg, u) = strip_sign (dropWhile js_space s);
          ds = takeWhile is_digit u
      in if ds = [] then None else Some (signed neg (parse_nat ds)))"

text \<open>
  \<open>Number(s)\<close>. Exact on the strings the repository writes for keys: white space around
  an optional sign and decimal digits, and the empty string (which is 0). Every other
  string is mapped to \<open>VNaN\<close>; for fraction, exponent, radix-prefix and \<open>Infinity\<close>
  literals that is not the JavaScript value, and no statement below relies on it.
\<close>

definition js_Number :: "string \<Rightarrow> val" where
  "js_Number s =
     (let t = rev (dropWhile js_space (rev (dropWhile js_space s)))
      in if t = [] then VInt 0
         else (let (neg, u) = strip_sign t
               in if u \<noteq> [] \<and> list_all is_digit u then VInt (signed neg (parse_nat u))
                  else VNaN))"

text \<open>\<open>arr[i]\<close> on an array of numbers: \<open>undefined\<close> out of range.\<close>

definition js_index :: "val list \<Rightarrow> nat \<Rightarrow> val" where
  "js_index xs i = (if i < length xs then xs ! i else VUndefined)"

text \<open>The number \<open>parseInt\<close> returns, as a JavaScript value.\<close>

definition jsnum_of :: "int option \<Rightarrow> val" where
  "jsnum_of x = (case x of None \<Rightarrow> VNaN | Some n \<Rightarrow> VInt n)"

text \<open>A number placed in a JSON request body: NaN is serialised as \<open>null\<close>.\<close>

definition json_num :: "int option \<Rightarrow> val" where
  "json_num x = (case x of None \<Rightarrow> VNull | Some n \<Rightarrow> VInt n)"


section \<open>The local store\<close>

datatype table =
    Users | Companies | Roles | UserRoles | UserCompanies | Forms | FormFields
  | FormCompanies | Visits | FormResponses | FormFieldResponses

fun name_of :: "table \<Rightarrow> string" where
  "name_of Users = ''users''"
| "name_of Companies = ''companies''"
| "name_of Roles = ''roles''"
| "name_of UserRoles = ''user_roles''"
| "name_of UserCompanies = ''user_companies''"
| "name_of Forms = ''forms''"
| "name_of FormFields = ''form_fields''"
| "name_of FormCompanies = ''form_companies''"
| "name_of Visits = ''visits''"
| "name_of FormResponses = ''form_responses''"
| "name_of FormFieldResponses = ''form_field_responses''"

datatype operation = INSERT | UPDATE | DELETE

text \<open>
  A row of \<open>sync_queue\<close>. \<open>synced\<close> is the INTEGER flag 0/1. \<open>data\<close> is the payload
  object; the table stores \<open>JSON.stringify(data)\<close> and the upload reads it back with
  \<open>JSON.parse\<close>. \<open>created_at\<close> is the default \<open>CURRENT_TIMESTAMP\<close>, which SQLite
  writes as the fixed-width UTC text \<open>YYYY-MM-DD HH:MM:SS\<close>; its text order is the order
  of the instants, so it is kept as the number of seconds since the epoch.
\<close>

record queue_row =
  qid :: int
  table_name :: string
  record_id :: string
  operation :: operation
  data :: row
  synced :: bool
  retry_count :: int
  error :: "string option"
  created_at :: int

text \<open>
  Everything a transaction covers: the rows of each table, the AUTOINCREMENT high-water
  marks, and the outbox.
\<close>

record store =
  tbl :: "table \<Rightarrow> row list"
  seq :: "table \<Rightarrow> int"
  sync_queue :: "queue_row list"
  queue_seq :: int

text \<open>
  The statements the code sends to the engine. The engine is an external collaborator:
  besides what the model computes (keys, defaults, the transaction), it may reject any
  statement (a constraint the model does not track, such as a foreign key or a CHECK, or
  an I/O error). The \<open>fault\<close> oracle of the environment says which statements it rejects
  in which state, and with which message.
\<close>

datatype stmt =
    Begin | Commit
  | Select string
  | InsertRow table row
  | InsertOrReplace table row
  | DeleteFrom table
  | DeleteWhere table string val
  | UpdateWhere table row string val
  | QueueSelect
  | QueueInsert string string operation row
  | QueueMarkSynced int
  | QueueMarkFailed int string
  | QueueCleanup

datatype exn = SqliteError string | RemoteError string | AppError string

fun message :: "exn \<Rightarrow> string" where
  "message (SqliteError m) = m"
| "message (RemoteError m) = m"
| "message (AppError m) = m"

text \<open>The requests of the upload to the remote backend.\<close>

datatype remote_call =
    Upsert string row
  | DeleteEq string string val string val
  | UpdateEq string row string val

text \<open>
  The environment of one call: the platform, the connectivity probe, the clock, the
  engine's rejections and the remote backend's answers. \<open>supabase\<close> is \<open>null\<close> exactly
  on the web platform, so \<open>!supabase\<close> is \<open>web\<close>. Two floating-point computations are
  taken as given: \<open>julian_seconds e s\<close> is what the engine computes for
  \<open>CAST(ROUND((julianday(e) - julianday(s)) * 24 * 60 * 60) AS INTEGER)\<close>, and
  \<open>parseFloat\<close> is JavaScript's.
\<close>

record env =
  web :: bool
  online :: bool
  clock :: int
  sql_now :: string
  iso_now :: string
  fault :: "stmt \<Rightarrow> store \<Rightarrow> string option"
  remote_write :: "remote_call \<Rightarrow> string option"
  remote_rows :: "table \<Rightarrow> string + row list"
  julian_seconds :: "val \<Rightarrow> val \<Rightarrow> val"
  parseFloat :: "string \<Rightarrow> val"

text \<open>
  The process: the store with the snapshot of the open transaction (if any), the module
  variables of \<open>sync.ts\<close>, and the key-value storage. \<open>syncTimeout\<close> says whether the
  debounce timer is armed.
\<close>

record world =
  cur :: store
  txn :: "store option"
  syncInProgress :: bool
  globalTransaction :: bool
  syncTimeout :: bool
  storage :: "string \<Rightarrow> string option"

definition rejected :: "env \<Rightarrow> stmt \<Rightarrow> world \<Rightarrow> exn option" where
  "rejected env s w = map_option SqliteError (fault env s (cur w))"


subsection \<open>Asynchronous functions\<close>

text \<open>
  An \<open>async\<close> function run to completion: it returns a value or throws, and leaves
  the process in a new state either way.
\<close>

type_synonym 'a action = "world \<Rightarrow> (exn + 'a) \<times> world"

definition ret :: "'a \<Rightarrow> 'a action" where
  "ret x w = (Inr x, w)"

definition throw :: "exn \<Rightarrow> 'a action" where
  "throw e w = (Inl e, w)"

definition and_then :: "'a action \<Rightarrow> ('a \<Rightarrow> 'b action) \<Rightarrow> 'b action" where
  "and_then m f w = (case m w of (Inl e, w') \<Rightarrow> (Inl e, w') | (Inr x, w') \<Rightarrow> f x w')"

definition try_catch :: "'a action \<Rightarrow> (exn \<Rightarrow> 'a action) \<Rightarrow> 'a action" where
  "try_catch m h w = (case m w of (Inl e, w') \<Rightarrow> h e w' | (Inr x, w') \<Rightarrow> (Inr x, w'))"

definition finally_do :: "'a action \<Rightarrow> (world \<Rightarrow> world) \<Rightarrow> 'a action" where
  "finally_do m f w = (case m w of (r, w') \<Rightarrow> (r, f w'))"

fun for_each :: "('a \<Rightarrow> unit action) \<Rightarrow> 'a list \<Rightarrow> unit action" where
  "for_each f [] = ret ()"
| "for_each f (x # xs) = and_then (f x) (\<lambda>_. for_each f xs)"

text \<open>A single statement: it either fails and changes nothing, or takes effect.\<close>

definition atomic :: "(world \<Rightarrow> exn + 'a \<times> world) \<Rightarrow> 'a action" where
  "atomic f w = (case f w of Inl e \<Rightarrow> (Inl e, w) | Inr (x, w') \<Rightarrow> (Inr x, w'))"


subsection \<open>The schema (\<open>initDatabase\<close>) and the engine's statements\<close>

datatype dflt = NoDefault | Default val | CurrentTimestamp

text \<open>The columns of each table: name, default, NOT NULL.\<close>

definition stamps :: "(string \<times> dflt \<times> bool) list" where
  "stamps = [(''created_at'', CurrentTimestamp, False), (''updated_at'', CurrentTimestamp, False),
             (''deleted_at'', NoDefault, False)]"

definition stamps_nn :: "(string \<times> dflt \<times> bool) list" where
  "stamps_nn = [(''created_at'', CurrentTimestamp, True), (''updated_at'', CurrentTimestamp, True),
                (''deleted_at'', NoDefault, False)]"

fun schema :: "table \<Rightarrow> (string \<times> dflt \<times> bool) list" where
  "schema Users =
     [(''id'', NoDefault, False), (''username'', NoDefault, True), (''password'', NoDefault, True),
      (''is_admin'', Default (VInt 0), False), (''active'', Default (VInt 1), False)] @ stamps"
| "schema Companies =
     [(''id'', NoDefault, False), (''name'', NoDefault, True), (''description'', NoDefault, False)]
     @ stamps"
| "schema Roles = [(''id'', NoDefault, False), (''name'', NoDefault, True)] @ stamps"
| "schema UserRoles = [(''user_id'', NoDefault, False), (''role_id'', NoDefault, False)] @ stamps"
| "schema UserCompanies =
     [(''user_id'', NoDefault, False), (''company_id'', NoDefault, False)] @ stamps"
| "schema Visits =
     [(''id'', NoDefault, False), (''user_id'', NoDefault, False), (''company_id'', NoDefault, False),
      (''role_id'', NoDefault, False), (''start_time'', NoDefault, True),
      (''end_time'', NoDefault, False), (''duration'', NoDefault, False),
      (''latitude'', NoDefault, False), (''longitude'', NoDefault, False),
      (''no_gps_signal'', Default (VInt 0), False), (''end_latitude'', NoDefault, False),
      (''end_longitude'', NoDefault, False), (''no_gps_signal_end'', Default (VInt 0), False)]
     @ stamps"
| "schema Forms =
     [(''id'', NoDefault, False), (''name'', NoDefault, True), (''description'', NoDefault, False)]
     @ stamps_nn"
| "schema FormFields =
     [(''id'', NoDefault, False), (''form_id'', NoDefault, True), (''name'', NoDefault, True),
      (''label'', NoDefault, True), (''type'', NoDefault, True),
      (''required'', Default (VInt 0), False), (''sort_order'', NoDefault, True)] @ stamps"
| "schema FormCompanies =
     [(''form_id'', NoDefault, True), (''company_id'', NoDefault, True)] @ stamps"
| "schema FormResponses =
     [(''id'', NoDefault, False), (''form_id'', NoDefault, True), (''visit_id'', NoDefault, True),
      (''user_id'', NoDefault, True)] @ stamps_nn"
| "schema FormFieldResponses =
     [(''id'', NoDefault, False), (''form_response_id'', NoDefault, True),
      (''field_id'', NoDefault, True), (''value'', NoDefault, True)] @ stamps"

text \<open>Tables with \<open>id INTEGER PRIMARY KEY AUTOINCREMENT\<close>; the others are the junctions.\<close>

definition rowid_table :: "table \<Rightarrow> bool" where
  "rowid_table t = (t \<noteq> UserRoles \<and> t \<noteq> UserCompanies \<and> t \<noteq> FormCompanies)"

text \<open>The PRIMARY KEY and UNIQUE constraints of each table, as column lists.\<close>

fun unique_keys :: "table \<Rightarrow> string list list" where
  "unique_keys Users = [[''id''], [''username'']]"
| "unique_keys UserRoles = [[''user_id'', ''role_id'']]"
| "unique_keys UserCompanies = [[''user_id'', ''company_id'']]"
| "unique_keys FormCompanies = [[''form_id'', ''company_id'']]"
| "unique_keys t = [[''id'']]"

text \<open>
  Two rows collide on a key when they agree on all its columns and none is NULL (NULLs
  are distinct for a uniqueness constraint).
\<close>

definition conflicts :: "table \<Rightarrow> row \<Rightarrow> row \<Rightarrow> bool" where
  "conflicts t a b =
     list_ex (\<lambda>k. map (col a) k = map (col b) k \<and> VNull \<notin> set (map (col a) k)) (unique_keys t)"

definition default_val :: "env \<Rightarrow> dflt \<Rightarrow> val" where
  "default_val env d =
     (case d of NoDefault \<Rightarrow> VNull | Default v \<Rightarrow> v | CurrentTimestamp \<Rightarrow> VText (sql_now env))"

text \<open>The stored row for a column list and its values: omitted columns get their default.\<close>

definition fill_defaults :: "env \<Rightarrow> table \<Rightarrow> row \<Rightarrow> row" where
  "fill_defaults env t r =
     map (\<lambda>(c, d, nn). (c, case map_of r c of Some v \<Rightarrow> v | None \<Rightarrow> default_val env d))
       (schema t)"

definition int_ids :: "row list \<Rightarrow> int list" where
  "int_ids rs = concat (map (\<lambda>r. case col r ''id'' of VInt i \<Rightarrow> [i] | _ \<Rightarrow> []) rs)"

text \<open>
  AUTOINCREMENT: one more than the largest id the table holds or has ever held.
\<close>

definition next_id :: "store \<Rightarrow> table \<Rightarrow> int" where
  "next_id s t = fold max (int_ids (tbl s t)) (seq s t) + 1"

datatype on_conflict = Abort | Replace

definition is_int :: "val \<Rightarrow> bool" where
  "is_int v = (case v of VInt i \<Rightarrow> True | _ \<Rightarrow> False)"

definition the_int :: "val \<Rightarrow> int" where
  "the_int v = (case v of VInt i \<Rightarrow> i | _ \<Rightarrow> 0)"

text \<open>The row as it will be stored, with its id assigned if the statement gives none.\<close>

definition new_row :: "env \<Rightarrow> store \<Rightarrow> table \<Rightarrow> row \<Rightarrow> row" where
  "new_row env s t r =
     (let r0 = fill_defaults env t r
      in if rowid_table t \<and> col r0 ''id'' = VNull then set_key ''id'' (VInt (next_id s t)) r0
         else r0)"

text \<open>
  \<open>INSERT INTO t (columns) VALUES (...)\<close> and \<open>INSERT OR REPLACE INTO ...\<close>. The
  result is \<open>lastInsertRowId\<close> (the id of the new row) and the new state. A plain INSERT
  fails on a key collision; OR REPLACE deletes the colliding rows first. Foreign keys,
  CHECK constraints and cascades are the engine's and not computed here (see \<open>fault\<close>).
\<close>

definition sql_insert ::
  "env \<Rightarrow> on_conflict \<Rightarrow> table \<Rightarrow> row \<Rightarrow> world \<Rightarrow> exn + val \<times> world" where
  "sql_insert env mode t r w =
     (case rejected env (if mode = Replace then InsertOrReplace t r else InsertRow t r) w of
        Some e \<Rightarrow> Inl e
      | None \<Rightarrow>
          (let s = cur w; r1 = new_row env s t r
           in if list_ex (\<lambda>c. c \<notin> set (map fst (schema t))) (map fst r)
              then Inl (SqliteError ''no such column'')
              else if rowid_table t \<and> \<not> is_int (col r1 ''id'')
              then Inl (SqliteError ''datatype mismatch'')
              else if list_ex (\<lambda>(c, d, nn). nn \<and> col r1 c = VNull) (schema t)
              then Inl (SqliteError ''NOT NULL constraint failed'')
              else if mode = Abort \<and> list_ex (conflicts t r1) (tbl s t)
              then Inl (SqliteError ''UNIQUE constraint failed'')
              else Inr (col r1 ''id'',
                        w\<lparr>cur := s\<lparr>tbl := (tbl s)(t := filter (\<lambda>x. \<not> conflicts t r1 x) (tbl s t) @ [r1]),
                                    seq := (seq s)(t := max (seq s t) (the_int (col r1 ''id'')))\<rparr>\<rparr>)))"

text \<open>SQL equality: never true on NULL.\<close>

definition sql_eq :: "val \<Rightarrow> val \<Rightarrow> bool" where
  "sql_eq a b = (a \<noteq> VNull \<and> b \<noteq> VNull \<and> a = b)"

text \<open>\<open>DELETE FROM t\<close>\<close>

definition sql_delete_all :: "env \<Rightarrow> table \<Rightarrow> world \<Rightarrow> exn + unit \<times> world" where
  "sql_delete_all env t w =
     (case rejected env (DeleteFrom t) w of
        Some e \<Rightarrow> Inl e
      | None \<Rightarrow> Inr ((), w\<lparr>cur := (cur w)\<lparr>tbl := (tbl (cur w))(t := [])\<rparr>\<rparr>))"

text \<open>\<open>DELETE FROM t WHERE c = v\<close>\<close>

definition sql_delete_where :: "env \<Rightarrow> table \<Rightarrow> string \<Rightarrow> val \<Rightarrow> world \<Rightarrow> exn + unit \<times> world" where
  "sql_delete_where env t c v w =
     (case rejected env (DeleteWhere t c v) w of
        Some e \<Rightarrow> Inl e
      | None \<Rightarrow>
          Inr ((), w\<lparr>cur := (cur w)\<lparr>tbl := (tbl (cur w))
                      (t := filter (\<lambda>r. \<not> sql_eq (col r c) v) (tbl (cur w) t))\<rparr>\<rparr>))"

text \<open>\<open>UPDATE t SET ... WHERE c = v\<close>\<close>

definition sql_update_where ::
  "env \<Rightarrow> table \<Rightarrow> row \<Rightarrow> string \<Rightarrow> val \<Rightarrow> world \<Rightarrow> exn + unit \<times> world" where
  "sql_update_where env t sets c v w =
     (case rejected env (UpdateWhere t sets c v) w of
        Some e \<Rightarrow> Inl e
      | None \<Rightarrow>
          Inr ((), w\<lparr>cur := (cur w)\<lparr>tbl := (tbl (cur w))
                      (t := map (\<lambda>r. if sql_eq (col r c) v
                                     then fold (\<lambda>(k, x). set_key k x) sets r else r)
                              (tbl (cur w) t))\<rparr>\<rparr>))"

text \<open>A query: the engine answers or fails; the state is not changed.\<close>

definition sql_select :: "env \<Rightarrow> string \<Rightarrow> world \<Rightarrow> exn + unit \<times> world" where
  "sql_select env q w = (case rejected env (Select q) w of Some e \<Rightarrow> Inl e | None \<Rightarrow> Inr ((), w))"

text \<open>
  The transaction. The engine has one connection and no nesting: BEGIN inside a
  transaction fails, COMMIT and ROLLBACK outside one fail. ROLLBACK restores the state
  BEGIN saw; inside a transaction it does not fail.
\<close>

definition sql_begin :: "env \<Rightarrow> world \<Rightarrow> exn + unit \<times> world" where
  "sql_begin env w =
     (case rejected env Begin w of
        Some e \<Rightarrow> Inl e
      | None \<Rightarrow>
          (case txn w of
             Some s \<Rightarrow> Inl (SqliteError ''cannot start a transaction within a transaction'')
           | None \<Rightarrow> Inr ((), w\<lparr>txn := Some (cur w)\<rparr>)))"

definition sql_commit :: "env \<Rightarrow> world \<Rightarrow> exn + unit \<times> world" where
  "sql_commit env w =
     (case rejected env Commit w of
        Some e \<Rightarrow> Inl e
      | None \<Rightarrow>
          (case txn w of
             None \<Rightarrow> Inl (SqliteError ''cannot commit - no transaction is active'')
           | Some s \<Rightarrow> Inr ((), w\<lparr>txn := None\<rparr>)))"

definition sql_rollback :: "world \<Rightarrow> exn + unit \<times> world" where
  "sql_rollback w =
     (case txn w of
        None \<Rightarrow> Inl (SqliteError ''cannot rollback - no transaction is active'')
      | Some s \<Rightarrow> Inr ((), w\<lparr>cur := s, txn := None\<rparr>))"


section \<open>The outbox and the upload (\<open>src/utils/sync.ts\<close>)\<close>

text \<open>\<open>isOnline()\<close>: always true on the web platform.\<close>

definition isOnline :: "env \<Rightarrow> bool" where
  "isOnline env = (web env \<or> online env)"

definition enqueue_row :: "env \<Rightarrow> store \<Rightarrow> string \<Rightarrow> string \<Rightarrow> operation \<Rightarrow> row \<Rightarrow> queue_row" where
  "enqueue_row env s t rid opn d =
     \<lparr>qid = queue_seq s + 1, table_name = t, record_id = rid, operation = opn, data = d,
      synced = False, retry_count = 0, error = None, created_at = clock env\<rparr>"

text \<open>
  \<open>addToSyncQueue\<close>. The caller passes \<open>recordId.toString()\<close>. After the insert the
  debounce timer is (re)armed when the probe says online and no sync is running.
\<close>

definition addToSyncQueue ::
  "env \<Rightarrow> string \<Rightarrow> string \<Rightarrow> operation \<Rightarrow> row \<Rightarrow> unit action" where
  "addToSyncQueue env t rid opn d w =
     (if web env then (Inr (), w)
      else (case rejected env (QueueInsert t rid opn d) w of
              Some e \<Rightarrow> (Inl e, w)
            | None \<Rightarrow>
                (let s = cur w;
                     w1 = w\<lparr>cur := s\<lparr>sync_queue := sync_queue s @ [enqueue_row env s t rid opn d],
                                      queue_seq := queue_seq s + 1\<rparr>\<rparr>
                 in if isOnline env \<and> \<not> syncInProgress w1
                    then (Inr (), w1\<lparr>syncTimeout := True\<rparr>)
                    else (Inr (), w1))))"

text \<open>
  The drain query:
  \<open>SELECT * FROM sync_queue WHERE synced = 0 AND retry_count < 3 ORDER BY created_at ASC\<close>.
  Rows with equal \<open>created_at\<close> keep their table order.
\<close>

definition pendingChanges :: "store \<Rightarrow> queue_row list" where
  "pendingChanges s =
     sort_key created_at (filter (\<lambda>r. \<not> synced r \<and> retry_count r < 3) (sync_queue s))"

text \<open>The remote request for one outbox row (the body of the loop, lines 97 to 144).\<close>

definition dispatch :: "env \<Rightarrow> queue_row \<Rightarrow> remote_call" where
  "dispatch env change =
     (let t = table_name change; rid = record_id change; opn = operation change;
          d = data change
      in if t = ''user_roles'' \<or> t = ''user_companies'' \<or> t = ''form_companies'' then
           (if opn = INSERT \<or> opn = UPDATE then Upsert t d
            else (let ids = map js_Number (split_on CHR '','' rid);
                      id1 = js_index ids 0;
                      id2 = js_index ids 1;
                      key1 = (if t = ''user_roles'' then ''user_id'' else ''user_id'');
                      key2 = (if t = ''user_roles'' then ''role_id'' else ''company_id'')
                  in DeleteEq t key1 id1 key2 id2))
         else
           (if opn = INSERT \<or> opn = UPDATE
            then Upsert t (set_key ''id'' (json_num (parseInt rid)) d)
            else UpdateEq t [(''deleted_at'', VText (iso_now env))] ''id''
                   (jsnum_of (parseInt rid))))"

definition mark_synced :: "int \<Rightarrow> queue_row list \<Rightarrow> queue_row list" where
  "mark_synced i q = map (\<lambda>r. if qid r = i then r\<lparr>synced := True, error := None\<rparr> else r) q"

definition mark_failed :: "int \<Rightarrow> string \<Rightarrow> queue_row list \<Rightarrow> queue_row list" where
  "mark_failed i m q =
     map (\<lambda>r. if qid r = i then r\<lparr>retry_count := retry_count r + 1, error := Some m\<rparr> else r) q"

text \<open>
  The cleanup statement:
  \<open>DELETE FROM sync_queue WHERE (synced = 1 OR retry_count >= 3)
     AND created_at < datetime('now', '-7 days')\<close>.
\<close>

definition cleanup :: "int \<Rightarrow> queue_row list \<Rightarrow> queue_row list" where
  "cleanup now q =
     filter (\<lambda>r. \<not> ((synced r \<or> retry_count r \<ge> 3) \<and> created_at r < now - 7 * 24 * 60 * 60)) q"

definition set_queue :: "queue_row list \<Rightarrow> world \<Rightarrow> world" where
  "set_queue q w = w\<lparr>cur := (cur w)\<lparr>sync_queue := q\<rparr>\<rparr>"

text \<open>
  The \<open>try\<close> block of the loop body: the remote request, then the row is marked synced
  and the per-table timestamp is stored. \<open>Inl\<close> is what it throws.
\<close>

definition try_upload :: "env \<Rightarrow> queue_row \<Rightarrow> world \<Rightarrow> exn + world" where
  "try_upload env change w =
     (case remote_write env (dispatch env change) of
        Some m \<Rightarrow> Inl (RemoteError m)
      | None \<Rightarrow>
          (case rejected env (QueueMarkSynced (qid change)) w of
             Some e \<Rightarrow> Inl e
           | None \<Rightarrow>
               Inr ((set_queue (mark_synced (qid change) (sync_queue (cur w))) w)
                      \<lparr>storage := (storage w)(''last_sync_'' @ table_name change
                                                 \<mapsto> iso_now env)\<rparr>)))"

text \<open>\<open>error.message || 'Unknown error'\<close>\<close>

definition error_text :: "exn \<Rightarrow> string" where
  "error_text e = (if message e = [] then ''Unknown error'' else message e)"

text \<open>
  One iteration: the \<open>catch\<close> records the failure on the row. The first component is
  an exception that leaves the loop (the catch's own statement was rejected).
\<close>

definition process_change :: "env \<Rightarrow> queue_row \<Rightarrow> world \<Rightarrow> exn option \<times> world" where
  "process_change env change w =
     (case try_upload env change w of
        Inr w' \<Rightarrow> (None, w')
      | Inl e \<Rightarrow>
          (case rejected env (QueueMarkFailed (qid change) (error_text e)) w of
             Some e' \<Rightarrow> (Some e', w)
           | None \<Rightarrow>
               (None, set_queue (mark_failed (qid change) (error_text e) (sync_queue (cur w))) w)))"

text \<open>
  The loop over the fetched rows. The third component lists the remote requests issued,
  each with the id of its outbox row, in the order they were sent.
\<close>

fun process_all ::
  "env \<Rightarrow> queue_row list \<Rightarrow> world \<Rightarrow> exn option \<times> world \<times> (int \<times> remote_call) list" where
  "process_all env [] w = (None, w, [])"
| "process_all env (c # cs) w =
     (case process_change env c w of
        (Some e, w') \<Rightarrow> (Some e, w', [(qid c, dispatch env c)])
      | (None, w') \<Rightarrow>
          (case process_all env cs w' of
             (r, w'', tr) \<Rightarrow> (r, w'', (qid c, dispatch env c) # tr)))"

text \<open>
  \<open>processSyncQueue\<close>: the guards, the drain, the loop, the cleanup, and the
  \<open>finally\<close> that clears the flag. The first component is the exception it raises.
\<close>

definition processSyncQueue ::
  "env \<Rightarrow> world \<Rightarrow> exn option \<times> world \<times> (int \<times> remote_call) list" where
  "processSyncQueue env w =
     (if web env \<or> syncInProgress w then (None, w, [])
      else if \<not> isOnline env then (None, w, [])
      else if globalTransaction w then (None, w, [])
      else (let w0 = w\<lparr>syncInProgress := True\<rparr>
            in case rejected env QueueSelect w0 of
                 Some e \<Rightarrow> (Some e, w0\<lparr>syncInProgress := False\<rparr>, [])
               | None \<Rightarrow>
                   (case process_all env (pendingChanges (cur w0)) w0 of
                      (Some e, w1, tr) \<Rightarrow> (Some e, w1\<lparr>syncInProgress := False\<rparr>, tr)
                    | (None, w1, tr) \<Rightarrow>
                        (case rejected env QueueCleanup w1 of
                           Some e \<Rightarrow> (Some e, w1\<lparr>syncInProgress := False\<rparr>, tr)
                         | None \<Rightarrow>
                             (None,
                              (set_queue (cleanup (clock env) (sync_queue (cur w1))) w1)
                                \<lparr>syncInProgress := False\<rparr>,
                              tr)))))"


text \<open>
  Successive invocations of \<open>processSyncQueue\<close> (the debounce timer, the sync screens
  and the login each trigger one), every one in the environment it meets. The requests
  of all of them are collected in order.
\<close>

fun run_all :: "env list \<Rightarrow> world \<Rightarrow> world \<times> (int \<times> remote_call) list" where
  "run_all [] w = (w, [])"
| "run_all (e # es) w =
     (case processSyncQueue e w of
        (res, w', tr) \<Rightarrow> (case run_all es w' of (w'', tr') \<Rightarrow> (w'', tr @ tr')))"


section \<open>The download (\<open>downloadUpdates\<close> in \<open>src/utils/sync.ts\<close>)\<close>

text \<open>The tables in dependency order, each with its \<open>clearFirst\<close> flag.\<close>

definition tables :: "(table \<times> bool) list" where
  "tables =
     [(Users, True), (Companies, True), (Roles, True), (UserRoles, False),
      (UserCompanies, False), (Forms, True), (FormFields, False), (FormCompanies, False),
      (Visits, False), (FormResponses, False), (FormFieldResponses, False)]"

text \<open>
  \<open>supabase.from(t).select('*').is('deleted_at', null)\<close>: the error message, or the
  rows of the remote table whose \<open>deleted_at\<close> is null.
\<close>

definition remote_select :: "env \<Rightarrow> table \<Rightarrow> string + row list" where
  "remote_select env t =
     (case remote_rows env t of
        Inl m \<Rightarrow> Inl m
      | Inr rs \<Rightarrow> Inr (filter (\<lambda>r. col r ''deleted_at'' = VNull) rs))"

text \<open>
  One fetched record: the columns are the keys whose value is not null, and the row is
  written with \<open>INSERT OR REPLACE\<close>.
\<close>

definition insert_record :: "env \<Rightarrow> table \<Rightarrow> row \<Rightarrow> unit action" where
  "insert_record env t record =
     and_then (atomic (sql_insert env Replace t (filter (\<lambda>(k, v). v \<noteq> VNull) record)))
       (\<lambda>_. ret ())"

text \<open>
  One iteration of the loop over the tables: the fetch, the \<open>continue\<close> on an empty
  result, the \<open>DELETE FROM\<close> of a \<open>clearFirst\<close> table, the inserts.
\<close>

definition download_table :: "env \<Rightarrow> table \<times> bool \<Rightarrow> unit action" where
  "download_table env tc =
     (case remote_select env (fst tc) of
        Inl m \<Rightarrow> throw (RemoteError m)
      | Inr fetched \<Rightarrow>
          if fetched = [] then ret ()
          else and_then (if snd tc then atomic (sql_delete_all env (fst tc)) else ret ())
                 (\<lambda>_. for_each (insert_record env (fst tc)) fetched))"

definition download_loop :: "env \<Rightarrow> unit action" where
  "download_loop env = for_each (download_table env) tables"

text \<open>The row counts read after the commit, for the log.\<close>

definition verify_counts :: "env \<Rightarrow> unit action" where
  "verify_counts env =
     for_each (\<lambda>tc. atomic (sql_select env (''SELECT COUNT(*) as count FROM '' @ name_of (fst tc))))
       tables"

text \<open>
  From \<open>BEGIN TRANSACTION\<close> to the \<open>finally\<close>: the \<open>catch\<close> rolls back (an error of
  the rollback itself is logged and dropped) and rethrows.
\<close>

definition download_body :: "env \<Rightarrow> unit action" where
  "download_body env =
     finally_do
       (try_catch
          (and_then (atomic (sql_begin env)) (\<lambda>_.
           and_then (download_loop env) (\<lambda>_.
           and_then (atomic (sql_commit env)) (\<lambda>_.
           verify_counts env))))
          (\<lambda>e. and_then (try_catch (atomic sql_rollback) (\<lambda>_. ret ())) (\<lambda>_. throw e)))
       (\<lambda>w. w\<lparr>globalTransaction := False, syncInProgress := False\<rparr>)"

definition downloadUpdates :: "env \<Rightarrow> unit action" where
  "downloadUpdates env w =
     (if web env \<or> syncInProgress w then (Inr (), w)
      else if \<not> isOnline env then (Inr (), w)
      else download_body env (w\<lparr>syncInProgress := True, globalTransaction := True\<rparr>))"

text \<open>
  The same function cut at its first suspension points, for two invocations that are in
  flight together. JavaScript runs an invocation without interruption up to an
  \<open>await\<close>; there another invocation may run. \<open>downloadUpdates\<close> reads
  \<open>syncInProgress\<close>, then awaits the connectivity probe, then sets both flags and issues
  \<open>BEGIN TRANSACTION\<close>. \<open>Skipped\<close> is a return at a guard, \<open>Finished\<close> the return or
  the exception of the \<open>try\<close> block.
\<close>

datatype phase = AtGuard | AwaitingProbe | AwaitingBegin | Skipped | Finished "exn option"

definition download_step :: "env \<Rightarrow> phase \<Rightarrow> world \<Rightarrow> phase \<times> world" where
  "download_step env p w =
     (case p of
        AtGuard \<Rightarrow> if web env \<or> syncInProgress w then (Skipped, w) else (AwaitingProbe, w)
      | AwaitingProbe \<Rightarrow>
          if \<not> isOnline env then (Skipped, w)
          else (AwaitingBegin, w\<lparr>syncInProgress := True, globalTransaction := True\<rparr>)
      | AwaitingBegin \<Rightarrow>
          (case download_body env w of
             (Inl e, w') \<Rightarrow> (Finished (Some e), w')
           | (Inr u, w') \<Rightarrow> (Finished None, w'))
      | Skipped \<Rightarrow> (Skipped, w)
      | Finished r \<Rightarrow> (Finished r, w))"

text \<open>
  Two invocations and a schedule: \<open>True\<close> lets the first invocation run to its next
  suspension point, \<open>False\<close> the second.
\<close>

fun interleave ::
  "env \<Rightarrow> env \<Rightarrow> bool list \<Rightarrow> phase \<times> phase \<times> world \<Rightarrow> phase \<times> phase \<times> world" where
  "interleave e1 e2 [] s = s"
| "interleave e1 e2 (b # bs) (p1, p2, w) =
     (if b then (case download_step e1 p1 w of (p1', w') \<Rightarrow> interleave e1 e2 bs (p1', p2, w'))
      else (case download_step e2 p2 w of (p2', w') \<Rightarrow> interleave e1 e2 bs (p1, p2', w')))"


section \<open>Repository mutations\<close>

text \<open>\<open>x.toString()\<close> and \<open>`${x}`\<close> of a number or a string.\<close>

definition js_toString :: "val \<Rightarrow> string" where
  "js_toString v =
     (case v of
        VInt i \<Rightarrow> show_int i
      | VText s \<Rightarrow> s
      | VReal s \<Rightarrow> s
      | VBool b \<Rightarrow> (if b then ''true'' else ''false'')
      | VNull \<Rightarrow> ''null''
      | VNaN \<Rightarrow> ''NaN''
      | VUndefined \<Rightarrow> ''undefined'')"

definition flag :: "bool \<Rightarrow> val" where
  "flag b = VInt (if b then 1 else 0)"

text \<open>The common \<open>catch\<close> block: \<open>ROLLBACK\<close>, then the error is thrown again.\<close>

definition rollback_and_rethrow :: "exn \<Rightarrow> 'a action" where
  "rollback_and_rethrow e = and_then (atomic sql_rollback) (\<lambda>_. throw e)"

text \<open>\<open>createUser\<close> (\<open>src/utils/database/users.ts\<close>)\<close>

definition createUser :: "env \<Rightarrow> string \<Rightarrow> string \<Rightarrow> bool \<Rightarrow> bool \<Rightarrow> val action" where
  "createUser env username password isAdmin active =
     try_catch
       (and_then (atomic (sql_begin env)) (\<lambda>_.
        and_then (atomic (sql_insert env Abort Users
                    [(''username'', VText username), (''password'', VText password),
                     (''is_admin'', flag isAdmin), (''active'', flag active)])) (\<lambda>userId.
        and_then (atomic (sql_commit env)) (\<lambda>_.
        and_then (addToSyncQueue env ''users'' (js_toString userId) INSERT
                    [(''username'', VText username), (''password'', VText password),
                     (''is_admin'', VBool isAdmin), (''active'', VBool active),
                     (''created_at'', VText (iso_now env)),
                     (''updated_at'', VText (iso_now env))]) (\<lambda>_.
        ret userId)))))
       (\<lambda>e. and_then (atomic sql_rollback)
              (\<lambda>_. throw (AppError ''Failed to create user. Username might already exist.'')))"

text \<open>\<open>assignUserRole\<close> (\<open>src/utils/database/users.ts\<close>)\<close>

definition assignUserRole :: "env \<Rightarrow> int \<Rightarrow> int \<Rightarrow> unit action" where
  "assignUserRole env userId roleId =
     try_catch
       (and_then (atomic (sql_begin env)) (\<lambda>_.
        and_then (atomic (sql_insert env Abort UserRoles
                    [(''user_id'', VInt userId), (''role_id'', VInt roleId)])) (\<lambda>_.
        and_then (atomic (sql_commit env)) (\<lambda>_.
        addToSyncQueue env ''user_roles'' (show_int userId @ '','' @ show_int roleId) INSERT
          [(''user_id'', VInt userId), (''role_id'', VInt roleId),
           (''created_at'', VText (iso_now env)), (''updated_at'', VText (iso_now env))]))))
       rollback_and_rethrow"

text \<open>
  \<open>SELECT COUNT(*) as count FROM t WHERE user_id = ? AND deleted_at IS NULL\<close>
\<close>

definition count_references :: "env \<Rightarrow> table \<Rightarrow> int \<Rightarrow> nat action" where
  "count_references env t userId =
     and_then (atomic (sql_select env (''COUNT '' @ name_of t)))
       (\<lambda>_ w. (Inr (length (filter (\<lambda>r. sql_eq (col r ''user_id'') (VInt userId) \<and>
                                         col r ''deleted_at'' = VNull)
                                (tbl (cur w) t))), w))"

text \<open>\<open>deleteUser\<close> (\<open>src/utils/database/users.ts\<close>)\<close>

definition deleteUser :: "env \<Rightarrow> int \<Rightarrow> unit action" where
  "deleteUser env userId =
     try_catch
       (and_then (atomic (sql_begin env)) (\<lambda>_.
        and_then (count_references env Visits userId) (\<lambda>hasVisits.
        and_then (count_references env FormResponses userId) (\<lambda>hasFormResponses.
        if hasVisits > 0 \<or> hasFormResponses > 0
        then throw (AppError ''Cannot delete user with associated visits or form responses. Consider deactivating the user instead.'')
        else
        and_then (atomic (sql_delete_where env UserRoles ''user_id'' (VInt userId))) (\<lambda>_.
        and_then (atomic (sql_delete_where env UserCompanies ''user_id'' (VInt userId))) (\<lambda>_.
        and_then (atomic (sql_update_where env Users
                    [(''deleted_at'', VText (sql_now env)), (''active'', VInt 0)]
                    ''id'' (VInt userId))) (\<lambda>_.
        and_then (atomic (sql_commit env)) (\<lambda>_.
        addToSyncQueue env ''users'' (show_int userId) DELETE
          [(''deleted_at'', VText (iso_now env)), (''active'', VBool False)]))))))))
       rollback_and_rethrow"

text \<open>\<open>startVisit\<close> (\<open>src/utils/database/visits.ts\<close>)\<close>

definition startVisit ::
  "env \<Rightarrow> int \<Rightarrow> int \<Rightarrow> int \<Rightarrow> val \<Rightarrow> val \<Rightarrow> bool \<Rightarrow> val action" where
  "startVisit env userId companyId roleId latitude longitude noGpsSignal =
     try_catch
       (and_then (atomic (sql_begin env)) (\<lambda>_.
        and_then (atomic (sql_insert env Abort Visits
                    [(''user_id'', VInt userId), (''company_id'', VInt companyId),
                     (''role_id'', VInt roleId), (''start_time'', VText (sql_now env)),
                     (''latitude'', latitude), (''longitude'', longitude),
                     (''no_gps_signal'', flag noGpsSignal)])) (\<lambda>visitId.
        and_then (atomic (sql_commit env)) (\<lambda>_.
        and_then (addToSyncQueue env ''visits'' (js_toString visitId) INSERT
                    [(''user_id'', VInt userId), (''company_id'', VInt companyId),
                     (''role_id'', VInt roleId), (''start_time'', VText (iso_now env)),
                     (''latitude'', latitude), (''longitude'', longitude),
                     (''no_gps_signal'', VBool noGpsSignal),
                     (''created_at'', VText (iso_now env)),
                     (''updated_at'', VText (iso_now env))]) (\<lambda>_.
        ret visitId)))))
       rollback_and_rethrow"

text \<open>JavaScript truthiness (\<open>Boolean(x)\<close>, \<open>x ? a : b\<close>).\<close>

definition truthy :: "val \<Rightarrow> bool" where
  "truthy v =
     (case v of
        VNull \<Rightarrow> False
      | VInt i \<Rightarrow> i \<noteq> 0
      | VText s \<Rightarrow> s \<noteq> []
      | VBool b \<Rightarrow> b
      | VReal s \<Rightarrow> True
      | VNaN \<Rightarrow> False
      | VUndefined \<Rightarrow> False)"

text \<open>
  \<open>createForm\<close> (\<open>src/utils/forms.ts\<close>). A field is an object with the keys
  \<open>name\<close>, \<open>label\<close>, \<open>type\<close>, \<open>required\<close> and \<open>sort_order\<close>.
\<close>

definition insert_field :: "env \<Rightarrow> val \<Rightarrow> row \<Rightarrow> unit action" where
  "insert_field env formId field =
     and_then (atomic (sql_insert env Abort FormFields
                 [(''form_id'', formId), (''name'', col field ''name''),
                  (''label'', col field ''label''), (''type'', col field ''type''),
                  (''required'', flag (truthy (col field ''required''))),
                  (''sort_order'', col field ''sort_order'')]))
       (\<lambda>_. ret ())"

definition insert_form_company :: "env \<Rightarrow> val \<Rightarrow> int \<Rightarrow> unit action" where
  "insert_form_company env formId companyId =
     and_then (atomic (sql_insert env Abort FormCompanies
                 [(''form_id'', formId), (''company_id'', VInt companyId)]))
       (\<lambda>_. ret ())"

definition createForm :: "env \<Rightarrow> string \<Rightarrow> string \<Rightarrow> row list \<Rightarrow> int list \<Rightarrow> val action" where
  "createForm env name description formFields companyIds =
     try_catch
       (and_then (atomic (sql_begin env)) (\<lambda>_.
        and_then (atomic (sql_insert env Abort Forms
                    [(''name'', VText name), (''description'', VText description)])) (\<lambda>formId.
        and_then (for_each (insert_field env formId) formFields) (\<lambda>_.
        and_then (for_each (insert_form_company env formId) companyIds) (\<lambda>_.
        and_then (atomic (sql_commit env)) (\<lambda>_.
        and_then (if \<not> web env
                  then addToSyncQueue env ''forms'' (js_toString formId) INSERT
                         [(''name'', VText name), (''description'', VText description),
                          (''created_at'', VText (iso_now env)),
                          (''updated_at'', VText (iso_now env))]
                  else ret ()) (\<lambda>_.
        ret formId)))))))
       rollback_and_rethrow"


section \<open>Reads\<close>

subsection \<open>SQL and JavaScript helpers of the queries\<close>

text \<open>Text order of the engine (BINARY collation): byte by byte.\<close>

fun str_le :: "string \<Rightarrow> string \<Rightarrow> bool" where
  "str_le [] ys = True"
| "str_le (x # xs) [] = False"
| "str_le (x # xs) (y # ys) =
     ((of_char x :: nat) < of_char y \<or> (x = y \<and> str_le xs ys))"

text \<open>
  The order of \<open>ORDER BY\<close> and of the comparison operators: NULL first, then numbers,
  then text. The numeric order of non-integers is not modelled (they are placed after
  the integers, by their text); no query of the code orders or compares a REAL column.
\<close>

fun rank :: "val \<Rightarrow> nat" where
  "rank (VInt i) = 1"
| "rank (VBool b) = 1"
| "rank (VReal s) = 2"
| "rank (VText s) = 3"
| "rank v = 0"

fun num_of :: "val \<Rightarrow> int" where
  "num_of (VInt i) = i"
| "num_of (VBool b) = (if b then 1 else 0)"
| "num_of v = 0"

fun text_of :: "val \<Rightarrow> string" where
  "text_of (VInt i) = show_int i"
| "text_of (VText s) = s"
| "text_of (VReal s) = s"
| "text_of (VBool b) = (if b then ''1'' else ''0'')"
| "text_of v = []"

definition val_le :: "val \<Rightarrow> val \<Rightarrow> bool" where
  "val_le a b =
     (rank a < rank b \<or>
      (rank a = rank b \<and>
       (if rank a = 1 then num_of a \<le> num_of b
        else if rank a = 0 then True
        else str_le (text_of a) (text_of b))))"

definition sql_le :: "val \<Rightarrow> val \<Rightarrow> bool" where
  "sql_le a b = (a \<noteq> VNull \<and> b \<noteq> VNull \<and> val_le a b)"

text \<open>A stable sort by an order.\<close>

fun insert_by :: "('a \<Rightarrow> 'a \<Rightarrow> bool) \<Rightarrow> 'a \<Rightarrow> 'a list \<Rightarrow> 'a list" where
  "insert_by le x [] = [x]"
| "insert_by le x (y # ys) = (if le x y then x # y # ys else y # insert_by le x ys)"

definition sort_by :: "('a \<Rightarrow> 'a \<Rightarrow> bool) \<Rightarrow> 'a list \<Rightarrow> 'a list" where
  "sort_by le xs = foldr (insert_by le) xs []"

definition order_by :: "string \<Rightarrow> row list \<Rightarrow> row list" where
  "order_by c rs = sort_by (\<lambda>a b. val_le (col a c) (col b c)) rs"

text \<open>\<open>a || b || ...\<close>: NULL when an operand is NULL.\<close>

definition sql_concat :: "val list \<Rightarrow> val" where
  "sql_concat vs = (if VNull \<in> set vs then VNull else VText (concat (map text_of vs)))"

definition coalesce :: "val \<Rightarrow> val \<Rightarrow> val" where
  "coalesce a b = (if a = VNull then b else a)"

fun join_with :: "string \<Rightarrow> string list \<Rightarrow> string" where
  "join_with sep [] = []"
| "join_with sep [x] = x"
| "join_with sep (x # y # ys) = x @ sep @ join_with sep (y # ys)"

text \<open>
  \<open>GROUP_CONCAT(x)\<close> over the rows of a group: NULLs are skipped; NULL when none is left.
  The engine leaves the order of concatenation open; here it is the order of the rows.
\<close>

definition group_concat :: "val list \<Rightarrow> val" where
  "group_concat vs =
     (let ts = filter (\<lambda>v. v \<noteq> VNull) vs
      in if ts = [] then VNull else VText (join_with '','' (map text_of ts)))"

text \<open>\<open>DISTINCT\<close> inside an aggregate: each value once, first occurrences kept.\<close>

definition distinct_first :: "'a list \<Rightarrow> 'a list" where
  "distinct_first xs = rev (remdups (rev xs))"

text \<open>
  \<open>LEFT JOIN t ON p\<close> for one row of the left side: the matching rows, or one row of
  NULLs (the empty row: every column of it reads as NULL).
\<close>

definition left_join :: "(row \<Rightarrow> bool) \<Rightarrow> row list \<Rightarrow> row list" where
  "left_join p rs = (let m = filter p rs in if m = [] then [[]] else m)"

text \<open>\<open>parts[i]\<close> and \<open>parseInt(parts[i], 10)\<close>; an index out of range gives \<open>undefined\<close>.\<close>

definition str_at :: "string list \<Rightarrow> nat \<Rightarrow> val" where
  "str_at parts i = (if i < length parts then VText (parts ! i) else VUndefined)"

definition int_at :: "string list \<Rightarrow> nat \<Rightarrow> val" where
  "int_at parts i = (if i < length parts then jsnum_of (parseInt (parts ! i)) else VNaN)"

text \<open>
  \<open>csv ? csv.split(',').reduce((acc, curr, i) => { if (i % n === 0) acc.push(obj(i)) ... }, [])
  : []\<close>: one object for every \<open>n\<close>-th part.
\<close>

definition decode_stride :: "nat \<Rightarrow> (string list \<Rightarrow> nat \<Rightarrow> row) \<Rightarrow> val \<Rightarrow> row list" where
  "decode_stride n obj csv =
     (if truthy csv
      then (let parts = split_on CHR '','' (text_of csv)
            in map (obj parts) (filter (\<lambda>i. i mod n = 0) [0..<length parts]))
      else [])"

definition live_rows :: "store \<Rightarrow> table \<Rightarrow> row list" where
  "live_rows s t = filter (\<lambda>r. col r ''deleted_at'' = VNull) (tbl s t)"


subsection \<open>Roles and companies (\<open>roles.ts\<close>, \<open>companies.ts\<close>)\<close>

text \<open>\<open>SELECT * FROM roles WHERE deleted_at IS NULL ORDER BY name\<close>\<close>

definition getRoles :: "env \<Rightarrow> world \<Rightarrow> exn + row list" where
  "getRoles env w =
     (case rejected env (Select ''getRoles'') w of
        Some e \<Rightarrow> Inl e
      | None \<Rightarrow> Inr (order_by ''name'' (live_rows (cur w) Roles)))"

text \<open>\<open>SELECT * FROM companies WHERE deleted_at IS NULL ORDER BY name\<close>\<close>

definition getCompanies :: "env \<Rightarrow> world \<Rightarrow> exn + row list" where
  "getCompanies env w =
     (case rejected env (Select ''getCompanies'') w of
        Some e \<Rightarrow> Inl e
      | None \<Rightarrow> Inr (order_by ''name'' (live_rows (cur w) Companies)))"


subsection \<open>Users (\<open>users.ts\<close>)\<close>

text \<open>
  The joined rows of one user in the query of \<open>getUsers\<close> and \<open>getUser\<close>: the role and
  the company of each. \<open>users.id\<close> is the primary key, so a group of \<open>GROUP BY u.id\<close> is
  the joined rows of one user row.
\<close>

definition user_joins :: "store \<Rightarrow> row \<Rightarrow> (row \<times> row) list" where
  "user_joins s u =
     [(r, c).
        ur \<leftarrow> left_join (\<lambda>ur. sql_eq (col u ''id'') (col ur ''user_id'')) (tbl s UserRoles),
        r \<leftarrow> left_join (\<lambda>r. sql_eq (col ur ''role_id'') (col r ''id'')) (tbl s Roles),
        uc \<leftarrow> left_join (\<lambda>uc. sql_eq (col u ''id'') (col uc ''user_id'')) (tbl s UserCompanies),
        c \<leftarrow> left_join (\<lambda>c. sql_eq (col uc ''company_id'') (col c ''id'')) (tbl s Companies)]"

text \<open>\<open>GROUP_CONCAT(DISTINCT r.id || ',' || r.name) as roles\<close>\<close>

definition roles_csv :: "store \<Rightarrow> row \<Rightarrow> val" where
  "roles_csv s u =
     group_concat (distinct_first
       (map (\<lambda>(r, c). sql_concat [col r ''id'', VText '','', col r ''name'']) (user_joins s u)))"

text \<open>
  \<open>GROUP_CONCAT(DISTINCT c.id || ',' || c.name || ',' || COALESCE(c.description, ''))
  as companies\<close>
\<close>

definition companies_csv :: "store \<Rightarrow> row \<Rightarrow> val" where
  "companies_csv s u =
     group_concat (distinct_first
       (map (\<lambda>(r, c). sql_concat [col c ''id'', VText '','', col c ''name'', VText '','',
                                   coalesce (col c ''description'') (VText [])])
            (user_joins s u)))"

record user_obj =
  u_id :: val
  u_username :: val
  u_password :: val
  u_isAdmin :: bool
  u_active :: bool
  u_roles :: "row list"
  u_companies :: "row list"

definition decode_roles :: "val \<Rightarrow> row list" where
  "decode_roles csv =
     decode_stride 2 (\<lambda>parts i. [(''id'', int_at parts i), (''name'', str_at parts (i + 1))]) csv"

definition decode_companies :: "val \<Rightarrow> row list" where
  "decode_companies csv =
     decode_stride 3 (\<lambda>parts i. [(''id'', int_at parts i), (''name'', str_at parts (i + 1)),
                                  (''description'', str_at parts (i + 2))]) csv"

text \<open>The object built from one result row.\<close>

definition user_of :: "store \<Rightarrow> row \<Rightarrow> user_obj" where
  "user_of s u =
     \<lparr>u_id = col u ''id'', u_username = col u ''username'', u_password = col u ''password'',
      u_isAdmin = truthy (col u ''is_admin''), u_active = truthy (col u ''active''),
      u_roles = decode_roles (roles_csv s u), u_companies = decode_companies (companies_csv s u)\<rparr>"

text \<open>\<open>getUsers\<close>: \<open>... WHERE u.deleted_at IS NULL GROUP BY u.id ORDER BY u.username\<close>\<close>

definition getUsers :: "env \<Rightarrow> world \<Rightarrow> exn + user_obj list" where
  "getUsers env w =
     (case rejected env (Select ''getUsers'') w of
        Some e \<Rightarrow> Inl e
      | None \<Rightarrow> Inr (map (user_of (cur w)) (order_by ''username'' (live_rows (cur w) Users))))"

text \<open>
  The rows of the query of \<open>getUser\<close>:
  \<open>... WHERE u.username = ? AND u.password = ? AND u.deleted_at IS NULL GROUP BY u.id\<close>
\<close>

definition login_rows :: "store \<Rightarrow> string \<Rightarrow> string \<Rightarrow> row list" where
  "login_rows s username password =
     filter (\<lambda>u. sql_eq (col u ''username'') (VText username) \<and>
                 sql_eq (col u ''password'') (VText password))
       (live_rows s Users)"

text \<open>
  \<open>getUser\<close>: \<open>null\<close> (here \<open>None\<close>) when no row matches and when anything throws; for an
  administrator the roles and companies are those of \<open>getRoles\<close> and \<open>getCompanies\<close>.
\<close>

definition getUser :: "env \<Rightarrow> string \<Rightarrow> string \<Rightarrow> world \<Rightarrow> user_obj option" where
  "getUser env username password w =
     (case rejected env (Select ''getUser'') w of
        Some e \<Rightarrow> None
      | None \<Rightarrow>
          (case login_rows (cur w) username password of
             [] \<Rightarrow> None
           | user # others \<Rightarrow>
               if truthy (col user ''is_admin'') then
                 (case getRoles env w of
                    Inl e \<Rightarrow> None
                  | Inr allRoles \<Rightarrow>
                      (case getCompanies env w of
                         Inl e \<Rightarrow> None
                       | Inr allCompanies \<Rightarrow>
                           Some \<lparr>u_id = col user ''id'', u_username = col user ''username'',
                                 u_password = col user ''password'', u_isAdmin = True,
                                 u_active = truthy (col user ''active''),
                                 u_roles = allRoles, u_companies = allCompanies\<rparr>))
               else Some (user_of (cur w) user)))"


subsection \<open>Forms (\<open>src/utils/forms.ts\<close> and the forms module of \<open>src/utils/database\<close>)\<close>

record form_obj =
  f_id :: val
  f_name :: val
  f_description :: val
  f_created_at :: val
  f_updated_at :: val
  f_fields :: "row list"

text \<open>
  \<open>ff.id || ',' || ff.name || ',' || ff.label || ',' || ff.type || ',' || ff.required
  || ',' || ff.sort_order\<close>
\<close>

definition field_csv :: "row \<Rightarrow> val" where
  "field_csv ff =
     sql_concat [col ff ''id'', VText '','', col ff ''name'', VText '','', col ff ''label'',
                 VText '','', col ff ''type'', VText '','', col ff ''required'', VText '','',
                 col ff ''sort_order'']"

definition decode_fields :: "val \<Rightarrow> val \<Rightarrow> row list" where
  "decode_fields form_id csv =
     decode_stride 6
       (\<lambda>parts i. [(''id'', int_at parts i), (''form_id'', form_id),
                    (''name'', str_at parts (i + 1)), (''label'', str_at parts (i + 2)),
                    (''type'', str_at parts (i + 3)),
                    (''required'', VBool (str_at parts (i + 4) = VText ''1'')),
                    (''sort_order'', int_at parts (i + 5))]) csv"

definition form_of :: "row \<Rightarrow> row list \<Rightarrow> form_obj" where
  "form_of f ffs =
     \<lparr>f_id = col f ''id'', f_name = col f ''name'', f_description = col f ''description'',
      f_created_at = col f ''created_at'', f_updated_at = col f ''updated_at'',
      f_fields = decode_fields (col f ''id'') (group_concat (map field_csv ffs))\<rparr>"

text \<open>\<open>if (x)\<close> on a \<open>number | null\<close> parameter.\<close>

definition given :: "int option \<Rightarrow> bool" where
  "given x = (case x of None \<Rightarrow> False | Some n \<Rightarrow> n \<noteq> 0)"

text \<open>
  The form fields of the joined rows of one form in \<open>getForms\<close> of \<open>forms.ts\<close>: with a
  user, one row for each field, form company and user company that match.
\<close>

definition form_joins :: "store \<Rightarrow> int option \<Rightarrow> row \<Rightarrow> row list" where
  "form_joins s userId f =
     (let ffs = left_join (\<lambda>ff. sql_eq (col f ''id'') (col ff ''form_id'')) (tbl s FormFields)
      in if given userId then
           [ff. ff \<leftarrow> ffs,
                fc \<leftarrow> filter (\<lambda>fc. sql_eq (col f ''id'') (col fc ''form_id'')) (tbl s FormCompanies),
                uc \<leftarrow> filter (\<lambda>uc. sql_eq (col fc ''company_id'') (col uc ''company_id'') \<and>
                                   sql_eq (col uc ''user_id'') (VInt (the userId)))
                        (tbl s UserCompanies)]
         else ffs)"

text \<open>\<open>getForms\<close> of \<open>src/utils/forms.ts\<close>: \<open>... f.deleted_at IS NULL GROUP BY f.id ORDER BY f.name\<close>\<close>

definition getForms :: "env \<Rightarrow> int option \<Rightarrow> world \<Rightarrow> exn + form_obj list" where
  "getForms env userId w =
     (case rejected env (Select ''getForms'') w of
        Some e \<Rightarrow> Inl e
      | None \<Rightarrow>
          Inr (map (\<lambda>f. form_of f (form_joins (cur w) userId f))
                 (order_by ''name''
                    (filter (\<lambda>f. form_joins (cur w) userId f \<noteq> []) (live_rows (cur w) Forms)))))"

text \<open>\<open>getFormById\<close> of \<open>src/utils/forms.ts\<close>: \<open>forms.find(f => f.id === formId) || null\<close>\<close>

definition getFormById :: "env \<Rightarrow> int \<Rightarrow> world \<Rightarrow> exn + form_obj option" where
  "getFormById env formId w =
     (case getForms env None w of
        Inl e \<Rightarrow> Inl e
      | Inr forms \<Rightarrow> Inr (find (\<lambda>f. f_id f = VInt formId) forms))"

text \<open>
  The forms module of \<open>src/utils/database\<close>: \<open>getForms(userId, companyId)\<close> always joins
  \<open>form_companies\<close>, filtered by the company, or else by the companies of the user.
\<close>

definition db_form_joins :: "store \<Rightarrow> int option \<Rightarrow> int option \<Rightarrow> row \<Rightarrow> row list" where
  "db_form_joins s userId companyId f =
     [ff. ff \<leftarrow> left_join (\<lambda>ff. sql_eq (col f ''id'') (col ff ''form_id'')) (tbl s FormFields),
          fc \<leftarrow> filter (\<lambda>fc. sql_eq (col f ''id'') (col fc ''form_id'') \<and>
                             (if given companyId
                              then sql_eq (col fc ''company_id'') (VInt (the companyId))
                              else if given userId
                              then list_ex (\<lambda>uc. sql_eq (col uc ''user_id'') (VInt (the userId)) \<and>
                                                 sql_eq (col fc ''company_id'') (col uc ''company_id''))
                                     (tbl s UserCompanies)
                              else True))
                  (tbl s FormCompanies)]"

definition db_getForms :: "env \<Rightarrow> int option \<Rightarrow> int option \<Rightarrow> world \<Rightarrow> exn + form_obj list" where
  "db_getForms env userId companyId w =
     (case rejected env (Select ''getForms'') w of
        Some e \<Rightarrow> Inl e
      | None \<Rightarrow>
          Inr (map (\<lambda>f. form_of f (db_form_joins (cur w) userId companyId f))
                 (order_by ''name''
                    (filter (\<lambda>f. db_form_joins (cur w) userId companyId f \<noteq> [])
                       (live_rows (cur w) Forms)))))"

text \<open>
  \<open>getFormById\<close> of the same module:
  \<open>... WHERE f.id = ? AND f.deleted_at IS NULL GROUP BY f.id\<close>, then \<open>results[0]\<close>.
\<close>

definition db_getFormById :: "env \<Rightarrow> int \<Rightarrow> world \<Rightarrow> exn + form_obj option" where
  "db_getFormById env formId w =
     (case rejected env (Select ''getFormById'') w of
        Some e \<Rightarrow> Inl e
      | None \<Rightarrow>
          (case filter (\<lambda>f. sql_eq (col f ''id'') (VInt formId)) (live_rows (cur w) Forms) of
             [] \<Rightarrow> Inr None
           | f # others \<Rightarrow>
               Inr (Some (form_of f
                      (left_join (\<lambda>ff. sql_eq (col f ''id'') (col ff ''form_id''))
                         (tbl (cur w) FormFields))))))"


subsection \<open>Form responses\<close>

record response_obj =
  r_id :: val
  r_form_id :: val
  r_formName :: val
  r_visit_id :: val
  r_user_id :: val
  r_username :: val
  r_created_at :: val
  r_updated_at :: val
  r_responses :: "row list"

text \<open>An optional filter \<open>AND fr.c = ?\<close> of the queries.\<close>

definition opt_filter :: "int option \<Rightarrow> val \<Rightarrow> bool" where
  "opt_filter x v = (if given x then sql_eq v (VInt (the x)) else True)"

text \<open>
  The joined rows of one form response in \<open>getFormResponses\<close> of \<open>forms.ts\<close> (all inner
  joins): the form, the user, the field response and its field.
\<close>

definition response_joins :: "store \<Rightarrow> row \<Rightarrow> (row \<times> row \<times> row \<times> row) list" where
  "response_joins s fr =
     [(f, u, ffr, ff).
        f \<leftarrow> filter (\<lambda>f. sql_eq (col fr ''form_id'') (col f ''id'')) (tbl s Forms),
        u \<leftarrow> filter (\<lambda>u. sql_eq (col fr ''user_id'') (col u ''id'')) (tbl s Users),
        ffr \<leftarrow> filter (\<lambda>ffr. sql_eq (col fr ''id'') (col ffr ''form_response_id''))
                 (tbl s FormFieldResponses),
        ff \<leftarrow> filter (\<lambda>ff. sql_eq (col ffr ''field_id'') (col ff ''id'')) (tbl s FormFields)]"

definition decode_responses :: "val \<Rightarrow> row list" where
  "decode_responses csv =
     decode_stride 3
       (\<lambda>parts i. [(''field_id'', int_at parts i), (''fieldLabel'', str_at parts (i + 1)),
                    (''value'', str_at parts (i + 2))]) csv"

definition response_of :: "row \<Rightarrow> (row \<times> row \<times> row \<times> row) list \<Rightarrow> response_obj" where
  "response_of fr js =
     (case hd js of
        (f, u, ffr, ff) \<Rightarrow>
          \<lparr>r_id = col fr ''id'', r_form_id = col fr ''form_id'', r_formName = col f ''name'',
           r_visit_id = col fr ''visit_id'', r_user_id = col fr ''user_id'',
           r_username = col u ''username'', r_created_at = col fr ''created_at'',
           r_updated_at = col fr ''updated_at'',
           r_responses = decode_responses
             (group_concat (map (\<lambda>(f, u, ffr, ff).
                sql_concat [col ffr ''field_id'', VText '','', col ff ''label'', VText '','',
                            col ffr ''value'']) js))\<rparr>)"

definition order_by_desc :: "string \<Rightarrow> row list \<Rightarrow> row list" where
  "order_by_desc c rs = sort_by (\<lambda>a b. val_le (col b c) (col a c)) rs"

text \<open>
  \<open>getFormResponses\<close> of \<open>src/utils/forms.ts\<close>:
  \<open>... WHERE fr.deleted_at IS NULL [AND ...] GROUP BY fr.id ORDER BY fr.created_at DESC\<close>.
  A response without a joined row has no group (and \<open>hd\<close> is not used on it).
\<close>

definition getFormResponses ::
  "env \<Rightarrow> int option \<Rightarrow> int option \<Rightarrow> int option \<Rightarrow> world \<Rightarrow> exn + response_obj list" where
  "getFormResponses env form_id visit_id user_id w =
     (case rejected env (Select ''getFormResponses'') w of
        Some e \<Rightarrow> Inl e
      | None \<Rightarrow>
          Inr (map (\<lambda>fr. response_of fr (response_joins (cur w) fr))
                 (order_by_desc ''created_at''
                    (filter (\<lambda>fr. opt_filter form_id (col fr ''form_id'') \<and>
                                  opt_filter visit_id (col fr ''visit_id'') \<and>
                                  opt_filter user_id (col fr ''user_id'') \<and>
                                  response_joins (cur w) fr \<noteq> [])
                       (live_rows (cur w) FormResponses)))))"

record db_response_obj =
  dr_id :: val
  dr_formName :: val
  dr_username :: val
  dr_created_at :: val
  dr_responses :: "row list"

text \<open>
  The joined rows of one form response in the forms module of \<open>src/utils/database\<close>:
  inner joins to the form and the user, left joins to the field responses and fields.
\<close>

definition db_response_joins :: "store \<Rightarrow> row \<Rightarrow> (row \<times> row \<times> row \<times> row) list" where
  "db_response_joins s fr =
     [(f, u, ffr, ff).
        f \<leftarrow> filter (\<lambda>f. sql_eq (col fr ''form_id'') (col f ''id'')) (tbl s Forms),
        u \<leftarrow> filter (\<lambda>u. sql_eq (col fr ''user_id'') (col u ''id'')) (tbl s Users),
        ffr \<leftarrow> left_join (\<lambda>ffr. sql_eq (col fr ''id'') (col ffr ''form_response_id''))
                 (tbl s FormFieldResponses),
        ff \<leftarrow> left_join (\<lambda>ff. sql_eq (col ffr ''field_id'') (col ff ''id'')) (tbl s FormFields)]"

text \<open>
  \<open>GROUP_CONCAT(json_object('fieldLabel', ff.label, 'value', ffr.value))\<close> read back with
  \<open>JSON.parse(`[${row.responses}]`)\<close>: one object for each joined row.
\<close>

definition db_response_of :: "row \<Rightarrow> (row \<times> row \<times> row \<times> row) list \<Rightarrow> db_response_obj" where
  "db_response_of fr js =
     (case hd js of
        (f, u, ffr, ff) \<Rightarrow>
          \<lparr>dr_id = col fr ''id'', dr_formName = col f ''name'', dr_username = col u ''username'',
           dr_created_at = col fr ''created_at'',
           dr_responses = map (\<lambda>(f, u, ffr, ff). [(''fieldLabel'', col ff ''label''),
                                                   (''value'', col ffr ''value'')]) js\<rparr>)"

text \<open>
  \<open>getFormResponses\<close> of the forms module of \<open>src/utils/database\<close>: with a visit id, the
  visit must exist and not be soft-deleted, else the result is empty.
\<close>

definition db_getFormResponses ::
  "env \<Rightarrow> int option \<Rightarrow> int option \<Rightarrow> int option \<Rightarrow> world \<Rightarrow> exn + db_response_obj list" where
  "db_getFormResponses env formId visitId userId w =
     (case (if given visitId then rejected env (Select ''visitExists'') w else None) of
        Some e \<Rightarrow> Inl e
      | None \<Rightarrow>
          if given visitId \<and>
             filter (\<lambda>v. sql_eq (col v ''id'') (VInt (the visitId))) (live_rows (cur w) Visits) = []
          then Inr []
          else
            (case rejected env (Select ''getFormResponses'') w of
               Some e \<Rightarrow> Inl e
             | None \<Rightarrow>
                 Inr (map (\<lambda>fr. db_response_of fr (db_response_joins (cur w) fr))
                        (order_by_desc ''created_at''
                           (filter (\<lambda>fr. opt_filter formId (col fr ''form_id'') \<and>
                                         opt_filter visitId (col fr ''visit_id'') \<and>
                                         opt_filter userId (col fr ''user_id'') \<and>
                                         db_response_joins (cur w) fr \<noteq> [])
                              (live_rows (cur w) FormResponses))))))"


subsection \<open>Visits (\<open>visits.ts\<close>)\<close>

text \<open>
  \<open>getActiveVisit\<close>: \<open>SELECT v.*, c.name as company_name FROM visits v LEFT JOIN companies c
  ON v.company_id = c.id WHERE v.user_id = ? AND v.end_time IS NULL AND v.deleted_at IS NULL\<close>,
  then \<open>result[0] || null\<close>.
\<close>

definition active_visits :: "store \<Rightarrow> int \<Rightarrow> row list" where
  "active_visits s userId =
     [v @ [(''company_name'', col c ''name'')].
        v \<leftarrow> filter (\<lambda>v. sql_eq (col v ''user_id'') (VInt userId) \<and> col v ''end_time'' = VNull)
               (live_rows s Visits),
        c \<leftarrow> left_join (\<lambda>c. sql_eq (col v ''company_id'') (col c ''id'')) (tbl s Companies)]"

definition getActiveVisit :: "env \<Rightarrow> int \<Rightarrow> world \<Rightarrow> exn + row option" where
  "getActiveVisit env userId w =
     (case rejected env (Select ''getActiveVisit'') w of
        Some e \<Rightarrow> Inl e
      | None \<Rightarrow>
          (case active_visits (cur w) userId of
             [] \<Rightarrow> Inr None
           | v # others \<Rightarrow> Inr (Some v)))"

text \<open>
  The rows of the \<open>VisitDetails\<close> common table expression of \<open>getVisitReports\<close>: finished
  visits that are not soft-deleted, started in the date range, of the company and the
  user if given, each joined to its user and its company.
\<close>

definition visit_details ::
  "env \<Rightarrow> store \<Rightarrow> int option \<Rightarrow> string \<Rightarrow> string \<Rightarrow> int option \<Rightarrow> row list" where
  "visit_details env s companyId startDate endDate userId =
     [[(''visit_id'', col v ''id''), (''user_id'', col v ''user_id''),
       (''username'', col u ''username''), (''company_id'', col v ''company_id''),
       (''company_name'', col c ''name''), (''start_time'', col v ''start_time''),
       (''end_time'', col v ''end_time''),
       (''duration'', julian_seconds env (col v ''end_time'') (col v ''start_time'')),
       (''start_latitude'', col v ''latitude''), (''start_longitude'', col v ''longitude''),
       (''no_gps_signal_start'', col v ''no_gps_signal''),
       (''end_latitude'', col v ''end_latitude''), (''end_longitude'', col v ''end_longitude''),
       (''no_gps_signal_end'', col v ''no_gps_signal_end'')].
        v \<leftarrow> filter (\<lambda>v. sql_le (VText startDate) (col v ''start_time'') \<and>
                         sql_le (col v ''start_time'') (VText endDate) \<and>
                         opt_filter companyId (col v ''company_id'') \<and>
                         opt_filter userId (col v ''user_id'') \<and>
                         col v ''end_time'' \<noteq> VNull)
               (live_rows s Visits),
        u \<leftarrow> filter (\<lambda>u. sql_eq (col v ''user_id'') (col u ''id'')) (tbl s Users),
        c \<leftarrow> filter (\<lambda>c. sql_eq (col v ''company_id'') (col c ''id'')) (tbl s Companies)]"

text \<open>The groups of \<open>GROUP BY\<close>, in the order their keys first occur.\<close>

fun group_by :: "('a \<Rightarrow> 'k) \<Rightarrow> 'a list \<Rightarrow> 'a list list" where
  "group_by k [] = []"
| "group_by k (x # xs) =
     (x # filter (\<lambda>y. k y = k x) xs) # group_by k (filter (\<lambda>y. k y \<noteq> k x) xs)"

text \<open>\<open>SUM(x)\<close> over integers: NULL when no row has a value.\<close>

definition sql_sum :: "val list \<Rightarrow> val" where
  "sql_sum vs =
     (let ns = filter (\<lambda>v. v \<noteq> VNull) vs
      in if ns = [] then VNull else VInt (sum_list (map num_of ns)))"

definition detail_csv :: "row \<Rightarrow> val" where
  "detail_csv d =
     sql_concat [col d ''visit_id'', VText '','', col d ''start_time'', VText '','',
                 col d ''end_time'', VText '','', col d ''duration'', VText '','',
                 coalesce (col d ''start_latitude'') (VText ''null''), VText '','',
                 coalesce (col d ''start_longitude'') (VText ''null''), VText '','',
                 col d ''no_gps_signal_start'', VText '','',
                 coalesce (col d ''end_latitude'') (VText ''null''), VText '','',
                 coalesce (col d ''end_longitude'') (VText ''null''), VText '','',
                 col d ''no_gps_signal_end'']"

text \<open>\<open>parseInt(x, 10) || 0\<close>\<close>

definition or_zero :: "val \<Rightarrow> val" where
  "or_zero v = (if truthy v then v else VInt 0)"

text \<open>\<open>parts[i] === 'null' ? null : parseFloat(parts[i])\<close>\<close>

definition float_at :: "env \<Rightarrow> string list \<Rightarrow> nat \<Rightarrow> val" where
  "float_at env parts i =
     (if i < length parts
      then (if parts ! i = ''null'' then VNull else parseFloat env (parts ! i))
      else VNaN)"

record report_obj =
  rp_user_id :: val
  rp_username :: val
  rp_company_id :: val
  rp_company_name :: val
  rp_total_duration :: val
  rp_visits :: "row list"

definition decode_visits :: "env \<Rightarrow> string \<Rightarrow> row list" where
  "decode_visits env details =
     (let parts = split_on CHR '','' details
      in map (\<lambda>i. [(''id'', int_at parts i), (''start_time'', str_at parts (i + 1)),
                    (''end_time'', str_at parts (i + 2)),
                    (''duration'', or_zero (int_at parts (i + 3))),
                    (''start_latitude'', float_at env parts (i + 4)),
                    (''start_longitude'', float_at env parts (i + 5)),
                    (''no_gps_signal_start'', VBool (str_at parts (i + 6) = VText ''1'')),
                    (''end_latitude'', float_at env parts (i + 7)),
                    (''end_longitude'', float_at env parts (i + 8)),
                    (''no_gps_signal_end'', VBool (str_at parts (i + 9) = VText ''1''))])
           (filter (\<lambda>i. i mod 10 = 0) [0..<length parts]))"

text \<open>
  One report from one group. \<open>row.visit_details.split(',')\<close> throws a TypeError when the
  aggregate is NULL.
\<close>

definition report_of :: "env \<Rightarrow> row list \<Rightarrow> exn + report_obj" where
  "report_of env g =
     (case group_concat (map detail_csv g) of
        VText details \<Rightarrow>
          Inr \<lparr>rp_user_id = col (hd g) ''user_id'', rp_username = col (hd g) ''username'',
               rp_company_id = col (hd g) ''company_id'',
               rp_company_name = col (hd g) ''company_name'',
               rp_total_duration =
                 or_zero (case sql_sum (map (\<lambda>d. col d ''duration'') g) of
                            VInt n \<Rightarrow> VInt n | v \<Rightarrow> VNaN),
               rp_visits = decode_visits env details\<rparr>
      | v \<Rightarrow> Inl (AppError ''TypeError: Cannot read properties of null (reading split)''))"

fun collect :: "(exn + 'a) list \<Rightarrow> exn + 'a list" where
  "collect [] = Inr []"
| "collect (Inl e # xs) = Inl e"
| "collect (Inr x # xs) = (case collect xs of Inl e \<Rightarrow> Inl e | Inr ys \<Rightarrow> Inr (x # ys))"

text \<open>
  \<open>getVisitReports\<close>: the rows of the common table expression grouped by user and
  company, ordered by user name and company name, one report for each group.
\<close>

definition getVisitReports ::
  "env \<Rightarrow> int option \<Rightarrow> string \<Rightarrow> string \<Rightarrow> int option \<Rightarrow> world \<Rightarrow> exn + report_obj list" where
  "getVisitReports env companyId startDate endDate userId w =
     (case rejected env (Select ''getVisitReports'') w of
        Some e \<Rightarrow> Inl e
      | None \<Rightarrow>
          collect (map (report_of env)
            (sort_by (\<lambda>a b. val_le (col (hd a) ''username'') (col (hd b) ''username'') \<and>
                             (col (hd a) ''username'' \<noteq> col (hd b) ''username'' \<or>
                              val_le (col (hd a) ''company_name'') (col (hd b) ''company_name'')))
               (group_by (\<lambda>d. (col d ''user_id'', col d ''company_id''))
                  (visit_details env (cur w) companyId startDate endDate userId)))))"

text \<open>
  \<open>v\<close> is the id of a row of table \<open>t\<close> that is not soft-deleted.
\<close>

definition live_id :: "store \<Rightarrow> table \<Rightarrow> val \<Rightarrow> bool" where
  "live_id s t v = list_ex (\<lambda>r. col r ''id'' = v) (live_rows s t)"


section \<open>Example data and the predicates of the statements\<close>

text \<open>
  A device that is online with a remote backend that accepts every request, and an
  outbox of five rows: three pending rows entered out of creation order, and two rows
  that have used up their retries, one recent and one older than seven days.
\<close>

definition ex_env :: env where
  "ex_env = \<lparr>web = False, online = True, clock = 1000000,
      sql_now = ''2026-01-12 13:46:40'', iso_now = ''2026-01-12T13:46:40.000Z'',
      fault = (\<lambda>_ _. None), remote_write = (\<lambda>_. None), remote_rows = (\<lambda>_. Inr []),
      julian_seconds = (\<lambda>_ _. VNull), parseFloat = (\<lambda>_. VNaN)\<rparr>"

definition ex_row :: "int \<Rightarrow> string \<Rightarrow> string \<Rightarrow> operation \<Rightarrow> bool \<Rightarrow> int \<Rightarrow> int \<Rightarrow> queue_row" where
  "ex_row i t rid opn s n c =
     \<lparr>qid = i, table_name = t, record_id = rid, operation = opn, data = [], synced = s,
      retry_count = n, error = None, created_at = c\<rparr>"

definition ex_world :: "queue_row list \<Rightarrow> world" where
  "ex_world q =
     \<lparr>cur = \<lparr>tbl = (\<lambda>_. []), seq = (\<lambda>_. 0), sync_queue = q, queue_seq = int (length q)\<rparr>,
      txn = None, syncInProgress = False, globalTransaction = False, syncTimeout = False,
      storage = (\<lambda>_. None)\<rparr>"

definition ex_queue :: "queue_row list" where
  "ex_queue =
     [ex_row 1 ''visits'' ''7'' UPDATE False 0 999930,
      ex_row 2 ''visits'' ''7'' INSERT False 0 999910,
      ex_row 3 ''users'' ''4'' DELETE False 3 999915,
      ex_row 4 ''visits'' ''7'' UPDATE False 0 999920,
      ex_row 5 ''users'' ''9'' DELETE False 3 300000]"

definition ex_old :: queue_row where
  "ex_old = ex_row 5 ''users'' ''9'' DELETE False 3 300000"

definition ex_recent :: queue_row where
  "ex_recent = ex_row 3 ''users'' ''4'' DELETE False 3 999915"


text \<open>
  Two states that differ at most in the rows of the tables and their id counters: the
  transaction, the module flags, the timer, the key-value storage and the outbox are the
  same.
\<close>

definition same_but_tables :: "world \<Rightarrow> world \<Rightarrow> bool" where
  "same_but_tables w w' =
     (txn w' = txn w \<and> syncInProgress w' = syncInProgress w \<and>
      globalTransaction w' = globalTransaction w \<and> syncTimeout w' = syncTimeout w \<and>
      storage w' = storage w \<and> sync_queue (cur w') = sync_queue (cur w) \<and>
      queue_seq (cur w') = queue_seq (cur w))"

text \<open>
  An action that changes nothing but the rows of the tables and their id counters.
\<close>

definition tables_only :: "'a action \<Rightarrow> bool" where
  "tables_only m = (\<forall>w r w'. m w = (r, w') \<longrightarrow> same_but_tables w w')"

text \<open>
  The shape the repository mutations share: \<open>BEGIN\<close>, the local writes, \<open>COMMIT\<close>, then
  the outbox entry, all inside one \<open>try\<close> whose \<open>catch\<close> rolls back and throws.
\<close>

definition mutation ::
  "env \<Rightarrow> 'a action \<Rightarrow> ('a \<Rightarrow> unit action) \<Rightarrow> (exn \<Rightarrow> exn) \<Rightarrow> 'a action" where
  "mutation env body enq g =
     try_catch
       (and_then (atomic (sql_begin env)) (\<lambda>_.
        and_then body (\<lambda>x.
        and_then (atomic (sql_commit env)) (\<lambda>_.
        and_then (enq x) (\<lambda>_.
        ret x)))))
       (\<lambda>e. and_then (atomic sql_rollback) (\<lambda>_. throw (g e)))"

text \<open>
  The local writes of \<open>createForm\<close>: the form, its fields, its companies.
\<close>

definition form_rows :: "env \<Rightarrow> string \<Rightarrow> string \<Rightarrow> row list \<Rightarrow> int list \<Rightarrow> val action" where
  "form_rows env name description formFields companyIds =
     and_then (atomic (sql_insert env Abort Forms
                    [(''name'', VText name), (''description'', VText description)])) (\<lambda>formId.
     and_then (for_each (insert_field env formId) formFields) (\<lambda>_.
     and_then (for_each (insert_form_company env formId) companyIds) (\<lambda>_.
     ret formId)))"

text \<open>
  Table \<open>t\<close> of the later state is table \<open>t\<close> of the earlier one with one more row,
  whose id is \<open>v\<close>.
\<close>

definition row_added :: "world \<Rightarrow> world \<Rightarrow> table \<Rightarrow> val \<Rightarrow> bool" where
  "row_added w w' t v = (\<exists>r. tbl (cur w') t = tbl (cur w) t @ [r] \<and> col r ''id'' = v)"

text \<open>
  The outbox of the later state is the outbox of the earlier one with one more entry: a
  pending INSERT for record \<open>v\<close> of table \<open>t\<close>.
\<close>

definition enqueued_for :: "world \<Rightarrow> world \<Rightarrow> string \<Rightarrow> val \<Rightarrow> bool" where
  "enqueued_for w w' t v =
     (\<exists>q. sync_queue (cur w') = sync_queue (cur w) @ [q] \<and> table_name q = t \<and>
          record_id q = js_toString v \<and> operation q = INSERT \<and> \<not> synced q \<and>
          retry_count q = 0)"

text \<open>
  What a repository mutation that inserts into table \<open>t\<close> leaves behind. When it returns
  the new id, the row and its outbox entry are both there. When it throws, the outbox is
  as before, and the tables are either as before or hold the new row.
\<close>

definition mutation_outcome :: "world \<Rightarrow> table \<Rightarrow> string \<Rightarrow> (exn + val) \<times> world \<Rightarrow> bool" where
  "mutation_outcome w t name p =
     (case p of
        (Inr v, w') \<Rightarrow> row_added w w' t v \<and> enqueued_for w w' name v
      | (Inl e, w') \<Rightarrow> sync_queue (cur w') = sync_queue (cur w) \<and>
                       (w' = w \<or> (\<exists>v. row_added w w' t v)))"

text \<open>
  An idle process with the given rows in its tables, an empty outbox and no transaction.
\<close>

definition ex_tables :: "(table \<times> row list) list \<Rightarrow> world" where
  "ex_tables ts =
     \<lparr>cur = \<lparr>tbl = (\<lambda>t. case map_of ts t of None \<Rightarrow> [] | Some rs \<Rightarrow> rs), seq = (\<lambda>_. 0),
             sync_queue = [], queue_seq = 0\<rparr>,
      txn = None, syncInProgress = False, globalTransaction = False, syncTimeout = False,
      storage = (\<lambda>_. None)\<rparr>"

text \<open>
  The same device with an engine that rejects every insert into \<open>sync_queue\<close>.
\<close>

definition ex_env_outbox_fails :: env where
  "ex_env_outbox_fails =
     ex_env\<lparr>fault := (\<lambda>s _. case s of QueueInsert t r opn d \<Rightarrow> Some ''disk I/O error''
                                  | _ \<Rightarrow> None)\<rparr>"

text \<open>
  A form field as the form editor passes it to \<open>createForm\<close>.
\<close>

definition ex_field :: row where
  "ex_field = [(''name'', VText ''qty''), (''label'', VText ''Quantity''), (''type'', VText ''number''),
               (''required'', VBool True), (''sort_order'', VInt 1)]"

text \<open>
  A remote backend that has one user and fails on the fetch of \<open>companies\<close>, the second
  table of the download.
\<close>

definition ex_env_fetch_fails :: env where
  "ex_env_fetch_fails =
     ex_env\<lparr>remote_rows := (\<lambda>t. if t = Users
                                 then Inr [[(''id'', VInt 5), (''username'', VText ''eva''),
                                            (''password'', VText ''pw''), (''is_admin'', VBool False),
                                            (''active'', VBool True), (''deleted_at'', VNull)]]
                                 else if t = Companies then Inl ''timeout''
                                 else Inr [])\<rparr>"

text \<open>
  The seeded administrator.
\<close>

definition ex_local_user :: row where
  "ex_local_user =
     [(''id'', VInt 1), (''username'', VText ''admin''), (''password'', VText ''admin123''),
      (''is_admin'', VInt 1), (''active'', VInt 1), (''created_at'', VText ''2025-12-01 08:00:00''),
      (''updated_at'', VText ''2025-12-01 08:00:00''), (''deleted_at'', VNull)]"

text \<open>
  An open visit of user 1.
\<close>

definition ex_visit :: row where
  "ex_visit =
     [(''id'', VInt 9), (''user_id'', VInt 1), (''company_id'', VInt 7), (''role_id'', VInt 2),
      (''start_time'', VText ''2026-01-10 09:00:00''), (''end_time'', VNull),
      (''deleted_at'', VNull)]"

text \<open>
  A store where user 1 has a role and an open visit.
\<close>

definition ex_world_visit :: world where
  "ex_world_visit =
     ex_tables [(Users, [ex_local_user]), (Visits, [ex_visit]),
                (UserRoles, [[(''user_id'', VInt 1), (''role_id'', VInt 2)]])]"


text \<open>
  The row the download stores for a fetched record: its non-null columns, and the
  schema's default in every other column.
\<close>

definition localise :: "env \<Rightarrow> table \<Rightarrow> row \<Rightarrow> row" where
  "localise env t record = fill_defaults env t (filter (\<lambda>(k, v). v \<noteq> VNull) record)"

text \<open>
  No two rows of the list collide on a PRIMARY KEY or UNIQUE constraint of the table.
\<close>

fun key_distinct :: "table \<Rightarrow> row list \<Rightarrow> bool" where
  "key_distinct t [] = True"
| "key_distinct t (r # rs) = (\<not> list_ex (conflicts t r) rs \<and> key_distinct t rs)"

text \<open>
  A user row as the remote backend returns it.
\<close>

definition ex_remote_user :: "int \<Rightarrow> row" where
  "ex_remote_user i =
     [(''id'', VInt i), (''username'', VText ''eva''), (''password'', VText ''pw''),
      (''is_admin'', VBool False), (''active'', VBool True), (''deleted_at'', VNull)]"

text \<open>
  A remote backend whose only active row is user \<open>i\<close>.
\<close>

definition ex_env_remote :: "int \<Rightarrow> env" where
  "ex_env_remote i =
     ex_env\<lparr>remote_rows := (\<lambda>t. if t = Users then Inr [ex_remote_user i] else Inr [])\<rparr>"

text \<open>
  A remote backend whose only user row is soft-deleted.
\<close>

definition ex_env_remote_deleted :: env where
  "ex_env_remote_deleted =
     ex_env\<lparr>remote_rows :=
       (\<lambda>t. if t = Users
            then Inr [[(''id'', VInt 1), (''username'', VText ''admin''),
                       (''password'', VText ''admin123''), (''is_admin'', VBool True),
                       (''active'', VBool False),
                       (''deleted_at'', VText ''2026-01-05T10:00:00.000Z'')]]
            else Inr [])\<rparr>"

text \<open>
  The phase an invocation is in once its \<open>try\<close> block has returned or thrown.
\<close>

definition phase_of :: "exn + unit \<Rightarrow> phase" where
  "phase_of r = (case r of Inl e \<Rightarrow> Finished (Some e) | Inr u \<Rightarrow> Finished None)"


text \<open>
  A store with soft-deleted rows in every table that has them: user 3, role 3 (the role
  of user 2), company 8 (a company of user 2), form 5, field 11 of form 4, the only
  company link of form 4, visit 13 and form response 21.
\<close>

definition ex_world_reads :: world where
  "ex_world_reads =
     ex_tables
       [(Users, [ex_local_user,
                 [(''id'', VInt 2), (''username'', VText ''ana''), (''password'', VText ''pw''),
                  (''is_admin'', VInt 0), (''active'', VInt 1), (''deleted_at'', VNull)],
                 [(''id'', VInt 3), (''username'', VText ''old''), (''password'', VText ''pw''),
                  (''is_admin'', VInt 0), (''active'', VInt 0),
                  (''deleted_at'', VText ''2026-01-02 10:00:00'')]]),
        (Roles, [[(''id'', VInt 2), (''name'', VText ''Vendedor''), (''deleted_at'', VNull)],
                 [(''id'', VInt 3), (''name'', VText ''Auditor''),
                  (''deleted_at'', VText ''2026-01-03 10:00:00'')]]),
        (Companies, [[(''id'', VInt 7), (''name'', VText ''Acme''), (''description'', VNull),
                      (''deleted_at'', VNull)],
                     [(''id'', VInt 8), (''name'', VText ''Zeta''), (''description'', VText ''closed''),
                      (''deleted_at'', VText ''2026-01-04 10:00:00'')]]),
        (UserRoles, [[(''user_id'', VInt 2), (''role_id'', VInt 3)]]),
        (UserCompanies, [[(''user_id'', VInt 2), (''company_id'', VInt 7)],
                         [(''user_id'', VInt 2), (''company_id'', VInt 8)]]),
        (Forms, [[(''id'', VInt 4), (''name'', VText ''Checklist''), (''description'', VText ''daily''),
                  (''created_at'', VText ''2026-01-01 08:00:00''),
                  (''updated_at'', VText ''2026-01-01 08:00:00''), (''deleted_at'', VNull)],
                 [(''id'', VInt 5), (''name'', VText ''Retired''), (''description'', VNull),
                  (''deleted_at'', VText ''2026-01-05 10:00:00'')]]),
        (FormFields, [[(''id'', VInt 10), (''form_id'', VInt 4), (''name'', VText ''qty''),
                       (''label'', VText ''Quantity''), (''type'', VText ''number''),
                       (''required'', VInt 1), (''sort_order'', VInt 1), (''deleted_at'', VNull)],
                      [(''id'', VInt 11), (''form_id'', VInt 4), (''name'', VText ''note''),
                       (''label'', VText ''Note''), (''type'', VText ''text''),
                       (''required'', VInt 0), (''sort_order'', VInt 2),
                       (''deleted_at'', VText ''2026-01-06 10:00:00'')]]),
        (FormCompanies, [[(''form_id'', VInt 4), (''company_id'', VInt 7),
                          (''deleted_at'', VText ''2026-01-07 10:00:00'')]]),
        (Visits, [[(''id'', VInt 9), (''user_id'', VInt 2), (''company_id'', VInt 7),
                   (''role_id'', VInt 2), (''start_time'', VText ''2026-01-10 09:00:00''),
                   (''end_time'', VNull), (''no_gps_signal'', VInt 0), (''no_gps_signal_end'', VInt 0),
                   (''deleted_at'', VNull)],
                  [(''id'', VInt 12), (''user_id'', VInt 2), (''company_id'', VInt 7),
                   (''role_id'', VInt 2), (''start_time'', VText ''2026-01-08 09:00:00''),
                   (''end_time'', VText ''2026-01-08 09:30:00''), (''no_gps_signal'', VInt 1),
                   (''no_gps_signal_end'', VInt 1), (''deleted_at'', VNull)],
                  [(''id'', VInt 13), (''user_id'', VInt 2), (''company_id'', VInt 7),
                   (''role_id'', VInt 2), (''start_time'', VText ''2026-01-09 09:00:00''),
                   (''end_time'', VText ''2026-01-09 09:30:00''), (''no_gps_signal'', VInt 1),
                   (''no_gps_signal_end'', VInt 1),
                   (''deleted_at'', VText ''2026-01-09 12:00:00'')]]),
        (FormResponses, [[(''id'', VInt 20), (''form_id'', VInt 4), (''visit_id'', VInt 12),
                          (''user_id'', VInt 2), (''created_at'', VText ''2026-01-08 09:10:00''),
                          (''updated_at'', VText ''2026-01-08 09:10:00''), (''deleted_at'', VNull)],
                         [(''id'', VInt 21), (''form_id'', VInt 4), (''visit_id'', VInt 12),
                          (''user_id'', VInt 2), (''created_at'', VText ''2026-01-08 09:20:00''),
                          (''updated_at'', VText ''2026-01-08 09:20:00''),
                          (''deleted_at'', VText ''2026-01-08 09:25:00'')]]),
        (FormFieldResponses, [[(''id'', VInt 30), (''form_response_id'', VInt 20),
                               (''field_id'', VInt 10), (''value'', VText ''5'')],
                              [(''id'', VInt 31), (''form_response_id'', VInt 21),
                               (''field_id'', VInt 10), (''value'', VText ''6'')]])]"

text \<open>
  The example device with an engine that computes the 1800 seconds of visit 12.
\<close>

definition ex_env_reads :: env where
  "ex_env_reads = ex_env\<lparr>julian_seconds := (\<lambda>e s. if e = VText ''2026-01-08 09:30:00'' \<and> s = VText ''2026-01-08 09:00:00'' then VInt 1800 else VNull)\<rparr>"

text \<open>
  A report is of the user and the company of a visit that is not soft-deleted.
\<close>

definition of_live_visit :: "store \<Rightarrow> report_obj \<Rightarrow> bool" where
  "of_live_visit s r =
     list_ex (\<lambda>v. col v ''user_id'' = rp_user_id r \<and> col v ''company_id'' = rp_company_id r)
       (live_rows s Visits)"

text \<open>
  Form 4 as the reads return it in the example store, and user 2 likewise.
\<close>

definition ex_form_obj :: form_obj where
  "ex_form_obj =
     \<lparr>f_id = VInt 4, f_name = VText ''Checklist'', f_description = VText ''daily'',
      f_created_at = VText ''2026-01-01 08:00:00'', f_updated_at = VText ''2026-01-01 08:00:00'',
      f_fields =
        [[(''id'', VInt 10), (''form_id'', VInt 4), (''name'', VText ''qty''),
          (''label'', VText ''Quantity''), (''type'', VText ''number''),
          (''required'', VBool True), (''sort_order'', VInt 1)],
         [(''id'', VInt 11), (''form_id'', VInt 4), (''name'', VText ''note''),
          (''label'', VText ''Note''), (''type'', VText ''text''),
          (''required'', VBool False), (''sort_order'', VInt 2)]]\<rparr>"

definition ex_user_obj :: user_obj where
  "ex_user_obj =
     \<lparr>u_id = VInt 2, u_username = VText ''ana'', u_password = VText ''pw'',
      u_isAdmin = False, u_active = True,
      u_roles = [[(''id'', VInt 3), (''name'', VText ''Auditor'')]],
      u_companies = [[(''id'', VInt 7), (''name'', VText ''Acme''), (''description'', VText [])],
                     [(''id'', VInt 8), (''name'', VText ''Zeta''),
                      (''description'', VText ''closed'')]]\<rparr>"


section \<open>Properties of the string helpers\<close>

lemma digit_char_props:
  assumes "d < 10"
  shows "is_digit (digit_char d)" "digit_val (digit_char d) = d"
    "digit_char d \<noteq> CHR '',''" "\<not> js_space (digit_char d)"
    "digit_char d \<noteq> CHR ''-''" "digit_char d \<noteq> CHR ''+''"
proof -
  from assms have "d \<in> {0,1,2,3,4,5,6,7,8,9}" by auto
  then have "is_digit (digit_char d) \<and> digit_val (digit_char d) = d \<and>
    digit_char d \<noteq> CHR '','' \<and> \<not> js_space (digit_char d) \<and>
    digit_char d \<noteq> CHR ''-'' \<and> digit_char d \<noteq> CHR ''+''"
    by (auto simp: digit_char_def is_digit_def digit_val_def js_space_def)
  then show "is_digit (digit_char d)" "digit_val (digit_char d) = d"
    "digit_char d \<noteq> CHR '',''" "\<not> js_space (digit_char d)"
    "digit_char d \<noteq> CHR ''-''" "digit_char d \<noteq> CHR ''+''" by blast+
qed

lemma show_nat_digits: "list_all is_digit (show_nat n) \<and> show_nat n \<noteq> []"
proof (induction n rule: show_nat.induct)
  case (1 n)
  show ?case
  proof (cases "n < 10")
    case True
    then show ?thesis by (simp add: show_nat.simps[of n] digit_char_props)
  next
    case False
    with 1 show ?thesis by (simp add: show_nat.simps[of n] digit_char_props)
  qed
qed

lemma parse_nat_show_nat: "parse_nat (show_nat n) = n"
proof (induction n rule: show_nat.induct)
  case (1 n)
  show ?case
  proof (cases "n < 10")
    case True
    then show ?thesis by (simp add: show_nat.simps[of n] parse_nat_def digit_char_props)
  next
    case False
    with 1 have "parse_nat (show_nat (n div 10)) = n div 10" by simp
    with False show ?thesis
      by (simp add: show_nat.simps[of n] parse_nat_def digit_char_props)
  qed
qed

lemma is_digit_facts:
  "is_digit c \<Longrightarrow> c \<noteq> CHR '','' \<and> \<not> js_space c \<and> c \<noteq> CHR ''-'' \<and> c \<noteq> CHR ''+''"
  by (auto simp: is_digit_def js_space_def)

lemma digits_no_space: "list_all is_digit s \<Longrightarrow> s \<noteq> [] \<Longrightarrow> dropWhile js_space s = s"
  by (cases s) (auto dest: is_digit_facts)

lemma digits_trim:
  assumes "list_all is_digit s" "s \<noteq> []"
  shows "rev (dropWhile js_space (rev s)) = s"
proof -
  have "list_all is_digit (rev s)" "rev s \<noteq> []" using assms by (simp_all add: list_all_iff)
  then have "dropWhile js_space (rev s) = rev s" by (rule digits_no_space)
  then show ?thesis by simp
qed

lemma strip_sign_digits: "list_all is_digit s \<Longrightarrow> s \<noteq> [] \<Longrightarrow> strip_sign s = (False, s)"
  by (cases s) (auto simp: strip_sign_def dest: is_digit_facts)

lemma js_Number_digits:
  assumes "list_all is_digit s" "s \<noteq> []"
  shows "js_Number s = VInt (int (parse_nat s))"
  using assms
  by (simp add: js_Number_def digits_no_space digits_trim strip_sign_digits signed_def)

lemma js_Number_minus_digits:
  assumes "list_all is_digit s" "s \<noteq> []"
  shows "js_Number (CHR ''-'' # s) = VInt (- int (parse_nat s))"
proof -
  have "dropWhile js_space (rev s @ [CHR ''-'']) = rev s @ [CHR ''-'']"
    using assms by (cases "rev s") (auto simp: list_all_iff dest: is_digit_facts)
  then have t2: "rev (dropWhile js_space (rev (CHR ''-'' # s))) = CHR ''-'' # s"
    by simp
  have t1: "dropWhile js_space (CHR ''-'' # s) = CHR ''-'' # s"
    by (simp add: js_space_def)
  show ?thesis unfolding js_Number_def t1 t2 Let_def
    using assms by (simp add: strip_sign_def signed_def)
qed

lemma js_Number_show_int: "js_Number (show_int k) = VInt k"
proof (cases "k < 0")
  case True
  then show ?thesis
    using js_Number_minus_digits[of "show_nat (nat (- k))"] show_nat_digits[of "nat (- k)"]
    by (simp add: show_int_def parse_nat_show_nat)
next
  case False
  then show ?thesis
    using js_Number_digits[of "show_nat (nat k)"] show_nat_digits[of "nat k"]
    by (simp add: show_int_def parse_nat_show_nat)
qed

lemma show_int_no_comma: "CHR '','' \<notin> set (show_int k)"
proof -
  have "\<And>n. CHR '','' \<notin> set (show_nat n)"
    using show_nat_digits by (auto simp: list_all_iff dest: is_digit_facts)
  then show ?thesis by (simp add: show_int_def)
qed

lemma split_on_no_sep: "c \<notin> set s \<Longrightarrow> split_on c s = [s]"
  by (induction s) auto

lemma split_on_pair:
  "c \<notin> set a \<Longrightarrow> c \<notin> set b \<Longrightarrow> split_on c (a @ c # b) = [a, b]"
  by (induction a) (auto simp: split_on_no_sep)


section \<open>Properties of the upload\<close>

lemma process_all_trace:
  "process_all env cs w = (r, w', tr) \<Longrightarrow>
     (\<exists>k. tr = take k (map (\<lambda>c. (qid c, dispatch env c)) cs)) \<and>
     (r = None \<longrightarrow> tr = map (\<lambda>c. (qid c, dispatch env c)) cs)"
proof (induction cs arbitrary: w r w' tr)
  case Nil
  then show ?case by simp
next
  case (Cons c cs)
  obtain r1 w1 where pc: "process_change env c w = (r1, w1)" by (cases "process_change env c w")
  show ?case
  proof (cases r1)
    case (Some e)
    with Cons.prems pc have "tr = [(qid c, dispatch env c)]" "r = Some e" by auto
    then have "tr = take 1 (map (\<lambda>c. (qid c, dispatch env c)) (c # cs))" by simp
    with \<open>r = Some e\<close> show ?thesis by blast
  next
    case None
    obtain r2 w2 tr2 where pa: "process_all env cs w1 = (r2, w2, tr2)"
      by (cases "process_all env cs w1")
    from Cons.IH[OF pa] obtain k where
      k: "tr2 = take k (map (\<lambda>c. (qid c, dispatch env c)) cs)"
      and full: "r2 = None \<longrightarrow> tr2 = map (\<lambda>c. (qid c, dispatch env c)) cs" by blast
    from Cons.prems pc None pa have eq: "r = r2" "tr = (qid c, dispatch env c) # tr2" by auto
    have "tr = take (Suc k) (map (\<lambda>c. (qid c, dispatch env c)) (c # cs))"
      using eq k by simp
    then have a: "\<exists>k. tr = take k (map (\<lambda>c. (qid c, dispatch env c)) (c # cs))" ..
    have b: "r = None \<longrightarrow> tr = map (\<lambda>c. (qid c, dispatch env c)) (c # cs)"
      using eq full by simp
    from a b show ?thesis ..
  qed
qed

lemma sorted_before:
  assumes "sorted (map f p)" "a \<in> set p" "b \<in> set p" "f a < f b"
  shows "\<exists>xs ys zs. p = xs @ a # ys @ b # zs"
proof -
  from assms(2) obtain xs r where p: "p = xs @ a # r" by (meson split_list)
  have "b \<in> set r"
  proof (rule ccontr)
    assume "b \<notin> set r"
    with assms(3) p assms(4) have "b \<in> set xs" by auto
    with assms(1) p have "f b \<le> f a" by (auto simp: sorted_append)
    with assms(4) show False by simp
  qed
  then obtain ys zs where "r = ys @ b # zs" by (meson split_list)
  with p show ?thesis by blast
qed

lemma cur_set_queue [simp]: "sync_queue (cur (set_queue q w)) = q"
  by (simp add: set_queue_def)

lemma mark_synced_outside:
  "i \<in> S \<Longrightarrow> filter (\<lambda>x. qid x \<notin> S) (mark_synced i q) = filter (\<lambda>x. qid x \<notin> S) q"
  by (induction q) (auto simp: mark_synced_def)

lemma mark_failed_outside:
  "i \<in> S \<Longrightarrow> filter (\<lambda>x. qid x \<notin> S) (mark_failed i m q) = filter (\<lambda>x. qid x \<notin> S) q"
  by (induction q) (auto simp: mark_failed_def)

lemma mark_synced_ids: "map qid (mark_synced i q) = map qid q"
  by (induction q) (auto simp: mark_synced_def)

lemma mark_failed_ids: "map qid (mark_failed i m q) = map qid q"
  by (induction q) (auto simp: mark_failed_def)

lemma process_change_outside:
  assumes "process_change env c w = (r, w')" "qid c \<in> S"
  shows "filter (\<lambda>x. qid x \<notin> S) (sync_queue (cur w')) = filter (\<lambda>x. qid x \<notin> S) (sync_queue (cur w))"
    and "map qid (sync_queue (cur w')) = map qid (sync_queue (cur w))"
  using assms
  by (auto simp: process_change_def try_upload_def mark_synced_outside mark_failed_outside
      mark_synced_ids mark_failed_ids split: sum.splits option.splits)

lemma process_all_outside:
  "process_all env cs w = (r, w', tr) \<Longrightarrow> qid ` set cs \<subseteq> S \<Longrightarrow>
     filter (\<lambda>x. qid x \<notin> S) (sync_queue (cur w')) = filter (\<lambda>x. qid x \<notin> S) (sync_queue (cur w))
     \<and> map qid (sync_queue (cur w')) = map qid (sync_queue (cur w))"
proof (induction cs arbitrary: w r w' tr)
  case Nil
  then show ?case by simp
next
  case (Cons c cs)
  obtain r1 w1 where pc: "process_change env c w = (r1, w1)" by (cases "process_change env c w")
  from Cons.prems(2) have cS: "qid c \<in> S" and csS: "qid ` set cs \<subseteq> S" by auto
  note step = process_change_outside[OF pc cS]
  show ?case
  proof (cases r1)
    case (Some e)
    with Cons.prems(1) pc have "w' = w1" by simp
    with step show ?thesis by simp
  next
    case None
    obtain r2 w2 tr2 where pa: "process_all env cs w1 = (r2, w2, tr2)"
      by (cases "process_all env cs w1")
    from Cons.prems(1) pc None pa have "w' = w2" by simp
    with Cons.IH[OF pa csS] step show ?thesis by simp
  qed
qed

lemma quarantined_not_pending_id:
  assumes "r \<in> set (sync_queue s)" "3 \<le> retry_count r" "distinct (map qid (sync_queue s))"
  shows "qid r \<notin> qid ` set (pendingChanges s)"
proof
  assume "qid r \<in> qid ` set (pendingChanges s)"
  then obtain c where c: "c \<in> set (pendingChanges s)" "qid c = qid r" by auto
  then have "c \<in> set (sync_queue s)" "retry_count c < 3" by (auto simp: pendingChanges_def)
  with assms(1,3) c(2) have "c = r" by (meson distinct_map inj_onD)
  with \<open>retry_count c < 3\<close> assms(2) show False by simp
qed

definition ran :: "env \<Rightarrow> world \<Rightarrow> bool" where
  "ran env w = (\<not> web env \<and> \<not> syncInProgress w \<and> isOnline env \<and> \<not> globalTransaction w)"

lemma one_run:
  assumes r: "r \<in> set (sync_queue (cur w))" "3 \<le> retry_count r"
    and d: "distinct (map qid (sync_queue (cur w)))"
    and run: "processSyncQueue env w = (res, w', tr)"
  shows "qid r \<notin> fst ` set tr"
    and "r \<in> set (sync_queue (cur w')) \<or>
         (created_at r < clock env - 7 * 24 * 60 * 60 \<and> res = None \<and>
          \<not> web env \<and> \<not> syncInProgress w \<and> isOnline env \<and> \<not> globalTransaction w)"
    and "created_at r < clock env - 7 * 24 * 60 * 60 \<and> res = None \<and>
          \<not> web env \<and> \<not> syncInProgress w \<and> isOnline env \<and> \<not> globalTransaction w
          \<longrightarrow> r \<notin> set (sync_queue (cur w'))"
proof -
  let ?S = "qid ` set (pendingChanges (cur w))"
  let ?w0 = "w\<lparr>syncInProgress := True\<rparr>"
  have notin: "qid r \<notin> ?S" using quarantined_not_pending_id[OF r d] .
  obtain r1 w1 tr1 where pa: "process_all env (pendingChanges (cur w)) ?w0 = (r1, w1, tr1)"
    by (cases "process_all env (pendingChanges (cur w)) ?w0")
  from process_all_outside[OF pa subset_refl]
  have out: "filter (\<lambda>x. qid x \<notin> ?S) (sync_queue (cur w1)) = filter (\<lambda>x. qid x \<notin> ?S) (sync_queue (cur w))"
    and ids: "map qid (sync_queue (cur w1)) = map qid (sync_queue (cur w))" by simp_all
  from r(1) notin have "r \<in> set (filter (\<lambda>x. qid x \<notin> ?S) (sync_queue (cur w)))" by simp
  with out have "r \<in> set (filter (\<lambda>x. qid x \<notin> ?S) (sync_queue (cur w1)))" by simp
  then have r1in: "r \<in> set (sync_queue (cur w1))" by simp
  from process_all_trace[OF pa] have "fst ` set tr1 \<subseteq> ?S"
    by (auto dest!: in_set_takeD)
  with notin have tr1: "qid r \<notin> fst ` set tr1" by blast
  show "qid r \<notin> fst ` set tr" using run pa tr1
    by (auto simp: processSyncQueue_def Let_def split: if_splits option.splits prod.splits)
  show "r \<in> set (sync_queue (cur w')) \<or>
         (created_at r < clock env - 7 * 24 * 60 * 60 \<and> res = None \<and>
          \<not> web env \<and> \<not> syncInProgress w \<and> isOnline env \<and> \<not> globalTransaction w)"
    using run pa r r1in
    by (auto simp: processSyncQueue_def Let_def cleanup_def split: if_splits option.splits prod.splits)
  show "created_at r < clock env - 7 * 24 * 60 * 60 \<and> res = None \<and>
          \<not> web env \<and> \<not> syncInProgress w \<and> isOnline env \<and> \<not> globalTransaction w
          \<longrightarrow> r \<notin> set (sync_queue (cur w'))"
    using run pa r
    by (auto simp: processSyncQueue_def Let_def cleanup_def split: if_splits option.splits prod.splits)
qed

lemma run_distinct:
  assumes d: "distinct (map qid (sync_queue (cur w)))"
    and run: "processSyncQueue env w = (res, w', tr)"
  shows "distinct (map qid (sync_queue (cur w')))"
proof -
  let ?w0 = "w\<lparr>syncInProgress := True\<rparr>"
  obtain r1 w1 tr1 where pa: "process_all env (pendingChanges (cur w)) ?w0 = (r1, w1, tr1)"
    by (cases "process_all env (pendingChanges (cur w)) ?w0")
  from process_all_outside[OF pa subset_refl]
  have ids: "map qid (sync_queue (cur w1)) = map qid (sync_queue (cur w))" by simp
  have d1: "distinct (map qid (sync_queue (cur w1)))" using ids d by simp
  have dc: "distinct (map qid (cleanup (clock env) (sync_queue (cur w1))))"
    using d1 by (simp add: cleanup_def distinct_map_filter)
  show ?thesis
    using run pa d d1 dc
    by (auto simp: processSyncQueue_def Let_def split: if_splits option.splits prod.splits)
qed

lemma run_ids:
  assumes run: "processSyncQueue env w = (res, w', tr)"
  shows "fst ` set tr \<subseteq> qid ` set (sync_queue (cur w))"
    and "qid ` set (sync_queue (cur w')) \<subseteq> qid ` set (sync_queue (cur w))"
proof -
  let ?w0 = "w\<lparr>syncInProgress := True\<rparr>"
  obtain r1 w1 tr1 where pa: "process_all env (pendingChanges (cur w)) ?w0 = (r1, w1, tr1)"
    by (cases "process_all env (pendingChanges (cur w)) ?w0")
  from process_all_outside[OF pa subset_refl]
  have ids: "map qid (sync_queue (cur w1)) = map qid (sync_queue (cur w))" by simp
  then have ids': "qid ` set (sync_queue (cur w1)) = qid ` set (sync_queue (cur w))"
    by (metis set_map)
  from process_all_trace[OF pa] have "fst ` set tr1 \<subseteq> qid ` set (pendingChanges (cur w))"
    by (auto dest!: in_set_takeD)
  then have t1: "fst ` set tr1 \<subseteq> qid ` set (sync_queue (cur w))"
    by (auto simp: pendingChanges_def)
  show "fst ` set tr \<subseteq> qid ` set (sync_queue (cur w))"
    using run pa t1
    by (auto simp: processSyncQueue_def Let_def split: if_splits option.splits prod.splits)
  have c: "qid ` set (cleanup (clock env) (sync_queue (cur w1))) \<subseteq> qid ` set (sync_queue (cur w))"
    using ids' by (auto simp: cleanup_def)
  show "qid ` set (sync_queue (cur w')) \<subseteq> qid ` set (sync_queue (cur w))"
    using run pa ids' c
    by (auto simp: processSyncQueue_def Let_def split: if_splits option.splits prod.splits)
qed

lemma one_run_gone:
  assumes r: "r \<in> set (sync_queue (cur w))" "3 \<le> retry_count r"
    and d: "distinct (map qid (sync_queue (cur w)))"
    and run: "processSyncQueue env w = (res, w', tr)"
    and gone: "r \<notin> set (sync_queue (cur w'))"
  shows "qid r \<notin> qid ` set (sync_queue (cur w'))"
proof
  let ?S = "qid ` set (pendingChanges (cur w))"
  let ?w0 = "w\<lparr>syncInProgress := True\<rparr>"
  assume "qid r \<in> qid ` set (sync_queue (cur w'))"
  then obtain x where x: "x \<in> set (sync_queue (cur w'))" "qid x = qid r" by auto
  have notin: "qid r \<notin> ?S" using quarantined_not_pending_id[OF r d] .
  obtain r1 w1 tr1 where pa: "process_all env (pendingChanges (cur w)) ?w0 = (r1, w1, tr1)"
    by (cases "process_all env (pendingChanges (cur w)) ?w0")
  from process_all_outside[OF pa subset_refl]
  have out: "filter (\<lambda>x. qid x \<notin> ?S) (sync_queue (cur w1)) = filter (\<lambda>x. qid x \<notin> ?S) (sync_queue (cur w))"
    and ids: "map qid (sync_queue (cur w1)) = map qid (sync_queue (cur w))" by simp_all
  have "x \<in> set (sync_queue (cur w1)) \<or> x \<in> set (sync_queue (cur w))"
    using run pa x(1)
    by (auto simp: processSyncQueue_def Let_def cleanup_def split: if_splits option.splits prod.splits)
  then have "x \<in> set (filter (\<lambda>x. qid x \<notin> ?S) (sync_queue (cur w1))) \<or>
             x \<in> set (filter (\<lambda>x. qid x \<notin> ?S) (sync_queue (cur w)))"
    using notin x(2) by simp
  with out have "x \<in> set (sync_queue (cur w))" by auto
  with r(1) d x(2) have "x = r" by (meson distinct_map inj_onD)
  with x(1) gone show False by simp
qed

lemma run_all_never:
  "run_all es w = (w', tr) \<Longrightarrow> distinct (map qid (sync_queue (cur w))) \<Longrightarrow>
   qid r \<notin> qid ` set (sync_queue (cur w)) \<or> (r \<in> set (sync_queue (cur w)) \<and> 3 \<le> retry_count r)
   \<Longrightarrow> qid r \<notin> fst ` set tr"
proof (induction es arbitrary: w w' tr)
  case Nil
  then show ?case by simp
next
  case (Cons e es)
  obtain res w1 tr1 where run: "processSyncQueue e w = (res, w1, tr1)"
    by (cases "processSyncQueue e w")
  obtain w2 tr2 where rest: "run_all es w1 = (w2, tr2)" by (cases "run_all es w1")
  from Cons.prems(1) run rest have tr: "tr = tr1 @ tr2" by simp
  note ids = run_ids[OF run]
  have "qid r \<notin> fst ` set tr1 \<and> distinct (map qid (sync_queue (cur w1))) \<and>
        (qid r \<notin> qid ` set (sync_queue (cur w1)) \<or> (r \<in> set (sync_queue (cur w1)) \<and> 3 \<le> retry_count r))"
  proof (cases "r \<in> set (sync_queue (cur w)) \<and> 3 \<le> retry_count r")
    case True
    then have r: "r \<in> set (sync_queue (cur w))" "3 \<le> retry_count r" by simp_all
    note one = one_run[OF r Cons.prems(2) run]
    from one_run_gone[OF r Cons.prems(2) run] one(1) run_distinct[OF Cons.prems(2) run] r(2)
    show ?thesis by blast
  next
    case False
    with Cons.prems(3) have out: "qid r \<notin> qid ` set (sync_queue (cur w))" by blast
    from out ids run_distinct[OF Cons.prems(2) run] show ?thesis by blast
  qed
  with Cons.IH[OF rest] tr show ?case by auto
qed

lemmas ex_defs = ex_env_def ex_row_def ex_world_def ex_queue_def

lemmas run_defs = processSyncQueue_def pendingChanges_def process_change_def try_upload_def
  rejected_def isOnline_def set_queue_def mark_synced_def mark_failed_def cleanup_def

lemma triple_collapse: "p = (fst p, fst (snd p), snd (snd p))"
  by simp


section \<open>Claims about the outbox and the upload\<close>

text \<open>
  The dispatch of a junction-table DELETE, for every pair of integer keys: the record
  identity \<open>k1,k2\<close> is split on the comma and both parts are read back as the numbers
  \<open>k1\<close> and \<open>k2\<close>. The second filter column is \<open>role_id\<close> for \<open>user_roles\<close> and
  \<open>company_id\<close> otherwise; the first is \<open>user_id\<close> for all three tables.
\<close>

lemma junction_delete_dispatch:
  assumes "table_name change \<in> {''user_roles'', ''user_companies'', ''form_companies''}"
    and "operation change = DELETE"
    and "record_id change = show_int k1 @ '','' @ show_int k2"
  shows "dispatch env change =
           DeleteEq (table_name change) ''user_id'' (VInt k1)
             (if table_name change = ''user_roles'' then ''role_id'' else ''company_id'')
             (VInt k2)"
proof -
  have sp: "split_on CHR '','' (record_id change) = [show_int k1, show_int k2]"
    using assms(3) split_on_pair[OF show_int_no_comma show_int_no_comma, of k1 k2] by simp
  show ?thesis using assms(1,2)
    by (auto simp: dispatch_def sp js_Number_show_int js_index_def)
qed

text \<open>
  Claim C4. A DELETE outbox entry of a junction table with identity \<open>k1,k2\<close> must be
  sent as a remote delete on that table's own two key columns; for \<open>form_companies\<close>
  these are \<open>form_id\<close> and \<open>company_id\<close>. The code computes the first column as
  \<open>table_name === 'user_roles' ? 'user_id' : 'user_id'\<close>, so the entry \<open>5,12\<close> of
  \<open>form_companies\<close> is sent with the filter \<open>user_id = 5 AND company_id = 12\<close>: the
  first filter names a column that is not a key of \<open>form_companies\<close>.
\<close>

theorem form_companies_delete_filters_user_id:
  "dispatch env \<lparr>qid = q, table_name = ''form_companies'', record_id = ''5,12'',
      operation = DELETE, data = d, synced = False, retry_count = 0, error = None,
      created_at = t\<rparr>
   = DeleteEq ''form_companies'' ''user_id'' (VInt 5) ''company_id'' (VInt 12)"
  by (simp add: dispatch_def js_Number_def js_index_def js_space_def strip_sign_def
      is_digit_def parse_nat_def digit_val_def signed_def)

text \<open>
  Claim C5. The drain of \<open>processSyncQueue\<close> selects exactly the rows with
  \<open>synced = 0\<close> and \<open>retry_count < 3\<close>, each once, in ascending order of
  \<open>created_at\<close>: of two selected rows the one created earlier stands before the other.
  The loop sends the requests in that order: the requests sent are an initial segment of
  the drained rows' requests, and all of them when the call passes its guards and returns
  normally.
\<close>

theorem drain_is_fifo:
  assumes "processSyncQueue env w = (res, w', tr)"
  shows "set (pendingChanges (cur w)) =
           {r \<in> set (sync_queue (cur w)). \<not> synced r \<and> retry_count r < 3} \<and>
         mset (pendingChanges (cur w)) =
           mset (filter (\<lambda>r. \<not> synced r \<and> retry_count r < 3) (sync_queue (cur w))) \<and>
         sorted (map created_at (pendingChanges (cur w))) \<and>
         (\<forall>a b. a \<in> set (pendingChanges (cur w)) \<and> b \<in> set (pendingChanges (cur w)) \<and>
                created_at a < created_at b
            \<longrightarrow> (\<exists>xs ys zs. pendingChanges (cur w) = xs @ a # ys @ b # zs)) \<and>
         (\<exists>k. tr = take k (map (\<lambda>c. (qid c, dispatch env c)) (pendingChanges (cur w)))) \<and>
         (res = None \<and> \<not> web env \<and> \<not> syncInProgress w \<and> isOnline env \<and> \<not> globalTransaction w
            \<longrightarrow> tr = map (\<lambda>c. (qid c, dispatch env c)) (pendingChanges (cur w)))"
proof -
  let ?p = "pendingChanges (cur w)"
  let ?w0 = "w\<lparr>syncInProgress := True\<rparr>"
  have srt: "sorted (map created_at ?p)"
    by (simp add: pendingChanges_def)
  have ord: "\<forall>a b. a \<in> set ?p \<and> b \<in> set ?p \<and> created_at a < created_at b
      \<longrightarrow> (\<exists>xs ys zs. ?p = xs @ a # ys @ b # zs)"
    using sorted_before[OF srt] by blast
  have st: "set ?p = {r \<in> set (sync_queue (cur w)). \<not> synced r \<and> retry_count r < 3}"
    by (auto simp: pendingChanges_def)
  have ms: "mset ?p = mset (filter (\<lambda>r. \<not> synced r \<and> retry_count r < 3) (sync_queue (cur w)))"
    by (simp add: pendingChanges_def)
  obtain r1 w1 tr1 where pa: "process_all env ?p ?w0 = (r1, w1, tr1)"
    by (cases "process_all env ?p ?w0")
  note t = process_all_trace[OF pa]
  have "tr = tr1 \<or> tr = []"
    using assms pa
    by (auto simp: processSyncQueue_def Let_def split: if_splits option.splits prod.splits)
  moreover have "[] = take 0 (map (\<lambda>c. (qid c, dispatch env c)) ?p)" by simp
  ultimately have pre: "\<exists>k. tr = take k (map (\<lambda>c. (qid c, dispatch env c)) ?p)"
    using t by metis
  have full: "res = None \<and> \<not> web env \<and> \<not> syncInProgress w \<and> isOnline env \<and> \<not> globalTransaction w
            \<longrightarrow> tr = map (\<lambda>c. (qid c, dispatch env c)) ?p"
    using assms pa t
    by (auto simp: processSyncQueue_def Let_def split: if_splits option.splits prod.splits)
  from st ms srt ord pre full show ?thesis by blast
qed

theorem drain_is_fifo_witness:
  "map created_at (pendingChanges (cur (ex_world ex_queue))) = [999910, 999920, 999930] \<and>
   sorted (map created_at (pendingChanges (cur (ex_world ex_queue)))) \<and>
   fst (processSyncQueue ex_env (ex_world ex_queue)) = None \<and>
   snd (snd (processSyncQueue ex_env (ex_world ex_queue))) =
     map (\<lambda>c. (qid c, dispatch ex_env c)) (pendingChanges (cur (ex_world ex_queue))) \<and>
   map fst (snd (snd (processSyncQueue ex_env (ex_world ex_queue)))) = [2, 4, 1]"
proof -
  let ?w = "ex_world ex_queue"
  let ?X = "processSyncQueue ex_env ?w"
  note inst = drain_is_fifo[OF triple_collapse[of ?X]]
  from inst have srt: "sorted (map created_at (pendingChanges (cur ?w)))" by blast
  have g: "fst ?X = None \<and> \<not> web ex_env \<and> \<not> syncInProgress ?w \<and> isOnline ex_env \<and>
           \<not> globalTransaction ?w"
    by (simp add: ex_defs run_defs Let_def)
  with inst have full: "snd (snd ?X) = map (\<lambda>c. (qid c, dispatch ex_env c)) (pendingChanges (cur ?w))"
    by blast
  have p: "map created_at (pendingChanges (cur ?w)) = [999910, 999920, 999930]"
    by (simp add: ex_defs pendingChanges_def)
  have ids: "map fst (snd (snd ?X)) = [2, 4, 1]"
    by (simp add: ex_defs run_defs Let_def)
  from srt g full p ids show ?thesis by blast
qed

text \<open>
  Each failed attempt adds exactly one to \<open>retry_count\<close> of the row: when the remote
  backend rejects the request, the \<open>catch\<close> block runs the \<open>retry_count + 1\<close> update
  on the row's id. A row that has failed three times therefore carries
  \<open>retry_count = 3\<close>.
\<close>

lemma failed_upload_adds_one_retry:
  assumes "remote_write env (dispatch env c) = Some m"
    and "fault env (QueueMarkFailed (qid c) (error_text (RemoteError m))) (cur w) = None"
  shows "process_change env c w =
           (None, set_queue (mark_failed (qid c) (error_text (RemoteError m)) (sync_queue (cur w))) w)"
    and "c \<in> set q \<Longrightarrow>
           c\<lparr>retry_count := retry_count c + 1, error := Some m'\<rparr> \<in> set (mark_failed (qid c) m' q)"
  using assms by (auto simp: process_change_def try_upload_def rejected_def mark_failed_def)



section \<open>Actions, transactions and statements that touch only the tables\<close>

lemma and_thenE:
  assumes "and_then m f w = (r, w')"
  obtains (fail) e where "m w = (Inl e, w')" "r = Inl e"
        | (ok) x w1 where "m w = (Inr x, w1)" "f x w1 = (r, w')"
  using assms by (auto simp: and_then_def split: prod.splits sum.splits)

lemma try_catchE:
  assumes "try_catch m h w = (r, w')"
  obtains (caught) e w1 where "m w = (Inl e, w1)" "h e w1 = (r, w')"
        | (ok) x where "m w = (Inr x, w')" "r = Inr x"
  using assms by (auto simp: try_catch_def split: prod.splits sum.splits)

lemma atomicE:
  assumes "atomic f w = (r, w')"
  obtains (fail) e where "f w = Inl e" "r = Inl e" "w' = w"
        | (ok) x where "f w = Inr (x, w')" "r = Inr x"
  using assms by (auto simp: atomic_def split: prod.splits sum.splits)

lemma ret_simp [simp]: "ret x w = (r, w') \<longleftrightarrow> r = Inr x \<and> w' = w"
  by (auto simp: ret_def)

lemma throw_simp [simp]: "throw e w = (r, w') \<longleftrightarrow> r = Inl e \<and> w' = w"
  by (auto simp: throw_def)

lemma sql_begin_Inr:
  "sql_begin env w = Inr (x, w') \<longleftrightarrow>
     fault env Begin (cur w) = None \<and> txn w = None \<and> w' = w\<lparr>txn := Some (cur w)\<rparr>"
  by (auto simp: sql_begin_def rejected_def split: option.splits)

lemma sql_commit_Inr:
  "sql_commit env w = Inr (x, w') \<longleftrightarrow>
     fault env Commit (cur w) = None \<and> txn w \<noteq> None \<and> w' = w\<lparr>txn := None\<rparr>"
  by (auto simp: sql_commit_def rejected_def split: option.splits)

lemma sql_rollback_Inr:
  "sql_rollback w = Inr (x, w') \<longleftrightarrow> (\<exists>s. txn w = Some s \<and> w' = w\<lparr>cur := s, txn := None\<rparr>)"
  by (auto simp: sql_rollback_def split: option.splits)

lemma sql_rollback_Inl:
  "sql_rollback w = Inl e \<longleftrightarrow>
     txn w = None \<and> e = SqliteError ''cannot rollback - no transaction is active''"
  by (auto simp: sql_rollback_def split: option.splits)

lemma sql_select_Inr: "sql_select env q w = Inr (x, w') \<longleftrightarrow> fault env (Select q) (cur w) = None \<and> w' = w"
  by (auto simp: sql_select_def rejected_def split: option.splits)

lemma tables_onlyD: "tables_only m \<Longrightarrow> m w = (r, w') \<Longrightarrow> same_but_tables w w'"
  by (simp add: tables_only_def)

lemma same_but_tables_refl [simp]: "same_but_tables w w"
  by (simp add: same_but_tables_def)

lemma same_but_tables_trans:
  "same_but_tables w w1 \<Longrightarrow> same_but_tables w1 w2 \<Longrightarrow> same_but_tables w w2"
  by (simp add: same_but_tables_def)

lemma tables_only_ret [simp]: "tables_only (ret x)"
  by (simp add: tables_only_def)

lemma tables_only_throw [simp]: "tables_only (throw e)"
  by (simp add: tables_only_def)

lemma tables_only_and_then:
  assumes "tables_only m" "\<And>x. tables_only (f x)"
  shows "tables_only (and_then m f)"
  unfolding tables_only_def
proof (intro allI impI)
  fix w r w'
  assume a: "and_then m f w = (r, w')"
  then show "same_but_tables w w'"
  proof (cases rule: and_thenE)
    case (fail e)
    then show ?thesis using tables_onlyD[OF assms(1)] by blast
  next
    case (ok x w1)
    from tables_onlyD[OF assms(1) ok(1)] tables_onlyD[OF assms(2) ok(2)]
    show ?thesis by (rule same_but_tables_trans)
  qed
qed

lemma tables_only_for_each:
  assumes "\<And>x. tables_only (f x)"
  shows "tables_only (for_each f xs)"
  by (induction xs) (simp_all add: tables_only_and_then assms)

lemma tables_only_insert: "tables_only (atomic (sql_insert env mode t r))"
  by (auto simp: tables_only_def same_but_tables_def atomic_def sql_insert_def Let_def
      split: option.splits if_splits)

lemma tables_only_delete_all: "tables_only (atomic (sql_delete_all env t))"
  by (auto simp: tables_only_def same_but_tables_def atomic_def sql_delete_all_def split: option.splits)

lemma tables_only_delete_where: "tables_only (atomic (sql_delete_where env t c v))"
  by (auto simp: tables_only_def same_but_tables_def atomic_def sql_delete_where_def split: option.splits)

lemma tables_only_update_where: "tables_only (atomic (sql_update_where env t s c v))"
  by (auto simp: tables_only_def same_but_tables_def atomic_def sql_update_where_def split: option.splits)

lemma tables_only_select: "tables_only (atomic (sql_select env q))"
  by (auto simp: tables_only_def same_but_tables_def atomic_def sql_select_def split: option.splits)

lemma tables_only_count: "tables_only (count_references env t u)"
  unfolding count_references_def
  by (rule tables_only_and_then[OF tables_only_select]) (simp add: tables_only_def)

section \<open>Blocked user deletion and the rollback of a failed download\<close>

text \<open>
  Claim C9. When a visit or a form response that is not soft-deleted refers to the user,
  \<open>deleteUser\<close> throws and the process is exactly as before: no row of any table is
  changed and no outbox entry is created. Unless the engine rejects \<open>BEGIN\<close> or one of
  the two counting queries, the error is the business-rule error. The store is taken
  between operations, with no transaction open.
\<close>

theorem deleteUser_blocked:
  assumes "txn w = None"
    and "(\<exists>r \<in> set (tbl (cur w) Visits). col r ''user_id'' = VInt userId \<and> col r ''deleted_at'' = VNull) \<or>
         (\<exists>r \<in> set (tbl (cur w) FormResponses). col r ''user_id'' = VInt userId \<and> col r ''deleted_at'' = VNull)"
  shows "(\<exists>e. deleteUser env userId w = (Inl e, w)) \<and>
         (fault env Begin (cur w) = None \<and> fault env (Select ''COUNT visits'') (cur w) = None \<and>
          fault env (Select ''COUNT form_responses'') (cur w) = None
          \<longrightarrow> deleteUser env userId w =
                (Inl (AppError ''Cannot delete user with associated visits or form responses. Consider deactivating the user instead.''), w))"
proof -
  let ?w1 = "w\<lparr>txn := Some (cur w)\<rparr>"
  let ?n = "\<lambda>t. length (filter (\<lambda>r. sql_eq (col r ''user_id'') (VInt userId) \<and> col r ''deleted_at'' = VNull) (tbl (cur w) t))"
  have restore: "?w1\<lparr>cur := cur w, txn := None\<rparr> = w" using assms(1) by simp
  have pos: "?n Visits > 0 \<or> ?n FormResponses > 0"
    using assms(2) by (auto simp: sql_eq_def filter_empty_conv)
  show ?thesis
    using assms(1) pos restore
    by (auto simp: deleteUser_def try_catch_def and_then_def atomic_def sql_begin_def rejected_def
        count_references_def sql_select_def rollback_and_rethrow_def sql_rollback_def throw_def
        split: option.splits)
qed

lemma tables_only_insert_record: "tables_only (insert_record env t r)"
  unfolding insert_record_def
  by (rule tables_only_and_then[OF tables_only_insert]) simp

lemma tables_only_download_table: "tables_only (download_table env tc)"
  unfolding download_table_def
  by (auto split: sum.splits
      intro!: tables_only_and_then tables_only_for_each tables_only_insert_record
        tables_only_delete_all)

lemma tables_only_download_loop: "tables_only (download_loop env)"
  unfolding download_loop_def
  by (rule tables_only_for_each) (rule tables_only_download_table)

text \<open>
  Claim C3. \<open>downloadUpdates\<close> passes its guards and opens its transaction on a store
  with no transaction open. If the loop over the tables then throws, at whichever table
  and whether on the remote fetch or on a local write, \<open>downloadUpdates\<close> throws the same
  error and the process is where it started, with every table as before the download:
  the writes made for the earlier tables are rolled back. (The flags are cleared by the
  \<open>finally\<close>.)
\<close>

theorem download_failure_rolls_back:
  assumes "\<not> web env" and "\<not> syncInProgress w" and "isOnline env"
    and "txn w = None"
    and "fault env Begin (cur w) = None"
    and "download_loop env (w\<lparr>syncInProgress := True, globalTransaction := True,
                               txn := Some (cur w)\<rparr>) = (Inl e, w2)"
  shows "downloadUpdates env w = (Inl e, w\<lparr>globalTransaction := False\<rparr>)"
proof -
  let ?w0 = "w\<lparr>syncInProgress := True, globalTransaction := True\<rparr>"
  let ?w1 = "w\<lparr>syncInProgress := True, globalTransaction := True, txn := Some (cur w)\<rparr>"
  have b: "atomic (sql_begin env) ?w0 = (Inr (), ?w1)"
    using assms(4,5) by (simp add: atomic_def sql_begin_def rejected_def)
  from tables_onlyD[OF tables_only_download_loop assms(6)]
  have same: "same_but_tables ?w1 w2" .
  then have t2: "txn w2 = Some (cur w)" by (simp add: same_but_tables_def)
  have "w2\<lparr>cur := cur w, txn := None, globalTransaction := False, syncInProgress := False\<rparr>
          = w\<lparr>globalTransaction := False\<rparr>"
    using same assms(2,4) by (simp add: same_but_tables_def)
  then show ?thesis
    using assms(1,2,3,6) b t2
    by (simp add: downloadUpdates_def download_body_def finally_do_def try_catch_def
        and_then_def atomic_def sql_rollback_def throw_def ret_def)
qed

lemma for_each_fails:
  assumes "x \<in> set xs" and "\<And>w. \<exists>e. f x w = (Inl e, w)"
  shows "\<exists>e w'. for_each f xs w = (Inl e, w')"
  using assms(1)
proof (induction xs arbitrary: w)
  case Nil
  then show ?case by simp
next
  case (Cons y ys)
  show ?case
  proof (cases "f y w")
    case (Pair r w1)
    show ?thesis
    proof (cases r)
      case (Inl e)
      with Pair show ?thesis by (simp add: and_then_def)
    next
      case (Inr u)
      with Pair assms(2)[of w] have "x \<noteq> y" by auto
      with Cons.prems have "x \<in> set ys" by simp
      from Cons.IH[OF this, of w1] Pair Inr show ?thesis by (simp add: and_then_def)
    qed
  qed
qed

text \<open>
  A failed fetch of any table makes the loop throw, whatever came before.
\<close>

lemma fetch_failure_fails_loop:
  assumes "remote_rows env t = Inl m"
  shows "\<exists>e w'. download_loop env w = (Inl e, w')"
proof -
  obtain c where c: "(t, c) \<in> set tables" by (cases t) (auto simp: tables_def)
  have "\<And>w. \<exists>e. download_table env (t, c) w = (Inl e, w)"
    using assms by (simp add: download_table_def remote_select_def)
  from for_each_fails[of "(t, c)" tables "download_table env", OF c this]
  show ?thesis by (simp add: download_loop_def)
qed

section \<open>Mutations write locally, then enqueue\<close>

lemma and_then_assoc: "and_then (and_then m f) g = and_then m (\<lambda>x. and_then (f x) g)"
  by (rule ext) (simp add: and_then_def split: prod.splits sum.splits)

lemma and_then_ret_left [simp]: "and_then (ret x) f = f x"
  by (rule ext) (simp add: and_then_def ret_def)

lemma and_then_ret_unit [simp]: "and_then (m :: unit action) (\<lambda>_. ret ()) = m"
  by (rule ext) (simp add: and_then_def ret_def split: prod.splits sum.splits)

lemma rollback_and_rethrow_eq:
  "rollback_and_rethrow = (\<lambda>e. and_then (atomic sql_rollback) (\<lambda>_. throw e))"
  by (rule ext) (simp add: rollback_and_rethrow_def)

lemma createUser_mutation:
  "createUser env username password isAdmin active =
     mutation env
       (atomic (sql_insert env Abort Users
                    [(''username'', VText username), (''password'', VText password),
                     (''is_admin'', flag isAdmin), (''active'', flag active)]))
       (\<lambda>userId. addToSyncQueue env ''users'' (js_toString userId) INSERT
                    [(''username'', VText username), (''password'', VText password),
                     (''is_admin'', VBool isAdmin), (''active'', VBool active),
                     (''created_at'', VText (iso_now env)),
                     (''updated_at'', VText (iso_now env))])
       (\<lambda>e. AppError ''Failed to create user. Username might already exist.'')"
  by (simp add: createUser_def mutation_def)

lemma startVisit_mutation:
  "startVisit env userId companyId roleId latitude longitude noGpsSignal =
     mutation env
       (atomic (sql_insert env Abort Visits
                    [(''user_id'', VInt userId), (''company_id'', VInt companyId),
                     (''role_id'', VInt roleId), (''start_time'', VText (sql_now env)),
                     (''latitude'', latitude), (''longitude'', longitude),
                     (''no_gps_signal'', flag noGpsSignal)]))
       (\<lambda>visitId. addToSyncQueue env ''visits'' (js_toString visitId) INSERT
                    [(''user_id'', VInt userId), (''company_id'', VInt companyId),
                     (''role_id'', VInt roleId), (''start_time'', VText (iso_now env)),
                     (''latitude'', latitude), (''longitude'', longitude),
                     (''no_gps_signal'', VBool noGpsSignal),
                     (''created_at'', VText (iso_now env)),
                     (''updated_at'', VText (iso_now env))])
       (\<lambda>e. e)"
  by (simp add: startVisit_def mutation_def rollback_and_rethrow_eq)

lemma createForm_mutation:
  "createForm env name description formFields companyIds =
     mutation env (form_rows env name description formFields companyIds)
       (\<lambda>formId. if \<not> web env
                  then addToSyncQueue env ''forms'' (js_toString formId) INSERT
                         [(''name'', VText name), (''description'', VText description),
                          (''created_at'', VText (iso_now env)),
                          (''updated_at'', VText (iso_now env))]
                  else ret ())
       (\<lambda>e. e)"
  by (simp add: createForm_def mutation_def form_rows_def rollback_and_rethrow_eq and_then_assoc)

lemma mutation_cases:
  assumes body: "tables_only body"
    and enq1: "\<forall>x w e w''. enq x w = (Inl e, w'') \<longrightarrow> w'' = w"
    and enq2: "\<forall>x w r w''. enq x w = (r, w'') \<longrightarrow> txn w'' = txn w"
    and idle: "txn w = None"
    and run: "mutation env body enq g w = (res, w')"
  shows "(\<exists>e. res = Inl e \<and> w' = w) \<or>
         (\<exists>x w1 e e'. body (w\<lparr>txn := Some (cur w)\<rparr>) = (Inr x, w1) \<and>
            fault env Commit (cur w1) = None \<and>
            enq x (w1\<lparr>txn := None\<rparr>) = (Inl e', w1\<lparr>txn := None\<rparr>) \<and>
            res = Inl e \<and> w' = w1\<lparr>txn := None\<rparr>) \<or>
         (\<exists>x w1. body (w\<lparr>txn := Some (cur w)\<rparr>) = (Inr x, w1) \<and>
            fault env Commit (cur w1) = None \<and>
            enq x (w1\<lparr>txn := None\<rparr>) = (Inr (), w') \<and> res = Inr x)"
    (is "?A \<or> ?B \<or> ?C")
proof -
  let ?w1 = "w\<lparr>txn := Some (cur w)\<rparr>"
  have restore: "\<And>w1. same_but_tables ?w1 w1 \<Longrightarrow> w1\<lparr>cur := cur w, txn := None\<rparr> = w"
    using idle by (simp add: same_but_tables_def)
  from run[unfolded mutation_def] show ?thesis
  proof (cases rule: try_catchE)
    case (ok x)
    from ok(1) show ?thesis
    proof (cases rule: and_thenE)
      case (fail e)
      with ok(2) show ?thesis by simp
    next
      case (ok u wb)
      from ok(1) have wb: "wb = ?w1"
        by (auto elim!: atomicE simp: sql_begin_Inr)
      from ok(2) show ?thesis
      proof (cases rule: and_thenE)
        case (fail e)
        with \<open>res = Inr x\<close> show ?thesis by simp
      next
        case (ok y w1)
        from ok(2) show ?thesis
        proof (cases rule: and_thenE)
          case (fail e)
          with \<open>res = Inr x\<close> show ?thesis by simp
        next
          case (ok u2 wc)
          from ok(1) have wc: "wc = w1\<lparr>txn := None\<rparr>" "fault env Commit (cur w1) = None"
            by (auto elim!: atomicE simp: sql_commit_Inr)
          from ok(2) have "enq y wc = (Inr (), w')" "x = y"
            using \<open>res = Inr x\<close>
            by (auto elim!: and_thenE)
          with wc wb \<open>body wb = (Inr y, w1)\<close> \<open>res = Inr x\<close> have ?C by auto
          then show ?thesis by blast
        qed
      qed
    qed
  next
    case (caught e wf)
    from caught(1) show ?thesis
    proof (cases rule: and_thenE)
      case (fail e0)
      then have "wf = w" by (auto elim!: atomicE)
      with caught(2) idle have "w' = w" "\<exists>e. res = Inl e"
        by (auto elim!: and_thenE atomicE simp: sql_rollback_Inl sql_rollback_Inr)
      then have ?A by auto
      then show ?thesis by blast
    next
      case (ok u wb)
      from ok(1) have wb: "wb = ?w1"
        by (auto elim!: atomicE simp: sql_begin_Inr)
      from ok(2) show ?thesis
      proof (cases rule: and_thenE)
        case (fail e0)
        with wb have "same_but_tables ?w1 wf" using tables_onlyD[OF body] by blast
        from restore[OF this] this caught(2) have "w' = w" "\<exists>e. res = Inl e"
          by (auto elim!: and_thenE atomicE simp: sql_rollback_Inl sql_rollback_Inr same_but_tables_def)
        then have ?A by auto
      then show ?thesis by blast
      next
        case (ok y w1)
        with wb have b: "body ?w1 = (Inr y, w1)" by simp
        then have same: "same_but_tables ?w1 w1" using tables_onlyD[OF body] by blast
        from ok(2) show ?thesis
        proof (cases rule: and_thenE)
          case (fail e0)
          then have "wf = w1" by (auto elim!: atomicE)
          with restore[OF same] same caught(2) have "w' = w" "\<exists>e. res = Inl e"
            by (auto elim!: and_thenE atomicE simp: sql_rollback_Inl sql_rollback_Inr same_but_tables_def)
          then have ?A by auto
      then show ?thesis by blast
        next
          case (ok u2 wc)
          from ok(1) have wc: "wc = w1\<lparr>txn := None\<rparr>" "fault env Commit (cur w1) = None"
            by (auto elim!: atomicE simp: sql_commit_Inr)
          from ok(2) obtain e' where e': "enq y wc = (Inl e', wf)"
            by (auto elim!: and_thenE)
          from enq1 e' have wf: "wf = wc" by blast
          with wc caught(2) have "w' = wc" "\<exists>e. res = Inl e"
            by (auto elim!: and_thenE atomicE simp: sql_rollback_Inl sql_rollback_Inr)
          with b wc e' wf have ?B by auto
          then show ?thesis by blast
        qed
      qed
    qed
  qed
qed

lemma no_conflict_filter:
  "\<not> list_ex (conflicts t r) rows \<Longrightarrow> filter (\<lambda>x. \<not> conflicts t r x) rows = rows"
  by (induction rows) auto

lemma insert_abort_ok:
  assumes "atomic (sql_insert env Abort t r) w = (Inr v, w')"
  shows "tbl (cur w') t = tbl (cur w) t @ [new_row env (cur w) t r]"
    and "v = col (new_row env (cur w) t r) ''id''"
    and "t' \<noteq> t \<Longrightarrow> tbl (cur w') t' = tbl (cur w) t'"
  using assms
  by (auto simp: atomic_def sql_insert_def Let_def no_conflict_filter
      split: option.splits if_splits sum.splits)

lemma insert_other:
  assumes "atomic (sql_insert env mode t r) w = (res, w')" "t' \<noteq> t"
  shows "tbl (cur w') t' = tbl (cur w) t'"
  using assms
  by (auto simp: atomic_def sql_insert_def Let_def split: option.splits if_splits sum.splits)

lemma enqueue_fail: "addToSyncQueue env t rid opn d w = (Inl e, w'') \<Longrightarrow> w'' = w"
  by (auto simp: addToSyncQueue_def Let_def split: if_splits option.splits)

lemma enqueue_txn: "addToSyncQueue env t rid opn d w = (r, w'') \<Longrightarrow> txn w'' = txn w"
  by (auto simp: addToSyncQueue_def Let_def split: if_splits option.splits)

lemma enqueue_ok:
  assumes "addToSyncQueue env t rid opn d w = (Inr (), w')" "\<not> web env"
  shows "sync_queue (cur w') = sync_queue (cur w) @ [enqueue_row env (cur w) t rid opn d]"
    and "tbl (cur w') = tbl (cur w)"
  using assms by (auto simp: addToSyncQueue_def Let_def split: if_splits option.splits)

lemma outcome_of_mutation:
  assumes idle: "txn w = None" and nw: "\<not> web env"
    and body: "tables_only body"
    and added: "\<forall>w0 v w1. body w0 = (Inr v, w1) \<longrightarrow>
                 (\<exists>r. tbl (cur w1) t = tbl (cur w0) t @ [r] \<and> col r ''id'' = v)"
    and run: "mutation env body (\<lambda>x. addToSyncQueue env name (js_toString x) INSERT d) g w
                = (res, w')"
  shows "case res of
           Inr v \<Rightarrow> row_added w w' t v \<and> enqueued_for w w' name v
         | Inl e \<Rightarrow> sync_queue (cur w') = sync_queue (cur w) \<and>
                   (w' = w \<or> (\<exists>v. row_added w w' t v))"
proof -
  let ?w0 = "w\<lparr>txn := Some (cur w)\<rparr>"
  have e1: "\<forall>x w e w''. addToSyncQueue env name (js_toString x) INSERT d w = (Inl e, w'') \<longrightarrow> w'' = w"
    using enqueue_fail by blast
  have e2: "\<forall>x w r w''. addToSyncQueue env name (js_toString x) INSERT d w = (r, w'') \<longrightarrow> txn w'' = txn w"
    using enqueue_txn by blast
  from mutation_cases[OF body e1 e2 idle run]
  consider (1) e where "res = Inl e" "w' = w"
    | (2) x w1 e where "body ?w0 = (Inr x, w1)"
        "res = Inl e" "w' = w1\<lparr>txn := None\<rparr>"
    | (3) x w1 where "body ?w0 = (Inr x, w1)"
        "addToSyncQueue env name (js_toString x) INSERT d (w1\<lparr>txn := None\<rparr>) = (Inr (), w')"
        "res = Inr x"
    by blast
  then show ?thesis
  proof cases
    case 1
    then show ?thesis by simp
  next
    case 2
    from added 2(1) obtain r where "tbl (cur w1) t = tbl (cur ?w0) t @ [r]" "col r ''id'' = x"
      by blast
    with tables_onlyD[OF body 2(1)]
    show ?thesis using 2(2,3)
      by (auto simp: row_added_def same_but_tables_def)
  next
    case 3
    from added 3(1) obtain r where r: "tbl (cur w1) t = tbl (cur ?w0) t @ [r]" "col r ''id'' = x"
      by blast
    note sb = tables_onlyD[OF body 3(1)]
    note enq = enqueue_ok[OF 3(2) nw]
    have "row_added w w' t x" using r enq by (auto simp: row_added_def)
    moreover have "enqueued_for w w' name x"
      using enq sb by (simp add: enqueued_for_def enqueue_row_def same_but_tables_def)
    ultimately show ?thesis using 3(3) by simp
  qed
qed

lemma insert_adds_row:
  "\<forall>w0 v w1. atomic (sql_insert env Abort t r) w0 = (Inr v, w1) \<longrightarrow>
     (\<exists>x. tbl (cur w1) t = tbl (cur w0) t @ [x] \<and> col x ''id'' = v)"
  using insert_abort_ok(1,2) by blast

lemma for_each_other_table:
  assumes "\<And>x w r w'. f x w = (r, w') \<Longrightarrow> tbl (cur w') t = tbl (cur w) t"
  shows "for_each f xs w = (r, w') \<Longrightarrow> tbl (cur w') t = tbl (cur w) t"
proof (induction xs arbitrary: w)
  case Nil
  then show ?case by simp
next
  case (Cons x xs)
  from Cons.prems have "and_then (f x) (\<lambda>_. for_each f xs) w = (r, w')" by simp
  then show ?case
  proof (cases rule: and_thenE)
    case (fail e)
    then show ?thesis using assms by blast
  next
    case (ok u w1)
    from assms[OF ok(1)] Cons.IH[OF ok(2)] show ?thesis by simp
  qed
qed

lemma insert_field_other:
  "insert_field env v fld w = (r, w') \<Longrightarrow> tbl (cur w') Forms = tbl (cur w) Forms"
  unfolding insert_field_def
  by (erule and_thenE) (auto dest: insert_other[where t' = Forms])

lemma insert_form_company_other:
  "insert_form_company env v c w = (r, w') \<Longrightarrow> tbl (cur w') Forms = tbl (cur w) Forms"
  unfolding insert_form_company_def
  by (erule and_thenE) (auto dest: insert_other[where t' = Forms])

lemma tables_only_form_rows: "tables_only (form_rows env n d fs cs)"
  unfolding form_rows_def insert_field_def insert_form_company_def
  by (intro tables_only_and_then tables_only_for_each tables_only_insert tables_only_ret)

lemma form_rows_add_row:
  "\<forall>w0 v w1. form_rows env n d fs cs w0 = (Inr v, w1) \<longrightarrow>
     (\<exists>x. tbl (cur w1) Forms = tbl (cur w0) Forms @ [x] \<and> col x ''id'' = v)"
proof (intro allI impI)
  fix w0 v w1
  assume "form_rows env n d fs cs w0 = (Inr v, w1)"
  then obtain fid wa wb where
    ins: "atomic (sql_insert env Abort Forms [(''name'', VText n), (''description'', VText d)]) w0
            = (Inr fid, wa)"
    and f: "for_each (insert_field env fid) fs wa = (Inr (), wb)"
    and c: "for_each (insert_form_company env fid) cs wb = (Inr (), w1)"
    and v: "v = fid"
    unfolding form_rows_def by (auto elim!: and_thenE)
  from for_each_other_table[OF insert_field_other f]
       for_each_other_table[OF insert_form_company_other c]
  have "tbl (cur w1) Forms = tbl (cur wa) Forms" by simp
  with insert_abort_ok(1,2)[OF ins] v
  show "\<exists>x. tbl (cur w1) Forms = tbl (cur w0) Forms @ [x] \<and> col x ''id'' = v" by auto
qed

lemma createForm_mutation_native:
  "\<not> web env \<Longrightarrow>
   createForm env name description formFields companyIds =
     mutation env (form_rows env name description formFields companyIds)
       (\<lambda>formId. addToSyncQueue env ''forms'' (js_toString formId) INSERT
                         [(''name'', VText name), (''description'', VText description),
                          (''created_at'', VText (iso_now env)),
                          (''updated_at'', VText (iso_now env))])
       (\<lambda>e. e)"
  by (simp add: createForm_mutation)

lemma outcome_of_mutation':
  assumes "txn w = None" and "\<not> web env" and "tables_only body"
    and "\<forall>w0 v w1. body w0 = (Inr v, w1) \<longrightarrow>
                 (\<exists>r. tbl (cur w1) t = tbl (cur w0) t @ [r] \<and> col r ''id'' = v)"
  shows "mutation_outcome w t name
           (mutation env body (\<lambda>x. addToSyncQueue env name (js_toString x) INSERT d) g w)"
proof -
  obtain res w' where
    run: "mutation env body (\<lambda>x. addToSyncQueue env name (js_toString x) INSERT d) g w = (res, w')"
    by (cases "mutation env body (\<lambda>x. addToSyncQueue env name (js_toString x) INSERT d) g w")
  from outcome_of_mutation[OF assms run] show ?thesis
    by (simp add: mutation_outcome_def run split: sum.splits)
qed


lemmas action_defs = and_then_def try_catch_def atomic_def ret_def throw_def finally_do_def
  rollback_and_rethrow_def

lemmas engine_defs = sql_begin_def sql_commit_def sql_rollback_def sql_insert_def
  sql_delete_all_def sql_delete_where_def sql_update_where_def sql_select_def rejected_def
  new_row_def fill_defaults_def default_val_def next_id_def int_ids_def rowid_table_def
  conflicts_def is_int_def the_int_def col_def stamps_def stamps_nn_def flag_def


lemma pair_collapse: "p = (fst p, snd p)"
  by simp


lemmas download_defs = downloadUpdates_def download_body_def download_loop_def
  download_table_def insert_record_def remote_select_def tables_def verify_counts_def isOnline_def

theorem download_failure_rolls_back_witness:
  "\<not> web ex_env_fetch_fails \<and> \<not> syncInProgress (ex_tables [(Users, [ex_local_user])]) \<and>
   isOnline ex_env_fetch_fails \<and> txn (ex_tables [(Users, [ex_local_user])]) = None \<and>
   fault ex_env_fetch_fails Begin (cur (ex_tables [(Users, [ex_local_user])])) = None \<and>
   fst (download_loop ex_env_fetch_fails
          ((ex_tables [(Users, [ex_local_user])])
             \<lparr>syncInProgress := True, globalTransaction := True,
              txn := Some (cur (ex_tables [(Users, [ex_local_user])]))\<rparr>))
     = Inl (RemoteError ''timeout'') \<and>
   map (\<lambda>r. col r ''id'')
     (tbl (cur (snd (download_loop ex_env_fetch_fails
          ((ex_tables [(Users, [ex_local_user])])
             \<lparr>syncInProgress := True, globalTransaction := True,
              txn := Some (cur (ex_tables [(Users, [ex_local_user])]))\<rparr>)))) Users) = [VInt 5] \<and>
   downloadUpdates ex_env_fetch_fails (ex_tables [(Users, [ex_local_user])])
     = (Inl (RemoteError ''timeout''),
        (ex_tables [(Users, [ex_local_user])])\<lparr>globalTransaction := False\<rparr>) \<and>
   tbl (cur (snd (downloadUpdates ex_env_fetch_fails (ex_tables [(Users, [ex_local_user])])))) Users
     = [ex_local_user]"
proof -
  let ?e = ex_env_fetch_fails
  let ?w = "ex_tables [(Users, [ex_local_user])]"
  let ?w1 = "?w\<lparr>syncInProgress := True, globalTransaction := True, txn := Some (cur ?w)\<rparr>"
  have h: "\<not> web ?e" "\<not> syncInProgress ?w" "isOnline ?e" "txn ?w = None"
    "fault ?e Begin (cur ?w) = None"
    by (simp_all add: ex_env_fetch_fails_def ex_env_def ex_tables_def isOnline_def)
  have l: "fst (download_loop ?e ?w1) = Inl (RemoteError ''timeout'')"
    "map (\<lambda>r. col r ''id'') (tbl (cur (snd (download_loop ?e ?w1))) Users) = [VInt 5]"
    by (simp_all add: download_defs ex_env_fetch_fails_def ex_env_def ex_tables_def
        ex_local_user_def action_defs engine_defs Let_def)
  have l': "download_loop ?e ?w1 = (Inl (RemoteError ''timeout''), snd (download_loop ?e ?w1))"
    using l(1) by (metis prod.collapse)
  note t = download_failure_rolls_back[OF h l']
  have "tbl (cur (snd (downloadUpdates ?e ?w))) Users = [ex_local_user]"
    using t by (simp add: ex_tables_def)
  with h l t show ?thesis by blast
qed

theorem deleteUser_blocked_witness:
  "txn ex_world_visit = None \<and>
   ex_visit \<in> set (tbl (cur ex_world_visit) Visits) \<and>
   col ex_visit ''user_id'' = VInt 1 \<and> col ex_visit ''deleted_at'' = VNull \<and>
   deleteUser ex_env 1 ex_world_visit =
     (Inl (AppError ''Cannot delete user with associated visits or form responses. Consider deactivating the user instead.''),
      ex_world_visit)"
proof -
  have h1: "txn ex_world_visit = None" by (simp add: ex_world_visit_def ex_tables_def)
  have v: "ex_visit \<in> set (tbl (cur ex_world_visit) Visits)"
    "col ex_visit ''user_id'' = VInt 1" "col ex_visit ''deleted_at'' = VNull"
    by (simp_all add: ex_world_visit_def ex_tables_def ex_visit_def col_def)
  then have h2: "(\<exists>r \<in> set (tbl (cur ex_world_visit) Visits). col r ''user_id'' = VInt 1 \<and> col r ''deleted_at'' = VNull) \<or>
         (\<exists>r \<in> set (tbl (cur ex_world_visit) FormResponses). col r ''user_id'' = VInt 1 \<and> col r ''deleted_at'' = VNull)"
    by blast
  have f: "fault ex_env Begin (cur ex_world_visit) = None"
    "fault ex_env (Select ''COUNT visits'') (cur ex_world_visit) = None"
    "fault ex_env (Select ''COUNT form_responses'') (cur ex_world_visit) = None"
    by (simp_all add: ex_env_def)
  from deleteUser_blocked[OF h1 h2, of ex_env] f h1 v show ?thesis by blast
qed

section \<open>A successful download\<close>

lemma conflicts_sym: "conflicts t a b \<Longrightarrow> conflicts t b a"
  by (auto simp: conflicts_def list_ex_iff) metis

lemma key_distinct_append:
  "key_distinct t (xs @ ys) \<longleftrightarrow>
     key_distinct t xs \<and> key_distinct t ys \<and> (\<forall>x \<in> set xs. \<forall>y \<in> set ys. \<not> conflicts t x y)"
  by (induction xs) (auto simp: list_ex_iff)

lemma insert_replace_ok:
  assumes "atomic (sql_insert env Replace t r) w = (Inr v, w')"
    and "col (fill_defaults env t r) ''id'' \<noteq> VNull"
  shows "tbl (cur w') t =
           filter (\<lambda>x. \<not> conflicts t (fill_defaults env t r) x) (tbl (cur w) t)
           @ [fill_defaults env t r]"
  using assms
  by (auto simp: atomic_def sql_insert_def new_row_def Let_def
      split: option.splits if_splits sum.splits)

lemma insert_record_ok:
  assumes "insert_record env t r w = (Inr (), w')"
    and "col (localise env t r) ''id'' \<noteq> VNull"
    and "\<forall>x \<in> set (tbl (cur w) t). \<not> conflicts t x (localise env t r)"
  shows "tbl (cur w') t = tbl (cur w) t @ [localise env t r]"
proof -
  from assms(1) obtain v where
    ins: "atomic (sql_insert env Replace t (filter (\<lambda>(k, v). v \<noteq> VNull) r)) w = (Inr v, w')"
    unfolding insert_record_def by (auto elim!: and_thenE)
  have "filter (\<lambda>x. \<not> conflicts t (localise env t r) x) (tbl (cur w) t) = tbl (cur w) t"
    using assms(3) by (auto simp: filter_id_conv dest: conflicts_sym)
  with insert_replace_ok[OF ins] assms(2) show ?thesis by (simp add: localise_def)
qed

lemma insert_records_ok:
  "for_each (insert_record env t) rs w = (Inr (), w') \<Longrightarrow>
   \<forall>r \<in> set rs. col (localise env t r) ''id'' \<noteq> VNull \<Longrightarrow>
   key_distinct t (tbl (cur w) t @ map (localise env t) rs) \<Longrightarrow>
   tbl (cur w') t = tbl (cur w) t @ map (localise env t) rs"
proof (induction rs arbitrary: w)
  case Nil
  then show ?case by simp
next
  case (Cons r rs)
  from Cons.prems(1) have "and_then (insert_record env t r) (\<lambda>_. for_each (insert_record env t) rs) w = (Inr (), w')"
    by simp
  then obtain w1 where
    one: "insert_record env t r w = (Inr (), w1)"
    and rest: "for_each (insert_record env t) rs w1 = (Inr (), w')"
    by (auto elim!: and_thenE)
  from Cons.prems(3) have nc: "\<forall>x \<in> set (tbl (cur w) t). \<not> conflicts t x (localise env t r)"
    by (simp add: key_distinct_append)
  from insert_record_ok[OF one _ nc] Cons.prems(2)
  have t1: "tbl (cur w1) t = tbl (cur w) t @ [localise env t r]" by simp
  have kd: "key_distinct t (tbl (cur w1) t @ map (localise env t) rs)"
    using Cons.prems(3) by (simp add: t1)
  from Cons.IH[OF rest _ kd] Cons.prems(2) t1 show ?case by simp
qed

lemma download_table_own:
  assumes "download_table env (t, True) w = (Inr (), w')"
    and "remote_select env t = Inr fetched"
  shows "fetched = [] \<longrightarrow> w' = w"
    and "fetched \<noteq> [] \<and> (\<forall>r \<in> set fetched. col (localise env t r) ''id'' \<noteq> VNull) \<and>
         key_distinct t (map (localise env t) fetched)
         \<longrightarrow> tbl (cur w') t = map (localise env t) fetched"
proof -
  show "fetched = [] \<longrightarrow> w' = w"
    using assms by (auto simp: download_table_def)
  show "fetched \<noteq> [] \<and> (\<forall>r \<in> set fetched. col (localise env t r) ''id'' \<noteq> VNull) \<and>
         key_distinct t (map (localise env t) fetched)
         \<longrightarrow> tbl (cur w') t = map (localise env t) fetched"
  proof (intro impI, elim conjE)
    assume ne: "fetched \<noteq> []"
      and ids: "\<forall>r \<in> set fetched. col (localise env t r) ''id'' \<noteq> VNull"
      and kd: "key_distinct t (map (localise env t) fetched)"
    from assms ne obtain w1 where
      del: "atomic (sql_delete_all env t) w = (Inr (), w1)"
      and ins: "for_each (insert_record env t) fetched w1 = (Inr (), w')"
      by (auto simp: download_table_def elim!: and_thenE)
    from del have e: "tbl (cur w1) t = []"
      by (auto simp: atomic_def sql_delete_all_def split: option.splits)
    from insert_records_ok[OF ins ids] kd e
    show "tbl (cur w') t = map (localise env t) fetched" by simp
  qed
qed

lemma insert_record_other:
  "insert_record env t' r w = (res, w') \<Longrightarrow> t' \<noteq> t \<Longrightarrow> tbl (cur w') t = tbl (cur w) t"
  unfolding insert_record_def
  by (erule and_thenE) (auto dest: insert_other)

lemma for_each_other:
  "for_each f xs w = (r, w') \<Longrightarrow>
   \<forall>x \<in> set xs. \<forall>w r w'. f x w = (r, w') \<longrightarrow> tbl (cur w') t = tbl (cur w) t \<Longrightarrow>
   tbl (cur w') t = tbl (cur w) t"
proof (induction xs arbitrary: w)
  case Nil
  then show ?case by simp
next
  case (Cons x xs)
  from Cons.prems(1) have "and_then (f x) (\<lambda>_. for_each f xs) w = (r, w')" by simp
  then show ?case
  proof (cases rule: and_thenE)
    case (fail e)
    then show ?thesis using Cons.prems(2) by simp
  next
    case (ok u w1)
    have "tbl (cur w1) t = tbl (cur w) t" using Cons.prems(2) ok(1) by simp
    moreover have "tbl (cur w') t = tbl (cur w1) t"
      using Cons.IH[OF ok(2)] Cons.prems(2) by simp
    ultimately show ?thesis by simp
  qed
qed

lemma download_table_other:
  assumes "download_table env tc w = (r, w')" "fst tc \<noteq> t"
  shows "tbl (cur w') t = tbl (cur w) t"
proof (cases "remote_select env (fst tc)")
  case (Inl m)
  with assms show ?thesis by (simp add: download_table_def)
next
  case (Inr fetched)
  show ?thesis
  proof (cases "fetched = []")
    case True
    with Inr assms show ?thesis by (simp add: download_table_def)
  next
    case False
    with Inr assms(1) have
      run: "and_then (if snd tc then atomic (sql_delete_all env (fst tc)) else ret ())
              (\<lambda>_. for_each (insert_record env (fst tc)) fetched) w = (r, w')"
      by (simp add: download_table_def)
    have del: "\<And>w r w'. (if snd tc then atomic (sql_delete_all env (fst tc)) else ret ()) w = (r, w')
                \<Longrightarrow> tbl (cur w') t = tbl (cur w) t"
      using assms(2)
      by (auto simp: atomic_def sql_delete_all_def split: option.splits if_splits)
    from run show ?thesis
    proof (cases rule: and_thenE)
      case (fail e)
      then show ?thesis using del by blast
    next
      case (ok u w1)
      have "tbl (cur w') t = tbl (cur w1) t"
        by (rule for_each_other[OF ok(2)]) (auto dest: insert_record_other[OF _ assms(2)])
      with del[OF ok(1)] show ?thesis by simp
    qed
  qed
qed

lemma for_each_append:
  "for_each f (xs @ ys) w = (Inr (), w') \<longleftrightarrow>
     (\<exists>w1. for_each f xs w = (Inr (), w1) \<and> for_each f ys w1 = (Inr (), w'))"
proof (induction xs arbitrary: w)
  case Nil
  then show ?case by simp
next
  case (Cons x xs)
  show ?case
    by (cases "f x w") (auto simp: and_then_def Cons.IH split: sum.splits)
qed

lemma loop_at_table:
  assumes "for_each (download_table env) (pre @ (t, c) # post) w = (Inr (), w')"
    and "t \<notin> fst ` set pre" and "t \<notin> fst ` set post"
  shows "\<exists>w1 w2. tbl (cur w1) t = tbl (cur w) t \<and> download_table env (t, c) w1 = (Inr (), w2) \<and>
           tbl (cur w') t = tbl (cur w2) t"
proof -
  from assms(1) obtain w1 where
    p: "for_each (download_table env) pre w = (Inr (), w1)"
    and r: "for_each (download_table env) ((t, c) # post) w1 = (Inr (), w')"
    by (auto simp: for_each_append)
  from r have "and_then (download_table env (t, c)) (\<lambda>_. for_each (download_table env) post) w1 = (Inr (), w')"
    by simp
  then obtain w2 where
    s: "download_table env (t, c) w1 = (Inr (), w2)"
    and q: "for_each (download_table env) post w2 = (Inr (), w')"
    by (auto elim!: and_thenE)
  have "tbl (cur w1) t = tbl (cur w) t"
    by (rule for_each_other[OF p]) (use assms(2) in \<open>auto dest!: download_table_other[where t = t]\<close>)
  moreover have "tbl (cur w') t = tbl (cur w2) t"
    by (rule for_each_other[OF q]) (use assms(3) in \<open>auto dest!: download_table_other[where t = t]\<close>)
  ultimately show ?thesis using s by blast
qed

lemma replace_table_split:
  assumes "(t, True) \<in> set tables"
  shows "\<exists>pre post. tables = pre @ (t, True) # post \<and> t \<notin> fst ` set pre \<and> t \<notin> fst ` set post"
proof -
  from assms consider "t = Users" | "t = Companies" | "t = Roles" | "t = Forms"
    by (auto simp: tables_def)
  then show ?thesis
  proof cases
    case 1
    have "tables = [] @ (Users, True) # tl tables" by (simp add: tables_def)
    moreover have "Users \<notin> fst ` set (tl tables)" by (simp add: tables_def)
    ultimately show ?thesis using 1 by (metis empty_iff empty_set image_empty)
  next
    case 2
    have "tables = take 1 tables @ (Companies, True) # drop 2 tables" by (simp add: tables_def)
    moreover have "Companies \<notin> fst ` set (take 1 tables)" "Companies \<notin> fst ` set (drop 2 tables)"
      by (simp_all add: tables_def)
    ultimately show ?thesis using 2 by metis
  next
    case 3
    have "tables = take 2 tables @ (Roles, True) # drop 3 tables" by (simp add: tables_def)
    moreover have "Roles \<notin> fst ` set (take 2 tables)" "Roles \<notin> fst ` set (drop 3 tables)"
      by (simp_all add: tables_def)
    ultimately show ?thesis using 3 by metis
  next
    case 4
    have "tables = take 5 tables @ (Forms, True) # drop 6 tables" by (simp add: tables_def)
    moreover have "Forms \<notin> fst ` set (take 5 tables)" "Forms \<notin> fst ` set (drop 6 tables)"
      by (simp_all add: tables_def)
    ultimately show ?thesis using 4 by metis
  qed
qed

lemma for_each_cur:
  "for_each f xs w = (r, w') \<Longrightarrow>
   \<forall>x \<in> set xs. \<forall>w r w'. f x w = (r, w') \<longrightarrow> cur w' = cur w \<Longrightarrow>
   cur w' = cur w"
proof (induction xs arbitrary: w)
  case Nil
  then show ?case by simp
next
  case (Cons x xs)
  from Cons.prems(1) have "and_then (f x) (\<lambda>_. for_each f xs) w = (r, w')" by simp
  then show ?case
  proof (cases rule: and_thenE)
    case (fail e)
    then show ?thesis using Cons.prems(2) by simp
  next
    case (ok u w1)
    have "cur w1 = cur w" using Cons.prems(2) ok(1) by simp
    moreover have "cur w' = cur w1"
      using Cons.IH[OF ok(2)] Cons.prems(2) by simp
    ultimately show ?thesis by simp
  qed
qed

lemma try_catch_rethrow_Inr:
  "try_catch m (\<lambda>e. and_then k (\<lambda>_. throw e)) w = (Inr x, w') \<Longrightarrow> m w = (Inr x, w')"
  by (auto simp: try_catch_def and_then_def throw_def split: prod.splits sum.splits)

lemma verify_counts_cur: "verify_counts env w = (r, w') \<Longrightarrow> cur w' = cur w"
  unfolding verify_counts_def
  by (erule for_each_cur) (auto elim!: atomicE simp: sql_select_Inr)

lemma download_success_loop:
  assumes "\<not> web env" and "\<not> syncInProgress w" and "isOnline env"
    and "downloadUpdates env w = (Inr (), w')"
  shows "\<exists>w1 w2. cur w1 = cur w \<and> download_loop env w1 = (Inr (), w2) \<and> cur w' = cur w2"
proof -
  let ?w0 = "w\<lparr>syncInProgress := True, globalTransaction := True\<rparr>"
  let ?seq = "and_then (atomic (sql_begin env)) (\<lambda>_.
           and_then (download_loop env) (\<lambda>_.
           and_then (atomic (sql_commit env)) (\<lambda>_.
           verify_counts env)))"
  let ?h = "\<lambda>e. and_then (try_catch (atomic sql_rollback) (\<lambda>_. ret ())) (\<lambda>_. throw e)"
  from assms have "download_body env ?w0 = (Inr (), w')"
    by (simp add: downloadUpdates_def)
  then have "\<exists>wz. try_catch ?seq ?h ?w0 = (Inr (), wz) \<and>
               w' = wz\<lparr>globalTransaction := False, syncInProgress := False\<rparr>"
    unfolding download_body_def finally_do_def
    by (cases "try_catch ?seq ?h ?w0") simp
  then obtain wz where
    tc: "try_catch ?seq ?h ?w0 = (Inr (), wz)"
    and fin: "w' = wz\<lparr>globalTransaction := False, syncInProgress := False\<rparr>"
    by blast
  from try_catch_rethrow_Inr[OF tc] have ok: "?seq ?w0 = (Inr (), wz)" .
  from ok obtain w1 where
    b: "atomic (sql_begin env) ?w0 = (Inr (), w1)"
    and r1: "and_then (download_loop env) (\<lambda>_.
           and_then (atomic (sql_commit env)) (\<lambda>_. verify_counts env)) w1 = (Inr (), wz)"
    by (rule and_thenE) auto
  from r1 obtain w2 where
    l: "download_loop env w1 = (Inr (), w2)"
    and r2: "and_then (atomic (sql_commit env)) (\<lambda>_. verify_counts env) w2 = (Inr (), wz)"
    by (rule and_thenE) auto
  from r2 obtain w3 where
    c: "atomic (sql_commit env) w2 = (Inr (), w3)"
    and v: "verify_counts env w3 = (Inr (), wz)"
    by (rule and_thenE) auto
  from b have 1: "cur w1 = cur w" by (auto elim!: atomicE simp: sql_begin_Inr)
  from c have 3: "cur w3 = cur w2" by (auto elim!: atomicE simp: sql_commit_Inr)
  from verify_counts_cur[OF v] fin 3 have "cur w' = cur w2" by simp
  with 1 l show ?thesis by blast
qed

text \<open>
  Claim C2, amended. \<open>downloadUpdates\<close> passes its guards and returns normally. For each
  replace table (users, companies, roles, forms): if the remote returned no active row,
  the local table is as it was before; if it returned at least one, and the fetched rows
  carry ids and do not collide on a key, the local table holds exactly the fetched rows,
  in order, each stored with its non-null columns and the schema's defaults elsewhere.
\<close>

theorem download_replaces_nonempty_tables:
  assumes "\<not> web env" and "\<not> syncInProgress w" and "isOnline env"
    and "downloadUpdates env w = (Inr (), w')"
    and "(t, True) \<in> set tables"
    and "remote_select env t = Inr fetched"
  shows "(fetched = [] \<longrightarrow> tbl (cur w') t = tbl (cur w) t) \<and>
         (fetched \<noteq> [] \<and> (\<forall>r \<in> set fetched. col (localise env t r) ''id'' \<noteq> VNull) \<and>
          key_distinct t (map (localise env t) fetched)
          \<longrightarrow> tbl (cur w') t = map (localise env t) fetched)"
proof -
  from download_success_loop[OF assms(1-4)] obtain w1 w2 where
    s: "cur w1 = cur w" "download_loop env w1 = (Inr (), w2)" "cur w' = cur w2" by blast
  from replace_table_split[OF assms(5)] obtain pre post where
    sp: "tables = pre @ (t, True) # post" "t \<notin> fst ` set pre" "t \<notin> fst ` set post" by blast
  from s(2) have "for_each (download_table env) (pre @ (t, True) # post) w1 = (Inr (), w2)"
    by (simp add: download_loop_def sp(1))
  from loop_at_table[OF this sp(2,3)] obtain wa wb where
    at: "tbl (cur wa) t = tbl (cur w1) t" "download_table env (t, True) wa = (Inr (), wb)"
        "tbl (cur w2) t = tbl (cur wb) t" by blast
  note own = download_table_own[OF at(2) assms(6)]
  from own(1) at s have a: "fetched = [] \<longrightarrow> tbl (cur w') t = tbl (cur w) t" by auto
  from own(2) at s have b: "fetched \<noteq> [] \<and> (\<forall>r \<in> set fetched. col (localise env t r) ''id'' \<noteq> VNull) \<and>
          key_distinct t (map (localise env t) fetched)
          \<longrightarrow> tbl (cur w') t = map (localise env t) fetched" by auto
  from a b show ?thesis ..
qed

text \<open>
  Claim C2, as stated, fails where the remote active set of a replace table is empty.
  The loop reads \<open>if (!data?.length) continue;\<close> before it clears the table, so a table
  with no active remote row is skipped: the download succeeds and the local \<open>users\<close>
  table still holds the row that was soft-deleted remotely.
\<close>

theorem empty_remote_set_keeps_local_rows:
  "remote_select ex_env_remote_deleted Users = Inr [] \<and>
   fst (downloadUpdates ex_env_remote_deleted (ex_tables [(Users, [ex_local_user])])) = Inr () \<and>
   tbl (cur (snd (downloadUpdates ex_env_remote_deleted (ex_tables [(Users, [ex_local_user])])))) Users
     = [ex_local_user]"
  by (simp add: download_defs ex_env_remote_deleted_def ex_env_def ex_tables_def
      action_defs engine_defs Let_def)

theorem download_replaces_nonempty_tables_witness:
  "\<not> web (ex_env_remote 5) \<and> \<not> syncInProgress (ex_tables [(Users, [ex_local_user])]) \<and>
   isOnline (ex_env_remote 5) \<and>
   fst (downloadUpdates (ex_env_remote 5) (ex_tables [(Users, [ex_local_user])])) = Inr () \<and>
   (Users, True) \<in> set tables \<and>
   remote_select (ex_env_remote 5) Users = Inr [ex_remote_user 5] \<and>
   col (localise (ex_env_remote 5) Users (ex_remote_user 5)) ''id'' = VInt 5 \<and>
   key_distinct Users (map (localise (ex_env_remote 5) Users) [ex_remote_user 5]) \<and>
   tbl (cur (snd (downloadUpdates (ex_env_remote 5) (ex_tables [(Users, [ex_local_user])])))) Users
     = [[(''id'', VInt 5), (''username'', VText ''eva''), (''password'', VText ''pw''),
         (''is_admin'', VBool False), (''active'', VBool True),
         (''created_at'', VText ''2026-01-12 13:46:40''),
         (''updated_at'', VText ''2026-01-12 13:46:40''), (''deleted_at'', VNull)]]"
proof -
  let ?e = "ex_env_remote 5"
  let ?w = "ex_tables [(Users, [ex_local_user])]"
  let ?D = "downloadUpdates ?e ?w"
  have h: "\<not> web ?e" "\<not> syncInProgress ?w" "isOnline ?e"
    by (simp_all add: ex_env_remote_def ex_env_def ex_tables_def isOnline_def)
  have d: "fst ?D = Inr ()"
    by (simp add: download_defs ex_env_remote_def ex_env_def ex_remote_user_def ex_tables_def
        ex_local_user_def action_defs engine_defs Let_def)
  then have d': "?D = (Inr (), snd ?D)" by (metis prod.collapse)
  have t: "(Users, True) \<in> set tables" by (simp add: tables_def)
  have f: "remote_select ?e Users = Inr [ex_remote_user 5]"
    by (simp add: remote_select_def ex_env_remote_def ex_env_def ex_remote_user_def col_def)
  have l: "localise ?e Users (ex_remote_user 5) =
             [(''id'', VInt 5), (''username'', VText ''eva''), (''password'', VText ''pw''),
              (''is_admin'', VBool False), (''active'', VBool True),
              (''created_at'', VText ''2026-01-12 13:46:40''),
              (''updated_at'', VText ''2026-01-12 13:46:40''), (''deleted_at'', VNull)]"
    by (simp add: localise_def ex_remote_user_def ex_env_remote_def ex_env_def engine_defs)
  have i: "col (localise ?e Users (ex_remote_user 5)) ''id'' = VInt 5"
    by (simp add: l col_def)
  have k: "key_distinct Users (map (localise ?e Users) [ex_remote_user 5])" by simp
  from download_replaces_nonempty_tables[OF h d' t f] i k
  have "tbl (cur (snd ?D)) Users = map (localise ?e Users) [ex_remote_user 5]" by simp
  with h d t f i k l show ?thesis by simp
qed

section \<open>Two overlapping downloads\<close>

text \<open>
  Run without another invocation in between, the three steps are \<open>downloadUpdates\<close>.
\<close>

lemma downloadUpdates_in_steps:
  "interleave env env' [True, True, True] (AtGuard, p, w) =
     (if web env \<or> syncInProgress w \<or> \<not> isOnline env then (Skipped, p, w)
      else (phase_of (fst (downloadUpdates env w)), p, snd (downloadUpdates env w)))"
  by (auto simp: download_step_def downloadUpdates_def phase_of_def split: prod.splits sum.splits)

text \<open>
  An invocation that arrives once the flag is set is dropped at the guard and changes
  nothing.
\<close>

lemma arrival_after_flag_is_dropped:
  "syncInProgress w \<Longrightarrow> download_step env AtGuard w = (Skipped, w)"
  by (simp add: download_step_def)

lemma download_body_clears_flag: "download_body env w = (r, w') \<Longrightarrow> \<not> syncInProgress w'"
  by (auto simp: download_body_def finally_do_def split: prod.splits)

text \<open>
  The same for any two environments that are online: with that schedule both
  invocations reach their \<open>try\<close> block.
\<close>

lemma both_invocations_run:
  assumes "\<not> web e1" "\<not> web e2" "isOnline e1" "isOnline e2" "\<not> syncInProgress w"
  shows "\<exists>r1 r2 w'. interleave e1 e2 [True, False, True, True, False, False] (AtGuard, AtGuard, w)
           = (Finished r1, Finished r2, w')"
  using assms
  by (auto simp: download_step_def split: prod.splits sum.splits)

text \<open>
  Claim C7. The guard reads \<open>syncInProgress\<close> before the \<open>await isOnline()\<close> and the
  flag is set only after it. Two invocations that both start before either probe has
  answered both pass the guard: here the first invocation runs its whole transaction and
  writes user 5, then the second one, which arrived while the first was in flight, runs
  its own transaction and replaces the table with user 6. Neither was dropped.
\<close>

theorem two_downloads_both_run:
  "fst (interleave (ex_env_remote 5) (ex_env_remote 6) [True, False, True, True, False, False]
         (AtGuard, AtGuard, ex_tables [(Users, [ex_local_user])])) = Finished None \<and>
   fst (snd (interleave (ex_env_remote 5) (ex_env_remote 6) [True, False, True, True, False, False]
         (AtGuard, AtGuard, ex_tables [(Users, [ex_local_user])]))) = Finished None \<and>
   map (\<lambda>r. col r ''id'')
     (tbl (cur (snd (snd (interleave (ex_env_remote 5) (ex_env_remote 6) [True, False, True, True]
         (AtGuard, AtGuard, ex_tables [(Users, [ex_local_user])]))))) Users) = [VInt 5] \<and>
   map (\<lambda>r. col r ''id'')
     (tbl (cur (snd (snd (interleave (ex_env_remote 5) (ex_env_remote 6)
         [True, False, True, True, False, False]
         (AtGuard, AtGuard, ex_tables [(Users, [ex_local_user])]))))) Users) = [VInt 6]"
  by (simp add: download_step_def download_defs ex_env_remote_def ex_env_def ex_remote_user_def
      ex_tables_def ex_local_user_def action_defs engine_defs Let_def)

section \<open>Properties of the reads\<close>

lemma set_insert_by: "set (insert_by le x xs) = insert x (set xs)"
  by (induction xs) auto

lemma set_sort_by: "set (sort_by le xs) = set xs"
  unfolding sort_by_def by (induction xs) (auto simp: set_insert_by)

lemma set_order_by: "set (order_by c rs) = set rs"
  by (simp add: order_by_def set_sort_by)

lemma set_order_by_desc: "set (order_by_desc c rs) = set rs"
  by (simp add: order_by_desc_def set_sort_by)

lemma set_live_rows: "set (live_rows s t) = {r \<in> set (tbl s t). col r ''deleted_at'' = VNull}"
  by (simp add: live_rows_def)

lemma live_idI: "r \<in> set (live_rows s t) \<Longrightarrow> live_id s t (col r ''id'')"
  by (auto simp: live_id_def list_ex_iff)

lemma getRoles_live: "getRoles env w = Inr rs \<Longrightarrow> set rs = set (live_rows (cur w) Roles)"
  by (auto simp: getRoles_def set_order_by split: option.splits)

lemma getCompanies_live: "getCompanies env w = Inr cs \<Longrightarrow> set cs = set (live_rows (cur w) Companies)"
  by (auto simp: getCompanies_def set_order_by split: option.splits)

lemma getUsers_live:
  "getUsers env w = Inr us \<Longrightarrow> list_all (\<lambda>u. live_id (cur w) Users (u_id u)) us"
  by (auto simp: getUsers_def set_order_by list_all_iff user_of_def live_idI split: option.splits)

lemma login_rows_live: "u \<in> set (login_rows s n p) \<Longrightarrow> u \<in> set (live_rows s Users)"
  by (simp add: login_rows_def)

lemma getUser_live:
  assumes "getUser env username password w = Some u"
  shows "live_id (cur w) Users (u_id u)"
proof -
  from assms obtain user others where l: "login_rows (cur w) username password = user # others"
    by (auto simp: getUser_def split: option.splits list.splits)
  then have "user \<in> set (login_rows (cur w) username password)" by simp
  then have lv: "live_id (cur w) Users (col user ''id'')"
    using login_rows_live live_idI by blast
  from assms l have "u_id u = col user ''id''"
    by (auto simp: getUser_def user_of_def split: option.splits if_splits sum.splits)
  with lv show ?thesis by simp
qed

lemma getForms_live:
  "getForms env userId w = Inr fs \<Longrightarrow> list_all (\<lambda>f. live_id (cur w) Forms (f_id f)) fs"
  by (auto simp: getForms_def set_order_by list_all_iff form_of_def live_idI split: option.splits)

lemma find_in: "find P xs = Some x \<Longrightarrow> x \<in> set xs"
  by (induction xs) (auto split: if_splits)

lemma getFormById_live:
  assumes "getFormById env formId w = Inr (Some f)"
  shows "live_id (cur w) Forms (f_id f)"
proof -
  from assms obtain fs where g: "getForms env None w = Inr fs" and f: "find (\<lambda>f. f_id f = VInt formId) fs = Some f"
    by (auto simp: getFormById_def split: sum.splits)
  from f have "f \<in> set fs" by (rule find_in)
  with getForms_live[OF g] show ?thesis by (simp add: list_all_iff)
qed

lemma db_getForms_live:
  "db_getForms env userId companyId w = Inr fs \<Longrightarrow> list_all (\<lambda>f. live_id (cur w) Forms (f_id f)) fs"
  by (auto simp: db_getForms_def set_order_by list_all_iff form_of_def live_idI split: option.splits)

lemma db_getFormById_live:
  assumes "db_getFormById env formId w = Inr (Some f)"
  shows "live_id (cur w) Forms (f_id f)"
proof -
  from assms obtain r others where
    l: "filter (\<lambda>f. sql_eq (col f ''id'') (VInt formId)) (live_rows (cur w) Forms) = r # others"
    and f: "f_id f = col r ''id''"
    by (auto simp: db_getFormById_def form_of_def split: option.splits list.splits)
  from l have "r \<in> set (filter (\<lambda>f. sql_eq (col f ''id'') (VInt formId)) (live_rows (cur w) Forms))"
    by simp
  then have "r \<in> set (live_rows (cur w) Forms)" by simp
  with f show ?thesis by (simp add: live_idI)
qed

lemma r_id_response_of: "r_id (response_of fr js) = col fr ''id''"
  by (simp add: response_of_def split: prod.splits)

lemma dr_id_response_of: "dr_id (db_response_of fr js) = col fr ''id''"
  by (simp add: db_response_of_def split: prod.splits)

lemma getFormResponses_live:
  "getFormResponses env a b c w = Inr rs \<Longrightarrow>
   list_all (\<lambda>r. live_id (cur w) FormResponses (r_id r)) rs"
  by (auto simp: getFormResponses_def set_order_by_desc list_all_iff r_id_response_of live_idI
           split: option.splits)

lemma db_getFormResponses_live:
  "db_getFormResponses env a b c w = Inr rs \<Longrightarrow>
   list_all (\<lambda>r. live_id (cur w) FormResponses (dr_id r)) rs"
  by (auto simp: db_getFormResponses_def set_order_by_desc list_all_iff dr_id_response_of live_idI
           split: option.splits if_splits)

lemma col_append_other: "c \<noteq> k \<Longrightarrow> col (r @ [(k, x)]) c = col r c"
  by (auto simp: col_def map_add_def split: option.splits)

lemma active_visits_live:
  "v \<in> set (active_visits s userId) \<Longrightarrow>
   live_id s Visits (col v ''id'') \<and> col v ''deleted_at'' = VNull"
  by (auto simp: active_visits_def col_append_other live_idI set_live_rows)

lemma getActiveVisit_live:
  assumes "getActiveVisit env userId w = Inr (Some v)"
  shows "live_id (cur w) Visits (col v ''id'') \<and> col v ''deleted_at'' = VNull"
proof -
  from assms obtain others where "active_visits (cur w) userId = v # others"
    by (auto simp: getActiveVisit_def split: option.splits list.splits)
  then have "v \<in> set (active_visits (cur w) userId)" by simp
  then show ?thesis by (rule active_visits_live)
qed

lemma visit_details_live:
  assumes "d \<in> set (visit_details env s companyId startDate endDate userId)"
  shows "\<exists>v \<in> set (live_rows s Visits). col d ''visit_id'' = col v ''id'' \<and>
           col d ''user_id'' = col v ''user_id'' \<and> col d ''company_id'' = col v ''company_id''"
  using assms by (auto simp: visit_details_def col_def)

lemma group_by_sub: "g \<in> set (group_by k xs) \<Longrightarrow> g \<noteq> [] \<and> set g \<subseteq> set xs"
  by (induction k xs rule: group_by.induct) auto

lemma collect_Inr: "collect xs = Inr ys \<Longrightarrow> \<forall>y \<in> set ys. Inr y \<in> set xs"
  by (induction xs arbitrary: ys rule: collect.induct) (auto split: sum.splits)

lemma report_of_keys:
  "report_of env g = Inr r \<Longrightarrow>
   rp_user_id r = col (hd g) ''user_id'' \<and> rp_company_id r = col (hd g) ''company_id''"
  by (auto simp: report_of_def split: val.splits)

lemma getVisitReports_live:
  assumes "getVisitReports env companyId startDate endDate userId w = Inr rs"
  shows "list_all (of_live_visit (cur w)) rs"
proof -
  let ?ds = "visit_details env (cur w) companyId startDate endDate userId"
  let ?gs = "sort_by (\<lambda>a b. val_le (col (hd a) ''username'') (col (hd b) ''username'') \<and>
                             (col (hd a) ''username'' \<noteq> col (hd b) ''username'' \<or>
                              val_le (col (hd a) ''company_name'') (col (hd b) ''company_name'')))
               (group_by (\<lambda>d. (col d ''user_id'', col d ''company_id'')) ?ds)"
  from assms have c: "collect (map (report_of env) ?gs) = Inr rs"
    by (auto simp: getVisitReports_def split: option.splits)
  have "of_live_visit (cur w) r" if "r \<in> set rs" for r
  proof -
    from collect_Inr[OF c] that have "Inr r \<in> set (map (report_of env) ?gs)" by blast
    then obtain g where g: "g \<in> set ?gs" and r: "report_of env g = Inr r" by auto
    from g have "g \<in> set (group_by (\<lambda>d. (col d ''user_id'', col d ''company_id'')) ?ds)"
      by (simp add: set_sort_by)
    then have "g \<noteq> []" "set g \<subseteq> set ?ds" using group_by_sub by blast+
    then have "hd g \<in> set ?ds" by (cases g) auto
    from visit_details_live[OF this] obtain v where
      v: "v \<in> set (live_rows (cur w) Visits)" "col (hd g) ''user_id'' = col v ''user_id''"
         "col (hd g) ''company_id'' = col v ''company_id''" by blast
    with report_of_keys[OF r] show ?thesis
      by (auto simp: of_live_visit_def list_ex_iff)
  qed
  then show ?thesis by (simp add: list_all_iff)
qed

text \<open>
  Claim C10. When the login query selects an administrator (the first row of users that
  is not soft-deleted and has this user name and password has a true \<open>is_admin\<close>) and
  the engine rejects none of the three queries, \<open>getUser\<close> returns that user with the
  roles \<open>getRoles\<close> returns and the companies \<open>getCompanies\<close> returns: exactly the rows
  of \<open>roles\<close> and of \<open>companies\<close> that are not soft-deleted. The junction tables
  \<open>user_roles\<close> and \<open>user_companies\<close> occur nowhere in the result.
\<close>

theorem admin_login_gets_all_roles_and_companies:
  assumes "fault env (Select ''getUser'') (cur w) = None"
      and "fault env (Select ''getRoles'') (cur w) = None"
      and "fault env (Select ''getCompanies'') (cur w) = None"
      and "login_rows (cur w) username password = user # others"
      and "truthy (col user ''is_admin'')"
  shows "\<exists>x. getUser env username password w = Some x \<and>
             u_id x = col user ''id'' \<and> u_isAdmin x \<and>
             getRoles env w = Inr (u_roles x) \<and>
             getCompanies env w = Inr (u_companies x) \<and>
             set (u_roles x) = {r \<in> set (tbl (cur w) Roles). col r ''deleted_at'' = VNull} \<and>
             set (u_companies x) = {c \<in> set (tbl (cur w) Companies). col c ''deleted_at'' = VNull}"
  using assms
  by (simp add: getUser_def getRoles_def getCompanies_def rejected_def set_order_by set_live_rows)

lemma ex_login_rows:
  "login_rows (cur ex_world_reads) ''admin'' ''admin123'' = [ex_local_user]"
  by code_simp

lemma ex_getUsers:
  "getUsers ex_env_reads ex_world_reads =
     Inr [\<lparr>u_id = VInt 1, u_username = VText ''admin'', u_password = VText ''admin123'',
            u_isAdmin = True, u_active = True, u_roles = [], u_companies = []\<rparr>,
          ex_user_obj]"
  by code_simp

lemma ex_getUser: "getUser ex_env_reads ''ana'' ''pw'' ex_world_reads = Some ex_user_obj"
  by code_simp

lemma ex_getCompanies:
  "getCompanies ex_env_reads ex_world_reads =
     Inr [[(''id'', VInt 7), (''name'', VText ''Acme''), (''description'', VNull),
           (''deleted_at'', VNull)]]"
  by code_simp

lemma ex_getRoles:
  "getRoles ex_env_reads ex_world_reads =
     Inr [[(''id'', VInt 2), (''name'', VText ''Vendedor''), (''deleted_at'', VNull)]]"
  by code_simp

lemma ex_getForms: "getForms ex_env_reads (Some 2) ex_world_reads = Inr [ex_form_obj]"
  by code_simp

lemma ex_getFormById: "getFormById ex_env_reads 4 ex_world_reads = Inr (Some ex_form_obj)"
  by code_simp

lemma ex_db_getForms: "db_getForms ex_env_reads (Some 2) None ex_world_reads = Inr [ex_form_obj]"
  by code_simp

lemma ex_db_getFormById: "db_getFormById ex_env_reads 4 ex_world_reads = Inr (Some ex_form_obj)"
  by code_simp

lemma ex_getFormResponses:
  "getFormResponses ex_env_reads None (Some 12) None ex_world_reads =
     Inr [\<lparr>r_id = VInt 20, r_form_id = VInt 4, r_formName = VText ''Checklist'',
            r_visit_id = VInt 12, r_user_id = VInt 2, r_username = VText ''ana'',
            r_created_at = VText ''2026-01-08 09:10:00'',
            r_updated_at = VText ''2026-01-08 09:10:00'',
            r_responses = [[(''field_id'', VInt 10), (''fieldLabel'', VText ''Quantity''),
                            (''value'', VText ''5'')]]\<rparr>]"
  by code_simp

lemma ex_db_getFormResponses:
  "db_getFormResponses ex_env_reads None (Some 12) None ex_world_reads =
     Inr [\<lparr>dr_id = VInt 20, dr_formName = VText ''Checklist'', dr_username = VText ''ana'',
            dr_created_at = VText ''2026-01-08 09:10:00'',
            dr_responses = [[(''fieldLabel'', VText ''Quantity''), (''value'', VText ''5'')]]\<rparr>]"
  by code_simp

lemma ex_getActiveVisit:
  "getActiveVisit ex_env_reads 2 ex_world_reads =
     Inr (Some [(''id'', VInt 9), (''user_id'', VInt 2), (''company_id'', VInt 7),
                (''role_id'', VInt 2), (''start_time'', VText ''2026-01-10 09:00:00''),
                (''end_time'', VNull), (''no_gps_signal'', VInt 0), (''no_gps_signal_end'', VInt 0),
                (''deleted_at'', VNull), (''company_name'', VText ''Acme'')])"
  by code_simp

lemma ex_getVisitReports:
  "getVisitReports ex_env_reads None ''2026-01-01'' ''2026-01-31'' None ex_world_reads =
     Inr [\<lparr>rp_user_id = VInt 2, rp_username = VText ''ana'', rp_company_id = VInt 7,
            rp_company_name = VText ''Acme'', rp_total_duration = VInt 1800,
            rp_visits =
              [[(''id'', VInt 12), (''start_time'', VText ''2026-01-08 09:00:00''),
                (''end_time'', VText ''2026-01-08 09:30:00''), (''duration'', VInt 1800),
                (''start_latitude'', VNull), (''start_longitude'', VNull),
                (''no_gps_signal_start'', VBool True), (''end_latitude'', VNull),
                (''end_longitude'', VNull), (''no_gps_signal_end'', VBool True)]]\<rparr>]"
  by code_simp

lemma ex_soft_deleted:
  "list_ex (\<lambda>r. col r ''id'' = VInt 11 \<and> col r ''form_id'' = VInt 4 \<and>
                 col r ''deleted_at'' = VText ''2026-01-06 10:00:00'')
     (tbl (cur ex_world_reads) FormFields)"
  "tbl (cur ex_world_reads) FormCompanies =
     [[(''form_id'', VInt 4), (''company_id'', VInt 7),
       (''deleted_at'', VText ''2026-01-07 10:00:00'')]]"
  "list_ex (\<lambda>r. col r ''id'' = VInt 3 \<and> col r ''name'' = VText ''Auditor'' \<and>
                 col r ''deleted_at'' = VText ''2026-01-03 10:00:00'')
     (tbl (cur ex_world_reads) Roles)"
  "list_ex (\<lambda>r. col r ''id'' = VInt 8 \<and> col r ''name'' = VText ''Zeta'' \<and>
                 col r ''deleted_at'' = VText ''2026-01-04 10:00:00'')
     (tbl (cur ex_world_reads) Companies)"
  by code_simp+

theorem admin_login_gets_all_roles_and_companies_witness:
  "fault ex_env (Select ''getUser'') (cur ex_world_reads) = None \<and>
   fault ex_env (Select ''getRoles'') (cur ex_world_reads) = None \<and>
   fault ex_env (Select ''getCompanies'') (cur ex_world_reads) = None \<and>
   login_rows (cur ex_world_reads) ''admin'' ''admin123'' = [ex_local_user] \<and>
   truthy (col ex_local_user ''is_admin'') \<and>
   (\<exists>x. getUser ex_env ''admin'' ''admin123'' ex_world_reads = Some x \<and>
        u_id x = col ex_local_user ''id'' \<and> u_isAdmin x \<and>
        getRoles ex_env ex_world_reads = Inr (u_roles x) \<and>
        getCompanies ex_env ex_world_reads = Inr (u_companies x) \<and>
        set (u_roles x) =
          {r \<in> set (tbl (cur ex_world_reads) Roles). col r ''deleted_at'' = VNull} \<and>
        set (u_companies x) =
          {c \<in> set (tbl (cur ex_world_reads) Companies). col c ''deleted_at'' = VNull})"
proof -
  have f: "fault ex_env (Select ''getUser'') (cur ex_world_reads) = None"
    "fault ex_env (Select ''getRoles'') (cur ex_world_reads) = None"
    "fault ex_env (Select ''getCompanies'') (cur ex_world_reads) = None"
    by (simp_all add: ex_env_def)
  have a: "truthy (col ex_local_user ''is_admin'')"
    by (simp add: ex_local_user_def col_def truthy_def)
  from admin_login_gets_all_roles_and_companies[OF f ex_login_rows a] f ex_login_rows a
  show ?thesis by blast
qed

text \<open>
  Claim C8, as the code has it. Every read leaves out the soft-deleted rows of the table
  it reads from: each user of \<open>getUsers\<close> and \<open>getUser\<close>, each company of
  \<open>getCompanies\<close>, each role of \<open>getRoles\<close>, each form of \<open>getForms\<close> and
  \<open>getFormById\<close> (in both form modules), each response of \<open>getFormResponses\<close> (in
  both), the visit of \<open>getActiveVisit\<close> and each visit behind \<open>getVisitReports\<close> is a
  row whose \<open>deleted_at\<close> is NULL. Nothing is said of the rows joined to them.
\<close>

theorem reads_exclude_soft_deleted_rows_of_their_table:
  "(\<forall>us. getUsers env w = Inr us \<longrightarrow> list_all (\<lambda>u. live_id (cur w) Users (u_id u)) us) \<and>
   (\<forall>u. getUser env username password w = Some u \<longrightarrow> live_id (cur w) Users (u_id u)) \<and>
   (\<forall>cs. getCompanies env w = Inr cs \<longrightarrow> set cs = set (live_rows (cur w) Companies)) \<and>
   (\<forall>rs. getRoles env w = Inr rs \<longrightarrow> set rs = set (live_rows (cur w) Roles)) \<and>
   (\<forall>fs. getForms env userId w = Inr fs \<longrightarrow> list_all (\<lambda>f. live_id (cur w) Forms (f_id f)) fs) \<and>
   (\<forall>f. getFormById env formId w = Inr (Some f) \<longrightarrow> live_id (cur w) Forms (f_id f)) \<and>
   (\<forall>fs. db_getForms env userId companyId w = Inr fs \<longrightarrow>
         list_all (\<lambda>f. live_id (cur w) Forms (f_id f)) fs) \<and>
   (\<forall>f. db_getFormById env formId w = Inr (Some f) \<longrightarrow> live_id (cur w) Forms (f_id f)) \<and>
   (\<forall>rs. getFormResponses env form_id visit_id user_id w = Inr rs \<longrightarrow>
         list_all (\<lambda>r. live_id (cur w) FormResponses (r_id r)) rs) \<and>
   (\<forall>rs. db_getFormResponses env form_id visit_id user_id w = Inr rs \<longrightarrow>
         list_all (\<lambda>r. live_id (cur w) FormResponses (dr_id r)) rs) \<and>
   (\<forall>v. getActiveVisit env visitor w = Inr (Some v) \<longrightarrow>
        live_id (cur w) Visits (col v ''id'') \<and> col v ''deleted_at'' = VNull) \<and>
   (\<forall>rs. getVisitReports env companyId startDate endDate userId w = Inr rs \<longrightarrow>
         list_all (of_live_visit (cur w)) rs) \<and>
   list_all (\<lambda>d. live_id (cur w) Visits (col d ''visit_id''))
     (visit_details env (cur w) companyId startDate endDate userId)"
proof -
  have a1: "\<forall>us. getUsers env w = Inr us \<longrightarrow> list_all (\<lambda>u. live_id (cur w) Users (u_id u)) us"
    using getUsers_live by blast
  have a2: "\<forall>u. getUser env username password w = Some u \<longrightarrow> live_id (cur w) Users (u_id u)"
    using getUser_live by blast
  have a3: "\<forall>cs. getCompanies env w = Inr cs \<longrightarrow> set cs = set (live_rows (cur w) Companies)"
    using getCompanies_live by blast
  have a4: "\<forall>rs. getRoles env w = Inr rs \<longrightarrow> set rs = set (live_rows (cur w) Roles)"
    using getRoles_live by blast
  have a5: "\<forall>fs. getForms env userId w = Inr fs \<longrightarrow>
              list_all (\<lambda>f. live_id (cur w) Forms (f_id f)) fs"
    using getForms_live by blast
  have a6: "\<forall>f. getFormById env formId w = Inr (Some f) \<longrightarrow> live_id (cur w) Forms (f_id f)"
    using getFormById_live by blast
  have a7: "\<forall>fs. db_getForms env userId companyId w = Inr fs \<longrightarrow>
              list_all (\<lambda>f. live_id (cur w) Forms (f_id f)) fs"
    using db_getForms_live by blast
  have a8: "\<forall>f. db_getFormById env formId w = Inr (Some f) \<longrightarrow> live_id (cur w) Forms (f_id f)"
    using db_getFormById_live by blast
  have a9: "\<forall>rs. getFormResponses env form_id visit_id user_id w = Inr rs \<longrightarrow>
              list_all (\<lambda>r. live_id (cur w) FormResponses (r_id r)) rs"
    using getFormResponses_live by blast
  have a10: "\<forall>rs. db_getFormResponses env form_id visit_id user_id w = Inr rs \<longrightarrow>
               list_all (\<lambda>r. live_id (cur w) FormResponses (dr_id r)) rs"
    using db_getFormResponses_live by blast
  have a11: "\<forall>v. getActiveVisit env visitor w = Inr (Some v) \<longrightarrow>
               live_id (cur w) Visits (col v ''id'') \<and> col v ''deleted_at'' = VNull"
    using getActiveVisit_live by blast
  have a12: "\<forall>rs. getVisitReports env companyId startDate endDate userId w = Inr rs \<longrightarrow>
               list_all (of_live_visit (cur w)) rs"
    using getVisitReports_live by blast
  have a13: "list_all (\<lambda>d. live_id (cur w) Visits (col d ''visit_id''))
          (visit_details env (cur w) companyId startDate endDate userId)"
    unfolding list_all_iff
  proof
    fix d assume "d \<in> set (visit_details env (cur w) companyId startDate endDate userId)"
    from visit_details_live[OF this] show "live_id (cur w) Visits (col d ''visit_id'')"
      by (auto simp: live_idI)
  qed
  show ?thesis by (intro conjI a1 a2 a3 a4 a5 a6 a7 a8 a9 a10 a11 a12 a13)
qed

theorem reads_exclude_soft_deleted_rows_of_their_table_witness:
  "(\<exists>us. getUsers ex_env_reads ex_world_reads = Inr us \<and> us \<noteq> [] \<and>
         list_all (\<lambda>u. live_id (cur ex_world_reads) Users (u_id u)) us) \<and>
   (\<exists>u. getUser ex_env_reads ''ana'' ''pw'' ex_world_reads = Some u \<and>
        live_id (cur ex_world_reads) Users (u_id u)) \<and>
   (\<exists>cs. getCompanies ex_env_reads ex_world_reads = Inr cs \<and> cs \<noteq> [] \<and>
         set cs = set (live_rows (cur ex_world_reads) Companies)) \<and>
   (\<exists>rs. getRoles ex_env_reads ex_world_reads = Inr rs \<and> rs \<noteq> [] \<and>
         set rs = set (live_rows (cur ex_world_reads) Roles)) \<and>
   (\<exists>fs. getForms ex_env_reads (Some 2) ex_world_reads = Inr fs \<and> fs \<noteq> [] \<and>
         list_all (\<lambda>f. live_id (cur ex_world_reads) Forms (f_id f)) fs) \<and>
   (\<exists>f. getFormById ex_env_reads 4 ex_world_reads = Inr (Some f) \<and>
        live_id (cur ex_world_reads) Forms (f_id f)) \<and>
   (\<exists>fs. db_getForms ex_env_reads (Some 2) None ex_world_reads = Inr fs \<and> fs \<noteq> [] \<and>
         list_all (\<lambda>f. live_id (cur ex_world_reads) Forms (f_id f)) fs) \<and>
   (\<exists>f. db_getFormById ex_env_reads 4 ex_world_reads = Inr (Some f) \<and>
        live_id (cur ex_world_reads) Forms (f_id f)) \<and>
   (\<exists>rs. getFormResponses ex_env_reads None (Some 12) None ex_world_reads = Inr rs \<and> rs \<noteq> [] \<and>
         list_all (\<lambda>r. live_id (cur ex_world_reads) FormResponses (r_id r)) rs) \<and>
   (\<exists>rs. db_getFormResponses ex_env_reads None (Some 12) None ex_world_reads = Inr rs \<and>
         rs \<noteq> [] \<and> list_all (\<lambda>r. live_id (cur ex_world_reads) FormResponses (dr_id r)) rs) \<and>
   (\<exists>v. getActiveVisit ex_env_reads 2 ex_world_reads = Inr (Some v) \<and>
        live_id (cur ex_world_reads) Visits (col v ''id'') \<and> col v ''deleted_at'' = VNull) \<and>
   (\<exists>rs. getVisitReports ex_env_reads None ''2026-01-01'' ''2026-01-31'' None ex_world_reads =
           Inr rs \<and> rs \<noteq> [] \<and> list_all (of_live_visit (cur ex_world_reads)) rs)"
proof -
  note inst = reads_exclude_soft_deleted_rows_of_their_table
    [where env = ex_env_reads and w = ex_world_reads and username = "''ana''"
       and password = "''pw''" and userId = "Some 2" and formId = 4 and companyId = None
       and form_id = None and visit_id = "Some 12" and user_id = None and visitor = 2]
  note inst_reports = reads_exclude_soft_deleted_rows_of_their_table
    [where env = ex_env_reads and w = ex_world_reads and companyId = None
       and startDate = "''2026-01-01''" and endDate = "''2026-01-31''" and userId = None]
  have c1: "\<exists>us. getUsers ex_env_reads ex_world_reads = Inr us \<and> us \<noteq> [] \<and>
         list_all (\<lambda>u. live_id (cur ex_world_reads) Users (u_id u)) us"
    using inst ex_getUsers by blast
  have c2: "\<exists>u. getUser ex_env_reads ''ana'' ''pw'' ex_world_reads = Some u \<and>
        live_id (cur ex_world_reads) Users (u_id u)"
    using inst ex_getUser by blast
  have c3: "\<exists>cs. getCompanies ex_env_reads ex_world_reads = Inr cs \<and> cs \<noteq> [] \<and>
         set cs = set (live_rows (cur ex_world_reads) Companies)"
    using inst ex_getCompanies by blast
  have c4: "\<exists>rs. getRoles ex_env_reads ex_world_reads = Inr rs \<and> rs \<noteq> [] \<and>
         set rs = set (live_rows (cur ex_world_reads) Roles)"
    using inst ex_getRoles by blast
  have c5: "\<exists>fs. getForms ex_env_reads (Some 2) ex_world_reads = Inr fs \<and> fs \<noteq> [] \<and>
         list_all (\<lambda>f. live_id (cur ex_world_reads) Forms (f_id f)) fs"
    using inst ex_getForms by blast
  have c6: "\<exists>f. getFormById ex_env_reads 4 ex_world_reads = Inr (Some f) \<and>
        live_id (cur ex_world_reads) Forms (f_id f)"
    using inst ex_getFormById by blast
  have c7: "\<exists>fs. db_getForms ex_env_reads (Some 2) None ex_world_reads = Inr fs \<and> fs \<noteq> [] \<and>
         list_all (\<lambda>f. live_id (cur ex_world_reads) Forms (f_id f)) fs"
    using inst ex_db_getForms by blast
  have c8: "\<exists>f. db_getFormById ex_env_reads 4 ex_world_reads = Inr (Some f) \<and>
        live_id (cur ex_world_reads) Forms (f_id f)"
    using inst ex_db_getFormById by blast
  have c9: "\<exists>rs. getFormResponses ex_env_reads None (Some 12) None ex_world_reads = Inr rs \<and>
         rs \<noteq> [] \<and> list_all (\<lambda>r. live_id (cur ex_world_reads) FormResponses (r_id r)) rs"
    using inst ex_getFormResponses by blast
  have c10: "\<exists>rs. db_getFormResponses ex_env_reads None (Some 12) None ex_world_reads = Inr rs \<and>
         rs \<noteq> [] \<and> list_all (\<lambda>r. live_id (cur ex_world_reads) FormResponses (dr_id r)) rs"
    using inst ex_db_getFormResponses by blast
  have c11: "\<exists>v. getActiveVisit ex_env_reads 2 ex_world_reads = Inr (Some v) \<and>
        live_id (cur ex_world_reads) Visits (col v ''id'') \<and> col v ''deleted_at'' = VNull"
    using inst ex_getActiveVisit by blast
  have c12: "\<exists>rs. getVisitReports ex_env_reads None ''2026-01-01'' ''2026-01-31'' None
                    ex_world_reads = Inr rs \<and> rs \<noteq> [] \<and>
                  list_all (of_live_visit (cur ex_world_reads)) rs"
    using inst_reports ex_getVisitReports by blast
  from c1 c2 c3 c4 c5 c6 c7 c8 c9 c10 c11 c12 show ?thesis by blast
qed

text \<open>
  Claim C8 as stated does not hold for the joined rows. Field 11 of form 4 is
  soft-deleted, and so is the only company link of form 4; \<open>getForms\<close> (in both
  modules, for user 2) and \<open>getFormById\<close> still return form 4 with field 11. Role 3
  and company 8 are soft-deleted; \<open>getUser\<close> still returns them as the role and a
  company of user 2.
\<close>

theorem soft_deleted_joined_rows_are_returned:
  "list_ex (\<lambda>r. col r ''id'' = VInt 11 \<and> col r ''form_id'' = VInt 4 \<and>
                 col r ''deleted_at'' = VText ''2026-01-06 10:00:00'')
     (tbl (cur ex_world_reads) FormFields) \<and>
   tbl (cur ex_world_reads) FormCompanies =
     [[(''form_id'', VInt 4), (''company_id'', VInt 7),
       (''deleted_at'', VText ''2026-01-07 10:00:00'')]] \<and>
   getForms ex_env_reads (Some 2) ex_world_reads = Inr [ex_form_obj] \<and>
   db_getForms ex_env_reads (Some 2) None ex_world_reads = Inr [ex_form_obj] \<and>
   getFormById ex_env_reads 4 ex_world_reads = Inr (Some ex_form_obj) \<and>
   map (\<lambda>r. col r ''id'') (f_fields ex_form_obj) = [VInt 10, VInt 11] \<and>
   list_ex (\<lambda>r. col r ''id'' = VInt 3 \<and> col r ''name'' = VText ''Auditor'' \<and>
                 col r ''deleted_at'' = VText ''2026-01-03 10:00:00'')
     (tbl (cur ex_world_reads) Roles) \<and>
   list_ex (\<lambda>r. col r ''id'' = VInt 8 \<and> col r ''name'' = VText ''Zeta'' \<and>
                 col r ''deleted_at'' = VText ''2026-01-04 10:00:00'')
     (tbl (cur ex_world_reads) Companies) \<and>
   getUser ex_env_reads ''ana'' ''pw'' ex_world_reads = Some ex_user_obj \<and>
   u_roles ex_user_obj = [[(''id'', VInt 3), (''name'', VText ''Auditor'')]] \<and>
   map (\<lambda>r. col r ''id'') (u_companies ex_user_obj) = [VInt 7, VInt 8]"
proof -
  have "map (\<lambda>r. col r ''id'') (f_fields ex_form_obj) = [VInt 10, VInt 11]"
    "u_roles ex_user_obj = [[(''id'', VInt 3), (''name'', VText ''Auditor'')]]"
    "map (\<lambda>r. col r ''id'') (u_companies ex_user_obj) = [VInt 7, VInt 8]"
    by (simp_all add: ex_form_obj_def ex_user_obj_def col_def)
  with ex_soft_deleted ex_getForms ex_db_getForms ex_getFormById ex_getUser
  show ?thesis by simp
qed

end
